(* ===== verification/PX_Prelude.thy ===== *)
theory PX_Prelude
  imports Main "HOL-Library.Word" "HOL-Library.Monad_Syntax"
begin

text \<open>
  Shared vocabulary of the development: the machine integer types of the C code, its
  status codes, the two kinds of undefined outcome the model keeps apart (an
  \<open>assert\<close> that fires and an access outside an object), number printing as
  \<open>printf\<close> does it, and the generic lemmas on lists, options and words that several
  components use.
\<close>

unbundle bit_operations_syntax

section \<open>Machine integers\<close>

type_synonym u8 = "8 word"
type_synonym u16 = "16 word"
type_synonym u32 = "32 word"
type_synonym u64 = "64 word"

section \<open>Status codes of libsigrok and libsigrokdecode\<close>

text \<open>
  The libsigrok codes are positive (\<open>libsigrok.h\<close>, lines 69 to 90), the
  libsigrokdecode codes are negative (\<open>libsigrokdecode.h\<close>, lines 83 to 97). Drivers
  and callbacks return arbitrary \<open>int\<close> values, so a status is an \<open>int\<close>.
\<close>

abbreviation (input) SR_OK :: int where "SR_OK \<equiv> 0"
abbreviation (input) SR_ERR :: int where "SR_ERR \<equiv> 1"
abbreviation (input) SR_ERR_MALLOC :: int where "SR_ERR_MALLOC \<equiv> 2"
abbreviation (input) SR_ERR_ARG :: int where "SR_ERR_ARG \<equiv> 3"
abbreviation (input) SR_ERR_BUG :: int where "SR_ERR_BUG \<equiv> 4"
abbreviation (input) SR_ERR_CALL_STATUS :: int where "SR_ERR_CALL_STATUS \<equiv> 8"
abbreviation (input) SR_ERR_HAVE_DONE :: int where "SR_ERR_HAVE_DONE \<equiv> 9"

abbreviation (input) SRD_OK :: int where "SRD_OK \<equiv> 0"
abbreviation (input) SRD_ERR :: int where "SRD_ERR \<equiv> - 1"
abbreviation (input) SRD_ERR_ARG :: int where "SRD_ERR_ARG \<equiv> - 3"
abbreviation (input) SRD_ERR_TERM_REQ :: int where "SRD_ERR_TERM_REQ \<equiv> - 7"

section \<open>Faults\<close>

text \<open>
  What the C code has no defined result for is a value of \<open>fault\<close>: a failed
  \<open>assert\<close>, a dereferenced null pointer, an index outside an array, an object used after
  it was freed or freed twice, a shift the language leaves undefined, a
  recursion without end, a variable argument read beyond the list or at another type, a
  conversion of a floating number that the integer type cannot hold, a signed result out of range. A function that can fault returns \<open>fault + 'a\<close>.
\<close>

datatype fault = AssertFailed | NullDeref | OutOfBounds | UseAfterFree | BadShift | DoubleFree | StackOverflow
  | BadVarArg | BadConversion | SignedOverflow

text \<open>Reading and writing an array cell, with the fault written out.\<close>

definition rd :: "'a list \<Rightarrow> nat \<Rightarrow> fault + 'a" where
  "rd xs i = (if i < length xs then Inr (xs ! i) else Inl OutOfBounds)"

definition wr :: "'a list \<Rightarrow> nat \<Rightarrow> 'a \<Rightarrow> fault + 'a list" where
  "wr xs i x = (if i < length xs then Inr (xs[i := x]) else Inl OutOfBounds)"

lemma rd_Inr [simp]: "i < length xs \<Longrightarrow> rd xs i = Inr (xs ! i)"
  by (simp add: rd_def)

lemma wr_Inr [simp]: "i < length xs \<Longrightarrow> wr xs i x = Inr (xs[i := x])"
  by (simp add: wr_def)

text \<open>Sequencing of computations that can fault.\<close>

definition ebind :: "'e + 'a \<Rightarrow> ('a \<Rightarrow> 'e + 'b) \<Rightarrow> 'e + 'b" where
  "ebind m f = (case m of Inl e \<Rightarrow> Inl e | Inr x \<Rightarrow> f x)"

lemma ebind_simps [simp]:
  "ebind (Inl e) f = Inl e"
  "ebind (Inr x) f = f x"
  by (simp_all add: ebind_def)

lemma ebind_cong [fundef_cong]:
  "m = m' \<Longrightarrow> (\<And>x. m' = Inr x \<Longrightarrow> f x = g x) \<Longrightarrow> ebind m f = ebind m' g"
  by (cases m') auto

lemma ebind_eq_Inr: "ebind m f = Inr y \<longleftrightarrow> (\<exists>x. m = Inr x \<and> f x = Inr y)"
  by (cases m) auto

section \<open>Collections for the proofs\<close>

named_theorems word_bits \<open>bit-level characterisations of the word-building code\<close>
named_theorems frame \<open>fields an operation leaves alone\<close>

section \<open>Words\<close>

text \<open>Shifting one bit into a word from the right, \<open>w = (w << 1) + b\<close> or \<open>(w << 1) | b\<close>.\<close>

definition shift_in :: "'a::len word \<Rightarrow> bool \<Rightarrow> 'a word" where
  "shift_in m b = push_bit 1 m + of_bool b"

lemma shift_in_or: "shift_in m b = push_bit 1 m OR of_bool b"
proof -
  have "push_bit 1 m AND of_bool b = 0"
    by (rule bit_eqI) (auto simp: bit_simps bit_0)
  then show ?thesis
    by (simp add: shift_in_def disjunctive_add_eq_or)
qed

lemma bit_shift_in [word_bits]:
  fixes m :: "'a::len word"
  shows "bit (shift_in m b) k
    \<longleftrightarrow> k < LENGTH('a) \<and> (case k of 0 \<Rightarrow> b | Suc k' \<Rightarrow> bit m k')"
proof -
  have "bit (shift_in m b) k
      \<longleftrightarrow> (1 \<le> k \<and> k < LENGTH('a) \<and> bit m (k - 1)) \<or> (b \<and> k = 0)"
    by (auto simp only: shift_in_or bit_or_iff bit_push_bit_iff bit_of_bool_iff possible_bit_word)
  then show ?thesis
    by (cases k) auto
qed

lemma unat_Suc_less: "(a :: 'a::len word) < b \<Longrightarrow> unat (a + 1) = Suc (unat a)"
proof -
  assume "a < b"
  then have "Suc (unat a) \<le> unat b" by (simp add: word_less_nat_alt)
  also have "unat b < 2 ^ LENGTH('a)" by (rule unsigned_less)
  finally have "unat a + unat (1 :: 'a word) < 2 ^ LENGTH('a)" by simp
  then show ?thesis
    by (subst (asm) unat_add_lem) simp
qed

lemma less_16_cases:
  "(k :: nat) < 16 \<Longrightarrow> k \<in> {0, 1, 2, 3, 4, 5, 6, 7, 8, 9, 10, 11, 12, 13, 14, 15}"
  by (simp add: less_Suc_eq eval_nat_numeral)

section \<open>Printing numbers\<close>

text \<open>The digits of a number in a base, most significant first, as \<open>printf\<close> writes them.\<close>

definition digit_char :: "nat \<Rightarrow> char" where
  "digit_char d = (if d < 10 then char_of (48 + d) else char_of (87 + d))"

fun digits :: "nat \<Rightarrow> nat \<Rightarrow> string" where
  "digits b n =
     (if n < b \<or> b \<le> 1 then [digit_char n] else digits b (n div b) @ [digit_char (n mod b)])"

declare digits.simps [simp del]

definition dec_string :: "nat \<Rightarrow> string" where
  "dec_string = digits 10"

definition pad_left :: "char \<Rightarrow> nat \<Rightarrow> string \<Rightarrow> string" where
  "pad_left c w s = replicate (w - length s) c @ s"

text \<open>\<open>"%02x"\<close> of a byte.\<close>

definition hex2 :: "u8 \<Rightarrow> string" where
  "hex2 v = pad_left (CHR ''0'') 2 (digits 16 (unat v))"

text \<open>Reading decimal digits back.\<close>

definition is_digit :: "char \<Rightarrow> bool" where
  "is_digit c \<longleftrightarrow> 48 \<le> (of_char c :: nat) \<and> (of_char c :: nat) \<le> 57"

definition digit_val :: "char \<Rightarrow> nat" where
  "digit_val c = of_char c - 48"

definition dec_val :: "string \<Rightarrow> nat" where
  "dec_val s = foldl (\<lambda>n c. 10 * n + digit_val c) 0 s"

lemma of_char_of_nat [simp]: "n < 256 \<Longrightarrow> of_char (char_of n :: char) = (n :: nat)"
  by (simp add: of_char_of)

lemma is_digit_digit_char [simp]: "d < 10 \<Longrightarrow> is_digit (digit_char d)"
  by (simp add: is_digit_def digit_char_def)

lemma digit_val_digit_char [simp]: "d < 10 \<Longrightarrow> digit_val (digit_char d) = d"
  by (simp add: digit_val_def digit_char_def)

lemma dec_string_small: "n < 10 \<Longrightarrow> dec_string n = [digit_char n]"
  by (simp add: dec_string_def digits.simps [of 10 n])

lemma dec_string_step:
  "\<not> n < 10 \<Longrightarrow> dec_string n = dec_string (n div 10) @ [digit_char (n mod 10)]"
  by (simp add: dec_string_def digits.simps [of 10 n])

lemma dec_string_induct [case_names small step]:
  assumes "\<And>n. n < 10 \<Longrightarrow> P n" "\<And>n. \<not> n < 10 \<Longrightarrow> P (n div 10) \<Longrightarrow> P n"
  shows "P (n :: nat)"
proof (induction n rule: less_induct)
  case (less n)
  then show ?case using assms by (cases "n < 10") auto
qed

lemma dec_string_digits: "\<forall>c \<in> set (dec_string n). is_digit c"
  by (induction n rule: dec_string_induct) (auto simp: dec_string_small dec_string_step)

lemma dec_string_nonempty [simp]: "dec_string n \<noteq> []"
  by (induction n rule: dec_string_induct) (auto simp: dec_string_small dec_string_step)

lemma dec_val_snoc: "dec_val (s @ [c]) = 10 * dec_val s + digit_val c"
  by (simp add: dec_val_def)

lemma dec_val_dec_string [simp]: "dec_val (dec_string n) = n"
proof (induction n rule: dec_string_induct)
  case (small n)
  then show ?case by (simp add: dec_string_small dec_val_def)
next
  case (step n)
  then show ?case by (simp add: dec_string_step dec_val_snoc)
qed

end
