(* ===== verification/Op_System.thy ===== *)
theory Op_System
  imports PX_Prelude
begin

text \<open>
  The contract every stateful component of the development offers: a set of operations on
  a state, each of which may fault, and an invariant that they keep. A component proves
  the contract for one operation; what it means for a whole history of calls is proved
  here once.
\<close>

text \<open>A history of calls: the results in order and the last state, or the first fault.\<close>

fun run_ops :: "('op \<Rightarrow> 's \<Rightarrow> 'f + 'r \<times> 's) \<Rightarrow> 'op list \<Rightarrow> 's \<Rightarrow> 'f + 'r list \<times> 's" where
  "run_ops step [] s = Inr ([], s)"
| "run_ops step (c # cs) s =
     (case step c s of
        Inl f \<Rightarrow> Inl f
      | Inr (r, s') \<Rightarrow>
          (case run_ops step cs s' of Inl f \<Rightarrow> Inl f | Inr (rs, t) \<Rightarrow> Inr (r # rs, t)))"

lemma run_ops_append:
  "run_ops step (cs @ ds) s =
     (case run_ops step cs s of
        Inl f \<Rightarrow> Inl f
      | Inr (rs, s') \<Rightarrow>
          (case run_ops step ds s' of Inl f \<Rightarrow> Inl f | Inr (rs', t) \<Rightarrow> Inr (rs @ rs', t)))"
  by (induction cs arbitrary: s) (auto split: sum.splits)

locale op_system =
  fixes step :: "'op \<Rightarrow> 's \<Rightarrow> 'f + 'r \<times> 's"
    and inv :: "'s \<Rightarrow> bool"
  assumes step_inv: "inv s \<Longrightarrow> step c s = Inr (r, s') \<Longrightarrow> inv s'"
begin

lemma run_inv: "inv s \<Longrightarrow> run_ops step cs s = Inr (rs, s') \<Longrightarrow> inv s'"
proof (induction cs arbitrary: s rs)
  case Nil
  then show ?case by simp
next
  case (Cons c cs)
  then show ?case by (fastforce split: sum.splits dest: step_inv)
qed

lemma run_length: "run_ops step cs s = Inr (rs, s') \<Longrightarrow> length rs = length cs"
  by (induction cs arbitrary: s rs) (fastforce split: sum.splits)+

text \<open>
  What holds of a result when it is returned, and is kept by later calls, holds of all results
  at the end.
\<close>

lemma run_keeps:
  assumes "\<And>c s r s'. inv s \<Longrightarrow> step c s = Inr (r, s') \<Longrightarrow> Q s \<Longrightarrow> Q s'"
  shows "inv s \<Longrightarrow> Q s \<Longrightarrow> run_ops step cs s = Inr (rs, s') \<Longrightarrow> Q s'"
proof (induction cs arbitrary: s rs)
  case Nil
  then show ?case by simp
next
  case (Cons c cs)
  then obtain r t rs' where t: "step c s = Inr (r, t)" and run: "run_ops step cs t = Inr (rs', s')"
    by (auto split: sum.splits)
  show ?case
    using Cons.IH [OF step_inv [OF Cons.prems(1) t] assms [OF Cons.prems(1) t Cons.prems(2)] run] .
qed

lemma run_results:
  assumes new: "\<And>c s r s'. inv s \<Longrightarrow> step c s = Inr (r, s') \<Longrightarrow> Q r s'"
    and kept: "\<And>c s x s' r. inv s \<Longrightarrow> step c s = Inr (r, s') \<Longrightarrow> Q x s \<Longrightarrow> Q x s'"
  shows "inv s \<Longrightarrow> run_ops step cs s = Inr (rs, s') \<Longrightarrow> \<forall>r \<in> set rs. Q r s'"
proof (induction cs arbitrary: s rs)
  case Nil
  then show ?case by simp
next
  case (Cons c cs)
  then obtain r t rs' where t: "step c s = Inr (r, t)" and rs: "rs = r # rs'"
    and run: "run_ops step cs t = Inr (rs', s')" by (auto split: sum.splits)
  have "inv t" using Cons.prems(1) t by (rule step_inv)
  moreover have "Q r s'"
    using run_keeps [of "Q r" t, OF _ \<open>inv t\<close> new [OF Cons.prems(1) t] run] kept by blast
  ultimately show ?case using Cons.IH [OF _ run] rs by simp
qed

end

text \<open>
  A component that is also safe: where the caller respects the documented precondition of
  each call, no call faults.
\<close>

locale safe_op_system = op_system +
  fixes pre :: "'a \<Rightarrow> 'b \<Rightarrow> bool"
  assumes step_safe: "inv s \<Longrightarrow> pre c s \<Longrightarrow> \<exists>r s'. step c s = Inr (r, s')"
    and pre_stable: "inv s \<Longrightarrow> step c s = Inr (r, s') \<Longrightarrow> pre d s \<Longrightarrow> pre d s'"
begin

lemma run_safe:
  "inv s \<Longrightarrow> \<forall>c \<in> set cs. pre c s \<Longrightarrow> \<exists>rs s'. run_ops step cs s = Inr (rs, s')"
proof (induction cs arbitrary: s)
  case Nil
  then show ?case by simp
next
  case (Cons c cs)
  then obtain r t where t: "step c s = Inr (r, t)" by (auto dest!: step_safe)
  with Cons.prems have "inv t" "\<forall>d \<in> set cs. pre d t"
    by (auto dest: step_inv pre_stable)
  with Cons.IH obtain rs s' where "run_ops step cs t = Inr (rs, s')" by blast
  with t show ?case by simp
qed

end

text \<open>
  A component whose operations may fault: the locale fixes which operation can fault how, and
  a history that faults contains such an operation.
\<close>

locale faulty_op_system = op_system step inv
  for step :: "'op \<Rightarrow> 's \<Rightarrow> 'f + 'r \<times> 's" and inv :: "'s \<Rightarrow> bool" +
  fixes allowed :: "'op \<Rightarrow> 'f \<Rightarrow> bool"
  assumes step_fault: "inv s \<Longrightarrow> step c s = Inl f \<Longrightarrow> allowed c f"
begin

lemma run_fault: "inv s \<Longrightarrow> run_ops step cs s = Inl f \<Longrightarrow> \<exists>c \<in> set cs. allowed c f"
proof (induction cs arbitrary: s)
  case Nil
  then show ?case by simp
next
  case (Cons c cs)
  show ?case
  proof (cases "step c s")
    case (Inl g)
    with Cons.prems show ?thesis by (auto dest: step_fault)
  next
    case (Inr rt)
    obtain r t where rt: "rt = (r, t)" by force
    with Inr Cons.prems have "run_ops step cs t = Inl f" by (auto split: sum.splits prod.splits)
    with Cons.IH step_inv [OF Cons.prems(1) Inr [unfolded rt]] show ?thesis by auto
  qed
qed

end

section \<open>Transition systems\<close>

text \<open>
  Components whose parts run concurrently are step relations; the states they can get into
  are those reached from an initial one.
\<close>

inductive reach :: "('s \<Rightarrow> bool) \<Rightarrow> ('s \<Rightarrow> 's \<Rightarrow> bool) \<Rightarrow> 's \<Rightarrow> bool" for init next_state where
  reach_init: "init s \<Longrightarrow> reach init next_state s"
| reach_step: "reach init next_state s \<Longrightarrow> next_state s t \<Longrightarrow> reach init next_state t"

locale transition_system =
  fixes init :: "'s \<Rightarrow> bool"
    and next_state :: "'s \<Rightarrow> 's \<Rightarrow> bool"
    and inv :: "'s \<Rightarrow> bool"
  assumes init_inv: "init s \<Longrightarrow> inv s"
    and next_inv: "inv s \<Longrightarrow> next_state s t \<Longrightarrow> inv t"
begin

lemma reach_inv: "reach init next_state s \<Longrightarrow> inv s"
  by (induction rule: reach.induct) (auto intro: init_inv next_inv)

end

text \<open>
  A component that is described by a plain function on abstract states: each operation gives the
  result the description gives, and keeps the relation to it. Then so does a history.
\<close>

fun run_spec :: "('op \<Rightarrow> 'a \<Rightarrow> 'r \<times> 'a) \<Rightarrow> 'op list \<Rightarrow> 'a \<Rightarrow> 'r list \<times> 'a" where
  "run_spec spec [] a = ([], a)"
| "run_spec spec (c # cs) a = (let (r, b) = spec c a; (rs, d) = run_spec spec cs b in (r # rs, d))"

locale op_simulation =
  fixes step :: "'op \<Rightarrow> 's \<Rightarrow> 'f + 'r \<times> 's"
    and spec :: "'op \<Rightarrow> 'a \<Rightarrow> 'r \<times> 'a"
    and rel :: "'s \<Rightarrow> 'a \<Rightarrow> bool"
  assumes step_rel: "rel s a \<Longrightarrow> \<exists>s'. step c s = Inr (fst (spec c a), s') \<and> rel s' (snd (spec c a))"
begin

lemma run_rel:
  "rel s a \<Longrightarrow> \<exists>s'. run_ops step cs s = Inr (fst (run_spec spec cs a), s') \<and> rel s' (snd (run_spec spec cs a))"
proof (induction cs arbitrary: s a)
  case Nil
  then show ?case by simp
next
  case (Cons c cs)
  obtain s1 where s1: "step c s = Inr (fst (spec c a), s1)" "rel s1 (snd (spec c a))"
    using step_rel [OF Cons.prems] by blast
  from Cons.IH [OF s1(2)] s1(1) show ?case by (auto simp: Let_def split: prod.splits)
qed

end

end
