(* ===== verification/Trigger.thy ===== *)
theory Trigger
  imports Op_System
begin

text \<open>
  The capture trigger of \<open>libsigrok/trigger.c\<close>: one global \<open>struct ds_trigger\<close>
  (here \<open>ds_trigger option\<close>, None before \<open>ds_trigger_init\<close>), its setters, and the
  functions that turn the trigger characters of one stage into the mask, value and edge
  words of the hardware. The \<open>assert\<close>s and the string reads are faults.
\<close>

section \<open>Data\<close>

text \<open>\<open>TriggerStages\<close>, \<open>TriggerProbes\<close> and \<open>MaxTriggerProbes\<close> of \<open>libsigrok.h\<close>.\<close>

abbreviation TriggerStages :: nat where "TriggerStages \<equiv> 16"
abbreviation TriggerProbes :: nat where "TriggerProbes \<equiv> 16"
abbreviation MaxTriggerProbes :: nat where "MaxTriggerProbes \<equiv> 32"

record ds_trigger =
  trigger_en :: u16
  trigger_mode :: u16
  trigger_pos :: u16
  trigger_stages :: u16
  trigger_logic :: "u8 list"
  trigger0_inv :: "u8 list"
  trigger1_inv :: "u8 list"
  trigger0 :: "char list list"
  trigger1 :: "char list list"
  trigger0_count :: "u32 list"
  trigger1_count :: "u32 list"

text \<open>The arrays have the sizes the struct declares.\<close>

definition grid_ok :: "char list list \<Rightarrow> bool" where
  "grid_ok g \<longleftrightarrow> length g = TriggerStages + 1 \<and> (\<forall>r \<in> set g. length r = MaxTriggerProbes)"

definition trigger_ok :: "ds_trigger \<Rightarrow> bool" where
  "trigger_ok t \<longleftrightarrow> length (trigger_logic t) = TriggerStages + 1
    \<and> length (trigger0_inv t) = TriggerStages + 1 \<and> length (trigger1_inv t) = TriggerStages + 1
    \<and> grid_ok (trigger0 t) \<and> grid_ok (trigger1 t)
    \<and> length (trigger0_count t) = TriggerStages + 1
    \<and> length (trigger1_count t) = TriggerStages + 1"

section \<open>Operations\<close>

text \<open>
  \<open>ds_trigger_init\<close>: allocates the struct when there is none (\<open>mem\<close> says whether
  \<open>malloc\<close> returns memory; \<open>memset\<close> zeroes it), then resets every field.
\<close>

definition zero_trigger :: ds_trigger where
  "zero_trigger = \<lparr>trigger_en = 0, trigger_mode = 0, trigger_pos = 0, trigger_stages = 0,
     trigger_logic = replicate 17 0, trigger0_inv = replicate 17 0,
     trigger1_inv = replicate 17 0, trigger0 = replicate 17 (replicate 32 (CHR 0x00)),
     trigger1 = replicate 17 (replicate 32 (CHR 0x00)), trigger0_count = replicate 17 0,
     trigger1_count = replicate 17 0\<rparr>"

definition reset_trigger :: "ds_trigger \<Rightarrow> ds_trigger" where
  "reset_trigger t = t\<lparr>trigger_en := 0, trigger_mode := 0, trigger_pos := 0, trigger_stages := 0,
     trigger0 := replicate (TriggerStages + 1) (replicate MaxTriggerProbes (CHR ''X'')),
     trigger1 := replicate (TriggerStages + 1) (replicate MaxTriggerProbes (CHR ''X'')),
     trigger0_count := replicate (TriggerStages + 1) 0,
     trigger1_count := replicate (TriggerStages + 1) 0,
     trigger0_inv := replicate (TriggerStages + 1) 0,
     trigger1_inv := replicate (TriggerStages + 1) 0,
     trigger_logic := replicate (TriggerStages + 1) 1\<rparr>"

definition ds_trigger_init :: "bool \<Rightarrow> ds_trigger option \<Rightarrow> int \<times> ds_trigger option" where
  "ds_trigger_init mem tr =
     (case tr of
        None \<Rightarrow> if mem then (SR_OK, Some (reset_trigger zero_trigger)) else (SR_ERR_MALLOC, None)
      | Some t \<Rightarrow> (SR_OK, Some (reset_trigger t)))"

definition ds_trigger_destroy :: "ds_trigger option \<Rightarrow> int \<times> ds_trigger option" where
  "ds_trigger_destroy tr = (SR_OK, None)"

text \<open>
  The loop of \<open>ds_trigger_stage_set_value\<close>: character \<open>2 j\<close> of the string goes to
  probe \<open>probes - j - 1\<close> of the row. Reading past the caller's buffer is a fault. The two
  assignments of an iteration touch different arrays, so the loop is written once per array.
\<close>

fun set_row :: "nat list \<Rightarrow> nat \<Rightarrow> string \<Rightarrow> string \<Rightarrow> fault + string" where
  "set_row [] probes src row = Inr row"
| "set_row (j # js) probes src row =
     ebind (rd src (j * 2)) (\<lambda>c.
     ebind (wr row (probes - j - 1) c) (\<lambda>row'.
     set_row js probes src row'))"

definition ds_trigger_stage_set_value ::
  "u16 \<Rightarrow> u16 \<Rightarrow> string \<Rightarrow> string \<Rightarrow> ds_trigger option \<Rightarrow> fault + int \<times> ds_trigger option" where
  "ds_trigger_stage_set_value stage probes s0 s1 tr =
     (if \<not> unat stage < TriggerStages then Inl AssertFailed
      else if \<not> unat probes \<le> MaxTriggerProbes then Inl AssertFailed
      else case tr of
        None \<Rightarrow> Inr (SR_ERR_CALL_STATUS, None)
      | Some t \<Rightarrow>
          (let st = unat stage; js = [0..<unat probes] in
           ebind (set_row js (unat probes) s0 (trigger0 t ! st)) (\<lambda>r0.
           ebind (set_row js (unat probes) s1 (trigger1 t ! st)) (\<lambda>r1.
           Inr (SR_OK, Some (t\<lparr>trigger0 := (trigger0 t)[st := r0],
                               trigger1 := (trigger1 t)[st := r1]\<rparr>))))))"

text \<open>The two asserts the stage setters share.\<close>

definition stage_guard :: "u16 \<Rightarrow> u16 \<Rightarrow> (ds_trigger \<Rightarrow> ds_trigger) \<Rightarrow>
    ds_trigger option \<Rightarrow> fault + int \<times> ds_trigger option" where
  "stage_guard stage probes upd tr =
     (if \<not> unat stage < TriggerStages then Inl AssertFailed
      else if \<not> unat probes \<le> MaxTriggerProbes then Inl AssertFailed
      else case tr of None \<Rightarrow> Inr (SR_ERR_CALL_STATUS, None) | Some t \<Rightarrow> Inr (SR_OK, Some (upd t)))"

definition ds_trigger_stage_set_logic ::
  "u16 \<Rightarrow> u16 \<Rightarrow> u8 \<Rightarrow> ds_trigger option \<Rightarrow> fault + int \<times> ds_trigger option" where
  "ds_trigger_stage_set_logic stage probes lg =
     stage_guard stage probes (\<lambda>t. t\<lparr>trigger_logic := (trigger_logic t)[unat stage := lg]\<rparr>)"

definition ds_trigger_stage_set_inv ::
  "u16 \<Rightarrow> u16 \<Rightarrow> u8 \<Rightarrow> u8 \<Rightarrow> ds_trigger option \<Rightarrow> fault + int \<times> ds_trigger option" where
  "ds_trigger_stage_set_inv stage probes i0 i1 =
     stage_guard stage probes (\<lambda>t. t\<lparr>trigger0_inv := (trigger0_inv t)[unat stage := i0],
                                     trigger1_inv := (trigger1_inv t)[unat stage := i1]\<rparr>)"

definition ds_trigger_stage_set_count ::
  "u16 \<Rightarrow> u16 \<Rightarrow> u32 \<Rightarrow> u32 \<Rightarrow> ds_trigger option \<Rightarrow> fault + int \<times> ds_trigger option" where
  "ds_trigger_stage_set_count stage probes c0 c1 =
     stage_guard stage probes (\<lambda>t. t\<lparr>trigger0_count := (trigger0_count t)[unat stage := c0],
                                     trigger1_count := (trigger1_count t)[unat stage := c1]\<rparr>)"

text \<open>\<open>ds_trigger_probe_set\<close> writes the extra row \<open>TriggerStages\<close>, the simple trigger.\<close>

definition ds_trigger_probe_set ::
  "u16 \<Rightarrow> char \<Rightarrow> char \<Rightarrow> ds_trigger option \<Rightarrow> fault + int \<times> ds_trigger option" where
  "ds_trigger_probe_set probe c0 c1 tr =
     (if \<not> unat probe < MaxTriggerProbes then Inl AssertFailed
      else case tr of
        None \<Rightarrow> Inr (SR_ERR_CALL_STATUS, None)
      | Some t \<Rightarrow> Inr (SR_OK, Some (t\<lparr>
          trigger0 := (trigger0 t)[TriggerStages := (trigger0 t ! TriggerStages)[unat probe := c0]],
          trigger1 := (trigger1 t)[TriggerStages := (trigger1 t ! TriggerStages)[unat probe := c1]]\<rparr>)))"

definition ds_trigger_set_stage :: "u16 \<Rightarrow> ds_trigger option \<Rightarrow> fault + int \<times> ds_trigger option" where
  "ds_trigger_set_stage stages tr =
     (if \<not> unat stages \<le> TriggerStages then Inl AssertFailed
      else case tr of None \<Rightarrow> Inr (SR_ERR_CALL_STATUS, None)
      | Some t \<Rightarrow> Inr (SR_OK, Some (t\<lparr>trigger_stages := stages\<rparr>)))"

definition ds_trigger_set_pos :: "u16 \<Rightarrow> ds_trigger option \<Rightarrow> fault + int \<times> ds_trigger option" where
  "ds_trigger_set_pos position tr =
     (if \<not> unat position \<le> 100 then Inl AssertFailed
      else case tr of None \<Rightarrow> Inr (SR_ERR_CALL_STATUS, None)
      | Some t \<Rightarrow> Inr (SR_OK, Some (t\<lparr>trigger_pos := position\<rparr>)))"

definition ds_trigger_get_pos :: "ds_trigger option \<Rightarrow> u16" where
  "ds_trigger_get_pos tr = (case tr of None \<Rightarrow> 0 | Some t \<Rightarrow> trigger_pos t)"

definition ds_trigger_set_en :: "u16 \<Rightarrow> ds_trigger option \<Rightarrow> int \<times> ds_trigger option" where
  "ds_trigger_set_en enable tr =
     (case tr of None \<Rightarrow> (SR_ERR_CALL_STATUS, None)
      | Some t \<Rightarrow> (SR_OK, Some (t\<lparr>trigger_en := enable\<rparr>)))"

definition ds_trigger_get_en :: "ds_trigger option \<Rightarrow> u16" where
  "ds_trigger_get_en tr = (case tr of None \<Rightarrow> 0 | Some t \<Rightarrow> trigger_en t)"

definition ds_trigger_set_mode :: "u16 \<Rightarrow> ds_trigger option \<Rightarrow> int \<times> ds_trigger option" where
  "ds_trigger_set_mode mode tr =
     (case tr of None \<Rightarrow> (SR_ERR_CALL_STATUS, None)
      | Some t \<Rightarrow> (SR_OK, Some (t\<lparr>trigger_mode := mode\<rparr>)))"

section \<open>Hardware words\<close>

text \<open>
  The loop \<open>for (i = msc; i >= lsc; i--)\<close> with the character test as a parameter: it
  shifts the accumulator left and adds the test's 0 or 1.
\<close>

fun fold_probes :: "(char \<Rightarrow> bool) \<Rightarrow> string \<Rightarrow> nat list \<Rightarrow> u16 \<Rightarrow> u16" where
  "fold_probes p row [] acc = acc"
| "fold_probes p row (i # is) acc = fold_probes p row is (shift_in acc (p (row ! i)))"

text \<open>The quarter and half modes repeat the low 4 or 8 bits over the 16.\<close>

definition spread :: "bool \<Rightarrow> bool \<Rightarrow> u16 \<Rightarrow> u16" where
  "spread qutr half m =
     (let qutr_mask = drop_bit (TriggerProbes - TriggerProbes div 4) 0xffff :: u16;
          half_mask = drop_bit (TriggerProbes - TriggerProbes div 2) 0xffff :: u16 in
      if qutr then push_bit (TriggerProbes div 4 * 3) (m AND qutr_mask) +
                   push_bit (TriggerProbes div 4 * 2) (m AND qutr_mask) +
                   push_bit (TriggerProbes div 4 * 1) (m AND qutr_mask) +
                   push_bit (TriggerProbes div 4 * 0) (m AND qutr_mask)
      else if half then push_bit (TriggerProbes div 2 * 1) (m AND half_mask) +
                        push_bit (TriggerProbes div 2 * 0) (m AND half_mask)
      else m)"

text \<open>The body the six getters share: the asserts, the null check, the loop, the spreading.\<close>

definition get_word :: "(char \<Rightarrow> bool) \<Rightarrow> (ds_trigger \<Rightarrow> char list list) \<Rightarrow>
    u16 \<Rightarrow> u16 \<Rightarrow> u16 \<Rightarrow> bool \<Rightarrow> bool \<Rightarrow> ds_trigger option \<Rightarrow> fault + u16" where
  "get_word p sel stage msc lsc qutr half tr =
     (if \<not> unat stage \<le> TriggerStages then Inl AssertFailed
      else if \<not> lsc \<le> msc then Inl AssertFailed
      else if \<not> unat msc < MaxTriggerProbes then Inl AssertFailed
      else case tr of
        None \<Rightarrow> Inr (of_int SR_ERR_CALL_STATUS)
      | Some t \<Rightarrow> Inr (spread qutr half
          (fold_probes p (sel t ! unat stage) (rev [unat lsc..<Suc (unat msc)]) 0)))"

definition mask_char :: "char \<Rightarrow> bool" where
  "mask_char c \<longleftrightarrow> c = CHR ''X'' \<or> c = CHR ''C''"

definition value_char :: "char \<Rightarrow> bool" where
  "value_char c \<longleftrightarrow> c = CHR ''1'' \<or> c = CHR ''R''"

definition edge_char :: "char \<Rightarrow> bool" where
  "edge_char c \<longleftrightarrow> c = CHR ''R'' \<or> c = CHR ''F'' \<or> c = CHR ''C''"

definition ds_trigger_get_mask0 ::
  "u16 \<Rightarrow> u16 \<Rightarrow> u16 \<Rightarrow> bool \<Rightarrow> bool \<Rightarrow> ds_trigger option \<Rightarrow> fault + u16" where
  "ds_trigger_get_mask0 = get_word mask_char trigger0"

definition ds_trigger_get_mask1 ::
  "u16 \<Rightarrow> u16 \<Rightarrow> u16 \<Rightarrow> bool \<Rightarrow> bool \<Rightarrow> ds_trigger option \<Rightarrow> fault + u16" where
  "ds_trigger_get_mask1 = get_word mask_char trigger1"

definition ds_trigger_get_value0 ::
  "u16 \<Rightarrow> u16 \<Rightarrow> u16 \<Rightarrow> bool \<Rightarrow> bool \<Rightarrow> ds_trigger option \<Rightarrow> fault + u16" where
  "ds_trigger_get_value0 = get_word value_char trigger0"

definition ds_trigger_get_value1 ::
  "u16 \<Rightarrow> u16 \<Rightarrow> u16 \<Rightarrow> bool \<Rightarrow> bool \<Rightarrow> ds_trigger option \<Rightarrow> fault + u16" where
  "ds_trigger_get_value1 = get_word value_char trigger1"

definition ds_trigger_get_edge0 ::
  "u16 \<Rightarrow> u16 \<Rightarrow> u16 \<Rightarrow> bool \<Rightarrow> bool \<Rightarrow> ds_trigger option \<Rightarrow> fault + u16" where
  "ds_trigger_get_edge0 = get_word edge_char trigger0"

definition ds_trigger_get_edge1 ::
  "u16 \<Rightarrow> u16 \<Rightarrow> u16 \<Rightarrow> bool \<Rightarrow> bool \<Rightarrow> ds_trigger option \<Rightarrow> fault + u16" where
  "ds_trigger_get_edge1 = get_word edge_char trigger1"

section \<open>The bits of the hardware words\<close>

lemma bit_fold_probes [word_bits]:
  "k < 16 \<Longrightarrow> bit (fold_probes p row (rev [a..<b]) acc) k
     \<longleftrightarrow> (if k < b - a then p (row ! (a + k)) else bit acc (k - (b - a)))"
proof (induction b arbitrary: acc)
  case 0
  then show ?case by simp
next
  case (Suc b)
  show ?case
  proof (cases "a \<le> b")
    case True
    let ?acc = "shift_in acc (p (row ! b))"
    have step: "bit (fold_probes p row (rev [a..<Suc b]) acc) k
        \<longleftrightarrow> (if k < b - a then p (row ! (a + k)) else bit ?acc (k - (b - a)))"
      using True Suc by simp
    consider "k < b - a" | "k = b - a" | j where "k = Suc (b - a + j)"
      by (metis less_imp_Suc_add linorder_neqE_nat)
    then show ?thesis
    proof cases
      case 3
      then have "k - (b - a) = Suc j" "k - (Suc b - a) = j" "\<not> k < Suc b - a" "\<not> k < b - a" "Suc j < 16"
        using True Suc.prems by auto
      with step show ?thesis by (simp only: bit_shift_in) simp
    qed (use step True Suc.prems in \<open>auto simp: bit_shift_in\<close>)
  next
    case False
    then show ?thesis using Suc by simp
  qed
qed

lemma low_masks:
  "drop_bit 12 (0xffff :: u16) = mask 4" "drop_bit 8 (0xffff :: u16) = mask 8"
  by (simp_all add: mask_eq_exp_minus_1)

lemma bit_spread_qutr [word_bits]:
  "k < 16 \<Longrightarrow> bit (spread True half m) k \<longleftrightarrow> bit m (k mod 4)"
proof -
  assume k: "k < 16"
  let ?x = "m AND mask 4"
  have 1: "push_bit 12 ?x + push_bit 8 ?x = push_bit 12 ?x OR push_bit 8 ?x"
    by (rule disjunctive_add_eq_or, rule bit_eqI) (auto simp: bit_simps)
  have 2: "(push_bit 12 ?x OR push_bit 8 ?x) + push_bit 4 ?x
      = (push_bit 12 ?x OR push_bit 8 ?x) OR push_bit 4 ?x"
    by (rule disjunctive_add_eq_or, rule bit_eqI) (auto simp: bit_simps)
  have 3: "((push_bit 12 ?x OR push_bit 8 ?x) OR push_bit 4 ?x) + ?x
      = ((push_bit 12 ?x OR push_bit 8 ?x) OR push_bit 4 ?x) OR ?x"
    by (rule disjunctive_add_eq_or, rule bit_eqI) (auto simp: bit_simps)
  have "spread True half m = ((push_bit 12 ?x OR push_bit 8 ?x) OR push_bit 4 ?x) OR ?x"
    unfolding spread_def Let_def using 1 2 3 low_masks by simp
  moreover note less_16_cases [OF k]
  ultimately show ?thesis
    by (elim insertE emptyE) (simp_all add: bit_simps)
qed

lemma bit_spread_half [word_bits]:
  "k < 16 \<Longrightarrow> bit (spread False True m) k \<longleftrightarrow> bit m (k mod 8)"
proof -
  assume k: "k < 16"
  let ?x = "m AND mask 8"
  have 1: "push_bit 8 ?x + ?x = push_bit 8 ?x OR ?x"
    by (rule disjunctive_add_eq_or, rule bit_eqI) (auto simp: bit_simps)
  have "spread False True m = push_bit 8 ?x OR ?x"
    unfolding spread_def Let_def using 1 low_masks by simp
  moreover note less_16_cases [OF k]
  ultimately show ?thesis
    by (elim insertE emptyE) (simp_all add: bit_simps)
qed

lemma spread_plain [simp]: "spread False False m = m"
  by (simp add: spread_def)

text \<open>
  What one getter returns, bit by bit: in plain mode bit \<open>k\<close> tests the character of
  probe \<open>lsc + k\<close>; bits above the probe range are 0.
\<close>

definition probe_in_range :: "u16 \<Rightarrow> u16 \<Rightarrow> nat \<Rightarrow> bool" where
  "probe_in_range msc lsc k \<longleftrightarrow> k \<le> unat msc - unat lsc"

lemma get_word_bit:
  assumes "get_word p sel stage msc lsc qutr half (Some t) = Inr w" "k < 16"
  shows "bit w k \<longleftrightarrow> (let k' = (if qutr then k mod 4 else if half then k mod 8 else k) in
           probe_in_range msc lsc k' \<and> p (sel t ! unat stage ! (unat lsc + k')))"
proof -
  have le: "unat lsc \<le> unat msc" "w = spread qutr half
      (fold_probes p (sel t ! unat stage) (rev [unat lsc..<Suc (unat msc)]) 0)"
    using assms(1) by (auto simp: get_word_def word_le_nat_alt simp del: upt_Suc split: if_splits)
  have *: "j < 16 \<Longrightarrow> bit (fold_probes p (sel t ! unat stage) (rev [unat lsc..<Suc (unat msc)]) 0) j
      \<longleftrightarrow> probe_in_range msc lsc j \<and> p (sel t ! unat stage ! (unat lsc + j))" for j
    by (subst bit_fold_probes)
      (use le(1) in \<open>auto simp: probe_in_range_def Suc_diff_le less_Suc_eq_le\<close>)
  show ?thesis
  proof (cases qutr)
    case True
    then show ?thesis using le(2) assms(2) * [of "k mod 4"] by (simp add: bit_spread_qutr Let_def)
  next
    case False
    then show ?thesis
      using le(2) assms(2) * [of "k mod 8"] * [of k]
      by (cases half) (simp_all add: bit_spread_half Let_def)
  qed
qed

section \<open>The component as a system of operations\<close>

text \<open>The calls the application makes on the trigger, and what each does to the global.\<close>

datatype trigger_call =
    TrigInit bool
  | TrigDestroy
  | TrigStageValue u16 u16 string string
  | TrigStageLogic u16 u16 u8
  | TrigStageInv u16 u16 u8 u8
  | TrigStageCount u16 u16 u32 u32
  | TrigProbe u16 char char
  | TrigSetStage u16
  | TrigSetPos u16
  | TrigSetEn u16
  | TrigSetMode u16

fun trigger_step :: "trigger_call \<Rightarrow> ds_trigger option \<Rightarrow> fault + int \<times> ds_trigger option" where
  "trigger_step (TrigInit mem) tr = Inr (ds_trigger_init mem tr)"
| "trigger_step TrigDestroy tr = Inr (ds_trigger_destroy tr)"
| "trigger_step (TrigStageValue st n s0 s1) tr = ds_trigger_stage_set_value st n s0 s1 tr"
| "trigger_step (TrigStageLogic st n l) tr = ds_trigger_stage_set_logic st n l tr"
| "trigger_step (TrigStageInv st n a b) tr = ds_trigger_stage_set_inv st n a b tr"
| "trigger_step (TrigStageCount st n a b) tr = ds_trigger_stage_set_count st n a b tr"
| "trigger_step (TrigProbe p a b) tr = ds_trigger_probe_set p a b tr"
| "trigger_step (TrigSetStage n) tr = ds_trigger_set_stage n tr"
| "trigger_step (TrigSetPos n) tr = ds_trigger_set_pos n tr"
| "trigger_step (TrigSetEn n) tr = Inr (ds_trigger_set_en n tr)"
| "trigger_step (TrigSetMode n) tr = Inr (ds_trigger_set_mode n tr)"

text \<open>
  The invariant: the arrays keep their sizes, the position is a percentage, the stage
  count is within \<open>TriggerStages\<close>.
\<close>

definition trigger_inv :: "ds_trigger option \<Rightarrow> bool" where
  "trigger_inv tr \<longleftrightarrow> (case tr of None \<Rightarrow> True
     | Some t \<Rightarrow> trigger_ok t \<and> unat (trigger_pos t) \<le> 100 \<and> unat (trigger_stages t) \<le> TriggerStages)"

text \<open>What a caller has to respect: the ranges of the asserts and strings long enough.\<close>

fun trigger_pre :: "trigger_call \<Rightarrow> ds_trigger option \<Rightarrow> bool" where
  "trigger_pre (TrigStageValue st n s0 s1) tr \<longleftrightarrow> unat st < TriggerStages
     \<and> unat n \<le> MaxTriggerProbes \<and> 2 * unat n \<le> Suc (length s0) \<and> 2 * unat n \<le> Suc (length s1)"
| "trigger_pre (TrigStageLogic st n l) tr \<longleftrightarrow> unat st < TriggerStages \<and> unat n \<le> MaxTriggerProbes"
| "trigger_pre (TrigStageInv st n a b) tr \<longleftrightarrow> unat st < TriggerStages \<and> unat n \<le> MaxTriggerProbes"
| "trigger_pre (TrigStageCount st n a b) tr \<longleftrightarrow> unat st < TriggerStages \<and> unat n \<le> MaxTriggerProbes"
| "trigger_pre (TrigProbe p a b) tr \<longleftrightarrow> unat p < MaxTriggerProbes"
| "trigger_pre (TrigSetStage n) tr \<longleftrightarrow> unat n \<le> TriggerStages"
| "trigger_pre (TrigSetPos n) tr \<longleftrightarrow> unat n \<le> 100"
| "trigger_pre _ tr \<longleftrightarrow> True"

lemma grid_ok_update [simp, intro]:
  "grid_ok g \<Longrightarrow> length r = MaxTriggerProbes \<Longrightarrow> grid_ok (g[i := r])"
  by (auto simp: grid_ok_def dest: set_update_subset_insert [THEN subsetD])

lemma grid_ok_row [simp]: "grid_ok g \<Longrightarrow> i < 17 \<Longrightarrow> length (g ! i) = MaxTriggerProbes"
  by (simp add: grid_ok_def)

lemma grid_ok_replicate [simp]: "grid_ok (replicate 17 (replicate 32 c))"
  by (simp add: grid_ok_def)

text \<open>The row loop: every even character lands at its mirrored probe; nothing else moves.\<close>

lemma set_row_spec:
  "n \<le> length row \<Longrightarrow> k \<le> n \<Longrightarrow> 2 * n \<le> Suc (length src) \<Longrightarrow>
   \<exists>row'. set_row [k..<n] n src row = Inr row' \<and> length row' = length row
     \<and> (\<forall>i < length row. row' ! i = (if i < n - k then src ! (2 * (n - 1 - i)) else row ! i))"
proof (induction "n - k" arbitrary: k row)
  case 0
  then show ?case by simp
next
  case (Suc d)
  then have k: "k < n" "[k..<n] = k # [Suc k..<n]" by (auto simp: upt_conv_Cons)
  let ?row = "row[n - k - 1 := src ! (k * 2)]"
  have "d = n - Suc k" using Suc.hyps(2) by simp
  note IH = Suc.hyps(1) [OF this, of ?row]
  from k Suc.prems Suc.hyps(2) obtain row' where row':
    "set_row [Suc k..<n] n src ?row = Inr row'" "length row' = length row"
    "\<forall>i < length row. row' ! i = (if i < n - Suc k then src ! (2 * (n - 1 - i)) else ?row ! i)"
    using IH by auto
  moreover have "set_row [k..<n] n src row = Inr row'"
    using k Suc.prems row'(1) by simp
  moreover have "row' ! i = (if i < n - k then src ! (2 * (n - 1 - i)) else row ! i)"
    if "i < length row" for i
  proof (cases "i = n - k - 1")
    case True
    with k that have "n - Suc i = k" "n - Suc k < n - k" "\<not> n - Suc k < n - Suc k" by linarith+
    with True that row'(3) k show ?thesis by (simp add: mult.commute)
  next
    case False
    with that row'(3) k show ?thesis by auto
  qed
  ultimately show ?case by auto
qed

lemma set_row_length: "set_row js n src row = Inr row' \<Longrightarrow> length row' = length row"
  by (induction js arbitrary: row) (auto simp: ebind_eq_Inr wr_def split: if_splits)

lemmas trigger_defs = ds_trigger_init_def ds_trigger_destroy_def ds_trigger_stage_set_value_def
  ds_trigger_stage_set_logic_def ds_trigger_stage_set_inv_def ds_trigger_stage_set_count_def
  stage_guard_def ds_trigger_probe_set_def ds_trigger_set_stage_def ds_trigger_set_pos_def
  ds_trigger_set_en_def ds_trigger_set_mode_def

lemma trigger_ok_reset: "trigger_ok (reset_trigger t)"
  by (simp add: trigger_ok_def reset_trigger_def)

lemma reset_trigger_fields [simp]:
  "trigger_pos (reset_trigger t) = 0" "trigger_stages (reset_trigger t) = 0"
  "trigger_en (reset_trigger t) = 0" "trigger_mode (reset_trigger t) = 0"
  by (simp_all add: reset_trigger_def)

lemma trigger_step_inv:
  assumes "trigger_inv tr" "trigger_step c tr = Inr (r, tr')"
  shows "trigger_inv tr'"
proof (cases c)
  case (TrigInit mem)
  then show ?thesis using assms(2)
    by (auto simp: trigger_defs trigger_inv_def trigger_ok_reset split: option.splits if_splits)
next
  case (TrigStageValue st n s0 s1)
  then show ?thesis using assms
    by (auto simp: trigger_defs trigger_inv_def trigger_ok_def ebind_eq_Inr Let_def
        dest!: set_row_length split: option.splits if_splits)
qed (use assms in \<open>auto simp: trigger_defs trigger_inv_def trigger_ok_def
       split: option.splits if_splits\<close>)

lemma trigger_step_safe:
  assumes "trigger_inv tr" "trigger_pre c tr"
  shows "\<exists>r tr'. trigger_step c tr = Inr (r, tr')"
proof (cases c)
  case (TrigStageValue st n s0 s1)
  show ?thesis
  proof (cases tr)
    case (Some t)
    then have "length (trigger0 t ! unat st) = 32" "length (trigger1 t ! unat st) = 32"
      using assms TrigStageValue by (auto simp: trigger_inv_def trigger_ok_def)
    moreover have n: "unat n \<le> 32" "2 * unat n \<le> Suc (length s0)" "2 * unat n \<le> Suc (length s1)"
      using assms TrigStageValue by auto
    ultimately obtain r0 r1 where
      "set_row [0..<unat n] (unat n) s0 (trigger0 t ! unat st) = Inr r0"
      "set_row [0..<unat n] (unat n) s1 (trigger1 t ! unat st) = Inr r1"
      using set_row_spec [of "unat n" "trigger0 t ! unat st" 0 s0]
        set_row_spec [of "unat n" "trigger1 t ! unat st" 0 s1] by auto
    then show ?thesis
      using assms TrigStageValue Some by (simp add: trigger_defs Let_def)
  qed (use assms TrigStageValue in \<open>simp add: trigger_defs\<close>)
qed (use assms in \<open>auto simp: trigger_defs split: option.splits\<close>)

interpretation trig: safe_op_system trigger_step trigger_inv trigger_pre
proof (unfold_locales, goal_cases)
  case (1 s c r s')
  then show ?case by (rule trigger_step_inv)
next
  case (2 s c)
  then show ?case by (rule trigger_step_safe)
next
  case (3 s c r s' d)
  then show ?case by (cases d) auto
qed

section \<open>Properties\<close>

text \<open>
  The character that a probe's mask, value and edge bits stand for: the hardware's reading
  of the three words.
\<close>

fun decode_probe :: "bool \<Rightarrow> bool \<Rightarrow> bool \<Rightarrow> char" where
  "decode_probe True v False = CHR ''X''"
| "decode_probe True v True = CHR ''C''"
| "decode_probe False True False = CHR ''1''"
| "decode_probe False True True = CHR ''R''"
| "decode_probe False False True = CHR ''F''"
| "decode_probe False False False = CHR ''0''"

definition trigger_chars :: string where
  "trigger_chars = ''X01RFC''"

lemma decode_probe_chars:
  "c \<in> set trigger_chars \<Longrightarrow> decode_probe (mask_char c) (value_char c) (edge_char c) = c"
  by (auto simp: trigger_chars_def mask_char_def value_char_def edge_char_def)

lemmas trigger_words = ds_trigger_get_mask0_def ds_trigger_get_mask1_def ds_trigger_get_value0_def
  ds_trigger_get_value1_def ds_trigger_get_edge0_def ds_trigger_get_edge1_def

lemma stage_set_value_rows:
  assumes "ds_trigger_stage_set_value st n s0 s1 (Some t) = Inr (r, tr')" "trigger_inv (Some t)"
    "2 * unat n \<le> Suc (length s0)" "2 * unat n \<le> Suc (length s1)"
  obtains t' where "r = SR_OK" "tr' = Some t'" "unat st < TriggerStages"
    "\<forall>k < unat n. trigger0 t' ! unat st ! k = s0 ! (2 * (unat n - 1 - k))"
    "\<forall>k < unat n. trigger1 t' ! unat st ! k = s1 ! (2 * (unat n - 1 - k))"
proof -
  have b: "unat st < 16" "unat n \<le> 32" using assms(1)
    by (auto simp: ds_trigger_stage_set_value_def split: if_splits)
  have l: "length (trigger0 t) = 17" "length (trigger1 t) = 17"
    "length (trigger0 t ! unat st) = 32" "length (trigger1 t ! unat st) = 32"
    using assms(2) b by (auto simp: trigger_inv_def trigger_ok_def grid_ok_def)
  obtain r0 where r0: "set_row [0..<unat n] (unat n) s0 (trigger0 t ! unat st) = Inr r0"
    "\<forall>i < 32. r0 ! i = (if i < unat n then s0 ! (2 * (unat n - 1 - i)) else trigger0 t ! unat st ! i)"
    using set_row_spec [of "unat n" "trigger0 t ! unat st" 0 s0] l b assms(3) by auto
  obtain r1 where r1: "set_row [0..<unat n] (unat n) s1 (trigger1 t ! unat st) = Inr r1"
    "\<forall>i < 32. r1 ! i = (if i < unat n then s1 ! (2 * (unat n - 1 - i)) else trigger1 t ! unat st ! i)"
    using set_row_spec [of "unat n" "trigger1 t ! unat st" 0 s1] l b assms(4) by auto
  show ?thesis
    by (rule that) (use assms(1) r0 r1 l b in \<open>auto simp: ds_trigger_stage_set_value_def Let_def\<close>)
qed

text \<open>C29: Trigger round trip. After a stage is set from a probe string, the mask, value and
  edge words of both comparators, read together, decode to the characters of the string: bit
  \<open>k\<close> is character \<open>2 (n - 1 - k)\<close>.\<close>

theorem trigger_stage_roundtrip:
  assumes "ds_trigger_stage_set_value st n s0 s1 (Some t) = Inr (r, tr')" "trigger_inv (Some t)"
    and "2 * unat n \<le> Suc (length s0)" "2 * unat n \<le> Suc (length s1)"
    and "ds_trigger_get_mask0 st (n - 1) 0 False False tr' = Inr m0"
    and "ds_trigger_get_value0 st (n - 1) 0 False False tr' = Inr v0"
    and "ds_trigger_get_edge0 st (n - 1) 0 False False tr' = Inr e0"
    and "ds_trigger_get_mask1 st (n - 1) 0 False False tr' = Inr m1"
    and "ds_trigger_get_value1 st (n - 1) 0 False False tr' = Inr v1"
    and "ds_trigger_get_edge1 st (n - 1) 0 False False tr' = Inr e1"
    and "k < unat n" "k < 16"
    and "s0 ! (2 * (unat n - 1 - k)) \<in> set trigger_chars"
    and "s1 ! (2 * (unat n - 1 - k)) \<in> set trigger_chars"
  shows "r = SR_OK
    \<and> decode_probe (bit m0 k) (bit v0 k) (bit e0 k) = s0 ! (2 * (unat n - 1 - k))
    \<and> decode_probe (bit m1 k) (bit v1 k) (bit e1 k) = s1 ! (2 * (unat n - 1 - k))"
proof -
  obtain t' where t': "r = SR_OK" "tr' = Some t'"
    "trigger0 t' ! unat st ! k = s0 ! (2 * (unat n - 1 - k))"
    "trigger1 t' ! unat st ! k = s1 ! (2 * (unat n - 1 - k))"
    using stage_set_value_rows [OF assms(1-4)] assms(11) by metis
  have "n \<noteq> 0" using assms(11) by auto
  then have "unat (n - 1) = unat n - 1" by (simp add: unat_minus_one)
  then have range: "probe_in_range (n - 1) 0 k" using assms(11) by (simp add: probe_in_range_def)
  note bits = get_word_bit [where qutr = False and half = False, OF _ assms(12), unfolded Let_def if_False]
  from assms(5-10) range t' show ?thesis
    using decode_probe_chars [OF assms(13)] decode_probe_chars [OF assms(14)]
    by (simp add: trigger_words bits)
qed


text \<open>In quarter mode a hardware word repeats its low 4 bits four times, in half mode
  its low 8 bits twice, whatever the mask, value or edge it holds.\<close>

theorem trigger_word_period:
  assumes "ds_trigger_get_mask0 st msc lsc q h (Some t) = Inr m"
    and "ds_trigger_get_value1 st msc lsc q h (Some t) = Inr v"
    and "q \<or> h" "k + (if q then 4 else 8) < 16"
  shows "bit m (k + (if q then 4 else 8)) = bit m k \<and> bit v (k + (if q then 4 else 8)) = bit v k"
  using assms get_word_bit [where k = k and qutr = q and half = h]
    get_word_bit [where k = "k + (if q then 4 else 8)" and qutr = q and half = h]
  by (cases q) (simp_all add: trigger_words Let_def)

section \<open>Witnesses\<close>

definition demo_trigger :: "ds_trigger option" where
  "demo_trigger = (case ds_trigger_stage_set_value 1 2 ''R 0'' ''C X''
     (snd (ds_trigger_init True None)) of Inr (r, tr) \<Rightarrow> tr | Inl f \<Rightarrow> None)"

lemma trigger_stage_roundtrip_witness:
  "decode_probe (bit (0 :: u16) 1) (bit (2 :: u16) 1) (bit (2 :: u16) 1) = ''R 0'' ! 0
   \<and> decode_probe (bit (3 :: u16) 1) (bit (0 :: u16) 1) (bit (2 :: u16) 1) = ''C X'' ! 0"
proof -
  have "ds_trigger_stage_set_value 1 2 ''R 0'' ''C X'' (Some (reset_trigger zero_trigger))
      = Inr (SR_OK, demo_trigger)"
    by code_simp
  moreover have "trigger_inv (Some (reset_trigger zero_trigger))" by code_simp
  moreover have "ds_trigger_get_mask0 1 (2 - 1) 0 False False demo_trigger = Inr 0"
    "ds_trigger_get_value0 1 (2 - 1) 0 False False demo_trigger = Inr 2"
    "ds_trigger_get_edge0 1 (2 - 1) 0 False False demo_trigger = Inr 2"
    "ds_trigger_get_mask1 1 (2 - 1) 0 False False demo_trigger = Inr 3"
    "ds_trigger_get_value1 1 (2 - 1) 0 False False demo_trigger = Inr 0"
    "ds_trigger_get_edge1 1 (2 - 1) 0 False False demo_trigger = Inr 2"
    by code_simp+
  ultimately show ?thesis
    using trigger_stage_roundtrip [of 1 2 "''R 0''" "''C X''" "reset_trigger zero_trigger" SR_OK
        demo_trigger 0 2 2 3 0 2 1]
    by (simp add: trigger_chars_def)
qed


lemma trigger_word_period_witness:
  "ds_trigger_get_mask0 2 0 0 True False demo_trigger = Inr 0x1111
   \<and> bit (0x1111 :: u16) (0 + (if True then 4 else 8)) = bit (0x1111 :: u16) 0
   \<and> bit (0 :: u16) (0 + (if True then 4 else 8)) = bit (0 :: u16) 0"
proof (intro conjI)
  have "demo_trigger \<noteq> None" by code_simp
  then obtain t where eq: "demo_trigger = Some t" by blast
  show m: "ds_trigger_get_mask0 2 0 0 True False demo_trigger = Inr 0x1111" by code_simp
  have v: "ds_trigger_get_value1 2 0 0 True False demo_trigger = Inr 0" by code_simp
  note * = trigger_word_period [OF m [unfolded eq] v [unfolded eq], of 0]
  show "bit (0x1111 :: u16) (0 + (if True then 4 else 8)) = bit (0x1111 :: u16) 0"
    by (rule * [THEN conjunct1]) simp_all
  show "bit (0 :: u16) (0 + (if True then 4 else 8)) = bit (0 :: u16) 0"
    by (rule * [THEN conjunct2]) simp_all
qed

end
