(* ===== verification/Srd_Match.thy ===== *)
theory Srd_Match
  imports PX_Prelude
begin

text \<open>
  The condition matching engine of \<open>libsigrokdecode/instance.c\<close>: the part of a decoder
  instance that \<open>wait()\<close> works on, the evaluation of one term, of a condition (terms
  joined by AND) and of a condition list (conditions joined by OR), and the scan of a chunk
  of samples for the first match. The sample buffers are lists of bytes, one per channel; a
  channel without a buffer is constant over the chunk. Reads outside a buffer are faults.
\<close>

section \<open>Data\<close>

text \<open>\<open>enum srd_term_type\<close>; the field is an \<open>int\<close>, so other values exist.\<close>

datatype srd_term_type =
    SRD_TERM_HIGH
  | SRD_TERM_LOW
  | SRD_TERM_RISING_EDGE
  | SRD_TERM_FALLING_EDGE
  | SRD_TERM_EITHER_EDGE
  | SRD_TERM_NO_EDGE
  | SRD_TERM_SKIP
  | SRD_TERM_UNKNOWN int

record srd_term =
  term_type :: srd_term_type
  channel :: int
  num_samples_to_skip :: u64
  num_samples_already_skipped :: u64

text \<open>
  The fields of \<open>struct srd_decoder_inst\<close> that matching reads and writes. A NULL
  pointer is None; a NULL condition in the list is the empty list, as GSList has it.
\<close>

record match_state =
  dec_num_channels :: nat
  condition_list :: "srd_term list list"
  match_array :: u64
  abs_start_samplenum :: u64
  abs_end_samplenum :: u64
  inbuf :: "u8 list option list option"
  inbuf_const :: "u8 list option"
  inbuflen :: u64
  abs_cur_samplenum :: u64
  abs_cur_matched :: bool
  old_pins_array :: "u8 list option"
  first_pos :: bool
  skip_zero :: bool
  dec_channelmap :: "int list option"

abbreviation SRD_INITIAL_PIN_SAME_AS_SAMPLE0 :: u8 where
  "SRD_INITIAL_PIN_SAME_AS_SAMPLE0 \<equiv> 2"

section \<open>Terms\<close>

text \<open>
  \<open>sample_matches\<close> returns whether the term matches and the term, whose skip counter it
  may have advanced.
\<close>

definition sample_matches :: "u8 \<Rightarrow> u8 \<Rightarrow> srd_term \<Rightarrow> bool \<times> srd_term" where
  "sample_matches old_sample sample trm =
     (case term_type trm of
        SRD_TERM_HIGH \<Rightarrow> (sample = 1, trm)
      | SRD_TERM_LOW \<Rightarrow> (sample = 0, trm)
      | SRD_TERM_RISING_EDGE \<Rightarrow> (old_sample = 0 \<and> sample = 1, trm)
      | SRD_TERM_FALLING_EDGE \<Rightarrow> (old_sample = 1 \<and> sample = 0, trm)
      | SRD_TERM_EITHER_EDGE \<Rightarrow>
          ((old_sample = 1 \<and> sample = 0) \<or> (old_sample = 0 \<and> sample = 1), trm)
      | SRD_TERM_NO_EDGE \<Rightarrow>
          ((old_sample = 0 \<and> sample = 0) \<or> (old_sample = 1 \<and> sample = 1), trm)
      | SRD_TERM_SKIP \<Rightarrow>
          if num_samples_already_skipped trm = num_samples_to_skip trm then (True, trm)
          else (False, trm\<lparr>num_samples_already_skipped := num_samples_already_skipped trm + 1\<rparr>)
      | SRD_TERM_UNKNOWN t \<Rightarrow> (False, trm))"

text \<open>An array indexed with a C \<open>int\<close>.\<close>

definition rd_int :: "'a list \<Rightarrow> int \<Rightarrow> fault + 'a" where
  "rd_int xs i = (if i < 0 then Inl OutOfBounds else rd xs (nat i))"

text \<open>
  The sample of channel \<open>ch\<close> at the current position, and whether it is constant over
  the chunk: the block that \<open>term_matches\<close> and the two updates of the old pins share.
\<close>

definition const_sample :: "'a match_state_scheme \<Rightarrow> int \<Rightarrow> fault + u8" where
  "const_sample di ch =
     (case inbuf_const di of
        None \<Rightarrow> Inr 0
      | Some cs \<Rightarrow> ebind (rd_int cs ch) (\<lambda>c. Inr (if c \<noteq> 0 then 1 else 0)))"

definition buffer_sample :: "'a match_state_scheme \<Rightarrow> u8 list \<Rightarrow> fault + u8" where
  "buffer_sample di buf =
     (let off = abs_cur_samplenum di - abs_start_samplenum di in
      ebind (rd buf (unat (off div 8))) (\<lambda>byte.
      Inr (if bit byte (unat (off mod 8)) then 1 else 0)))"

definition current_sample :: "'a match_state_scheme \<Rightarrow> int \<Rightarrow> fault + u8 \<times> bool" where
  "current_sample di ch =
     (case inbuf di of
        None \<Rightarrow> ebind (const_sample di ch) (\<lambda>s. Inr (s, True))
      | Some bufs \<Rightarrow> ebind (rd_int bufs ch) (\<lambda>b.
          case b of
            None \<Rightarrow> ebind (const_sample di ch) (\<lambda>s. Inr (s, True))
          | Some buf \<Rightarrow> ebind (buffer_sample di buf) (\<lambda>s. Inr (s, False))))"

text \<open>
  \<open>term_matches\<close> returns the verdict, \<open>*skip_allow\<close>, the term and the instance.
  Reading the old pins of an instance that has none is a null dereference.
\<close>

definition term_matches :: "'a match_state_scheme \<Rightarrow> srd_term \<Rightarrow>
    fault + bool \<times> bool \<times> srd_term \<times> 'a match_state_scheme" where
  "term_matches di trm =
     (if term_type trm = SRD_TERM_SKIP then
        (let di' = (if abs_cur_matched di \<and> num_samples_to_skip trm = 0
                    then di\<lparr>skip_zero := True\<rparr> else di);
             (m, trm') = sample_matches 0 0 trm in
         Inr (m, False, trm', di'))
      else
        ebind (current_sample di (channel trm)) (\<lambda>(sample, skip_allow).
        case old_pins_array di of
          None \<Rightarrow> Inl NullDeref
        | Some pins \<Rightarrow>
            ebind (rd_int pins (channel trm)) (\<lambda>old_sample.
            let (m, trm') = sample_matches old_sample sample trm in
            Inr (m, skip_allow, trm', di))))"

section \<open>Conditions\<close>

text \<open>
  \<open>all_terms_match\<close>: the terms in order up to the first that fails; \<open>skip_allow\<close> is
  what the last term looked at left in it. When all match and a zero skip was seen, the
  position steps back by one.
\<close>

fun all_terms_match :: "'a match_state_scheme \<Rightarrow> srd_term list \<Rightarrow> bool \<Rightarrow>
    fault + bool \<times> bool \<times> srd_term list \<times> 'a match_state_scheme" where
  "all_terms_match di [] skip_allow =
     Inr (True, skip_allow, [],
       if skip_zero di
       then di\<lparr>abs_cur_samplenum := abs_cur_samplenum di - 1, skip_zero := False\<rparr> else di)"
| "all_terms_match di (t # ts) skip_allow =
     ebind (term_matches di t) (\<lambda>(m, skip_allow', t', di').
     if \<not> m then Inr (False, skip_allow', t' # ts, di')
     else ebind (all_terms_match di' ts skip_allow') (\<lambda>(m', skip_allow'', ts', di'').
       Inr (m', skip_allow'', t' # ts', di'')))"

text \<open>
  The bit of condition \<open>j\<close>, \<open>1 << j\<close> on an \<open>int\<close>: shifting into or past the sign
  bit is undefined.
\<close>

definition match_bit :: "nat \<Rightarrow> fault + u64" where
  "match_bit j = (if j < 31 then Inr (push_bit j 1) else Inl BadShift)"

text \<open>The loop over the condition list at one position, \<open>skip\<close> being \<open>all_skip_allow\<close>.\<close>

fun check_conds :: "'a match_state_scheme \<Rightarrow> srd_term list list \<Rightarrow> nat \<Rightarrow> bool \<Rightarrow>
    fault + srd_term list list \<times> bool \<times> 'a match_state_scheme" where
  "check_conds di [] j skip = Inr ([], skip, di)"
| "check_conds di (c # cs) j skip =
     (if c = [] then
        ebind (check_conds di cs (Suc j) skip) (\<lambda>(cs', skip', di'). Inr (c # cs', skip', di'))
      else
        ebind (all_terms_match di c False) (\<lambda>(m, skip_allow, c', di1).
        ebind (if m then ebind (match_bit j) (\<lambda>b.
                 Inr (False, di1\<lparr>match_array := match_array di1 OR b\<rparr>))
               else Inr (skip \<and> skip_allow, di1)) (\<lambda>(skip1, di2).
        ebind (check_conds di2 cs (Suc j) skip1) (\<lambda>(cs', skip', di3).
        Inr (c' # cs', skip', di3)))))"

definition have_non_null_conds :: "'a match_state_scheme \<Rightarrow> bool" where
  "have_non_null_conds di \<longleftrightarrow> (\<exists>c \<in> set (condition_list di). c \<noteq> [])"

definition condition_list_free :: "'a match_state_scheme \<Rightarrow> 'a match_state_scheme" where
  "condition_list_free di = di\<lparr>condition_list := []\<rparr>"

section \<open>Old pins\<close>

definition oldpins_array_seed :: "'a match_state_scheme \<Rightarrow> 'a match_state_scheme" where
  "oldpins_array_seed di =
     (if old_pins_array di = None
      then di\<lparr>old_pins_array :=
                Some (replicate (dec_num_channels di) SRD_INITIAL_PIN_SAME_AS_SAMPLE0)\<rparr>
      else di)"

definition oldpins_array_free :: "'a match_state_scheme \<Rightarrow> 'a match_state_scheme" where
  "oldpins_array_free di = di\<lparr>old_pins_array := None\<rparr>"

text \<open>
  The loop over the channels of both updates; \<open>keep\<close> says which old value stays
  (\<open>continue\<close>).
\<close>

fun refresh_pins :: "(u8 \<Rightarrow> bool) \<Rightarrow> 'a match_state_scheme \<Rightarrow> nat list \<Rightarrow> u8 list \<Rightarrow>
    fault + u8 list" where
  "refresh_pins keep di [] pins = Inr pins"
| "refresh_pins keep di (i # is) pins =
     ebind (rd pins i) (\<lambda>old.
     if keep old then refresh_pins keep di is pins
     else ebind (current_sample di (int i)) (\<lambda>(sample, c).
          ebind (wr pins i sample) (\<lambda>pins'.
          refresh_pins keep di is pins')))"

definition refresh_old_pins :: "(u8 \<Rightarrow> bool) \<Rightarrow> 'a match_state_scheme \<Rightarrow>
    fault + 'a match_state_scheme" where
  "refresh_old_pins keep di =
     (if dec_channelmap di = None then Inr di
      else let di' = oldpins_array_seed di in
        ebind (refresh_pins keep di' [0..<dec_num_channels di'] (the (old_pins_array di'))) (\<lambda>pins.
        Inr (di'\<lparr>old_pins_array := Some pins\<rparr>)))"

definition update_old_pins_array :: "'a match_state_scheme \<Rightarrow> fault + 'a match_state_scheme" where
  "update_old_pins_array = refresh_old_pins (\<lambda>old. False)"

definition update_old_pins_array_initial_pins ::
  "'a match_state_scheme \<Rightarrow> fault + 'a match_state_scheme" where
  "update_old_pins_array_initial_pins =
     refresh_old_pins (\<lambda>old. old \<noteq> SRD_INITIAL_PIN_SAME_AS_SAMPLE0)"

section \<open>Frame lemmas\<close>

lemma term_matches_frame [frame]:
  assumes "term_matches di t = Inr (m, sa, t', di')"
  shows "abs_cur_samplenum di' = abs_cur_samplenum di"
    "abs_end_samplenum di' = abs_end_samplenum di" "match_array di' = match_array di"
  using assms
  by (auto simp: term_matches_def Let_def ebind_eq_Inr case_prod_beta split: if_splits option.splits)

lemma all_terms_match_frame [frame]:
  assumes "all_terms_match di c sa = Inr (m, sa', c', di')"
  shows "abs_end_samplenum di' = abs_end_samplenum di \<and> match_array di' = match_array di
    \<and> (\<not> m \<longrightarrow> abs_cur_samplenum di' = abs_cur_samplenum di)"
  using assms
proof (induction c arbitrary: di sa m sa' c' di')
  case Nil
  then show ?case by (auto split: if_splits)
next
  case (Cons t ts)
  then obtain m1 sa1 t1 di1 where t: "term_matches di t = Inr (m1, sa1, t1, di1)"
    by (auto simp: ebind_eq_Inr)
  show ?case
  proof (cases m1)
    case True
    with Cons.prems t obtain ts' where "all_terms_match di1 ts sa1 = Inr (m, sa', ts', di')"
      by (auto simp: ebind_eq_Inr)
    from Cons.IH [OF this] term_matches_frame [OF t] show ?thesis by simp
  next
    case False
    with Cons.prems t term_matches_frame [OF t] show ?thesis by simp
  qed
qed

lemma match_bit_nonzero: "match_bit j = Inr b \<Longrightarrow> x OR b \<noteq> (0 :: u64)"
proof -
  assume "match_bit j = Inr b"
  then have "b = push_bit j 1" "j < 31" by (auto simp: match_bit_def split: if_splits)
  then have "bit (x OR b) j" by (simp add: bit_or_iff bit_exp_iff)
  then show ?thesis by auto
qed

lemma check_conds_frame [frame]:
  assumes "check_conds di cs j skip = Inr (cs', skip', di')"
  shows "abs_end_samplenum di' = abs_end_samplenum di
    \<and> (match_array di' = 0 \<longrightarrow> match_array di = 0 \<and> abs_cur_samplenum di' = abs_cur_samplenum di)"
  using assms
proof (induction cs arbitrary: di j skip cs' skip' di')
  case Nil
  then show ?case by simp
next
  case (Cons c cs)
  show ?case
  proof (cases "c = []")
    case True
    then show ?thesis using Cons by (auto simp: ebind_eq_Inr)
  next
    case False
    then obtain m sa c1 di1 skip1 di2 cs1 where
      c: "all_terms_match di c False = Inr (m, sa, c1, di1)"
      "(if m then ebind (match_bit j) (\<lambda>b. Inr (False, di1\<lparr>match_array := match_array di1 OR b\<rparr>))
        else Inr (skip \<and> sa, di1)) = Inr (skip1, di2)"
      "check_conds di2 cs (Suc j) skip1 = Inr (cs1, skip', di')"
      using Cons.prems by (auto simp: ebind_eq_Inr)
    have "match_array di2 \<noteq> 0" "abs_end_samplenum di2 = abs_end_samplenum di1" if m
      using c(2) that by (auto simp: ebind_eq_Inr match_bit_nonzero)
    then show ?thesis
      using Cons.IH [OF c(3)] c(2) all_terms_match_frame [OF c(1)] by (cases m) auto
  qed
qed

lemma refresh_old_pins_frame [frame]:
  assumes "refresh_old_pins keep di = Inr di'"
  shows "abs_cur_samplenum di' = abs_cur_samplenum di
    \<and> abs_end_samplenum di' = abs_end_samplenum di \<and> match_array di' = match_array di"
  using assms
  by (auto simp: refresh_old_pins_def oldpins_array_seed_def Let_def ebind_eq_Inr split: if_splits)

lemma scan_step_frame:
  assumes "check_conds di cs0 0 s = Inr (cs, skip, di1)"
    "update_old_pins_array (di1\<lparr>condition_list := cs\<rparr>) = Inr di2" "match_array di2 = 0"
  shows "abs_cur_samplenum di2 = abs_cur_samplenum di"
    "abs_end_samplenum di2 = abs_end_samplenum di"
  using check_conds_frame [OF assms(1)] assms(3)
    refresh_old_pins_frame [OF assms(2) [unfolded update_old_pins_array_def]] by auto

section \<open>The scan\<close>

text \<open>
  The \<open>while\<close> loop of \<open>find_match\<close>. \<open>all_skip_allow\<close> lives across the iterations.
\<close>

function scan :: "bool \<Rightarrow> 'a match_state_scheme \<Rightarrow> fault + bool \<times> 'a match_state_scheme" where
  "scan all_skip_allow di =
     (if abs_cur_samplenum di < abs_end_samplenum di then
        ebind (check_conds di (condition_list di) 0 all_skip_allow) (\<lambda>(cs, skip, di1).
        ebind (update_old_pins_array (di1\<lparr>condition_list := cs\<rparr>)) (\<lambda>di2.
        let di3 = di2\<lparr>abs_cur_matched := (match_array di2 \<noteq> 0)\<rparr> in
        if abs_cur_matched di3 then Inr (True, di3)
        else if skip then scan skip (di3\<lparr>abs_cur_samplenum := abs_end_samplenum di3\<rparr>)
        else scan skip (di3\<lparr>abs_cur_samplenum := abs_cur_samplenum di3 + 1\<rparr>)))
      else Inr (False, di))"
  by pat_completeness auto
termination
proof (relation "measure (\<lambda>(skip, di). unat (abs_end_samplenum di) - unat (abs_cur_samplenum di))",
    goal_cases)
  case 1
  then show ?case by simp
next
  case (2 skip0 di x cs y skip di1 di2 di3)
  then have "check_conds di (condition_list di) 0 skip0 = Inr (cs, skip, di1)" "match_array di2 = 0"
    by auto
  from scan_step_frame [OF this(1) 2(5) this(2)] 2(1,6) show ?case
    by (simp add: word_less_nat_alt)
next
  case (3 skip0 di x cs y skip di1 di2 di3)
  then have "check_conds di (condition_list di) 0 skip0 = Inr (cs, skip, di1)" "match_array di2 = 0"
    by auto
  from scan_step_frame [OF this(1) 3(5) this(2)] 3(1,6) show ?case
    by (simp add: word_less_nat_alt unat_Suc_less)
qed

declare scan.simps [simp del]

text \<open>The counters of skip terms restart at one after a match.\<close>

definition restart_skip :: "srd_term \<Rightarrow> srd_term" where
  "restart_skip t =
     (if term_type t = SRD_TERM_SKIP \<and> 0 < num_samples_to_skip t
      then t\<lparr>num_samples_already_skipped := 1\<rparr> else t)"

definition find_match :: "'a match_state_scheme \<Rightarrow> fault + bool \<times> 'a match_state_scheme" where
  "find_match di =
     (if condition_list di = [] then Inr (True, di)
      else if \<not> have_non_null_conds di then Inr (True, di)
      else let di1 = di\<lparr>match_array := 0\<rparr> in
        ebind (if first_pos di1 then update_old_pins_array_initial_pins (di1\<lparr>first_pos := False\<rparr>)
               else Inr di1) (\<lambda>di2.
        let di3 = (if abs_cur_matched di2
                   then di2\<lparr>abs_cur_samplenum := abs_cur_samplenum di2 + 1,
                            condition_list := map (map restart_skip) (condition_list di2)\<rparr>
                   else di2) in
        scan True di3))"

lemma scan_no_match_end:
  "scan skip di = Inr (False, di') \<Longrightarrow> \<not> abs_cur_samplenum di' < abs_end_samplenum di'"
proof (induction skip di rule: scan.induct)
  case (1 skip0 di)
  show ?case
  proof (cases "abs_cur_samplenum di < abs_end_samplenum di")
    case False
    then show ?thesis using "1.prems" by (simp add: scan.simps [of _ di])
  next
    case True
    then obtain cs skip di1 di2 where step:
      "check_conds di (condition_list di) 0 skip0 = Inr (cs, skip, di1)"
      "update_old_pins_array (di1\<lparr>condition_list := cs\<rparr>) = Inr di2" "match_array di2 = 0"
      using "1.prems" by (auto simp: scan.simps [of _ di] ebind_eq_Inr Let_def split: if_splits)
    let ?di3 = "di2\<lparr>abs_cur_matched := match_array di2 \<noteq> 0\<rparr>"
    have "scan skip (if skip then ?di3\<lparr>abs_cur_samplenum := abs_end_samplenum ?di3\<rparr>
        else ?di3\<lparr>abs_cur_samplenum := abs_cur_samplenum ?di3 + 1\<rparr>) = Inr (False, di')"
      using "1.prems" True step by (cases skip) (simp_all add: scan.simps [of _ di] Let_def)
    then show ?thesis
      using "1.IH" [OF True step(1) refl refl step(2) refl] step(3) by (cases skip) simp_all
  qed
qed

lemma find_match_no_match_end:
  "find_match di = Inr (False, di') \<Longrightarrow> \<not> abs_cur_samplenum di' < abs_end_samplenum di'"
  by (auto simp: find_match_def ebind_eq_Inr Let_def split: if_splits dest: scan_no_match_end)

text \<open>
  The \<open>while (TRUE)\<close> of \<open>process_samples_until_condition_match\<close>; its
  \<open>continue\<close> is never taken, since \<open>find_match\<close> gives up at the end of the chunk only.
\<close>

function process_loop :: "'a match_state_scheme \<Rightarrow> fault + bool \<times> 'a match_state_scheme" where
  "process_loop di =
     ebind (find_match di) (\<lambda>(found, di').
     if abs_end_samplenum di' \<le> abs_cur_samplenum di' then Inr (found, di')
     else if \<not> found then process_loop di'
     else Inr (found, di'))"
  by pat_completeness auto
termination
  by (relation "{}") (auto dest: find_match_no_match_end)

declare process_loop.simps [simp del]


section \<open>Matching leaves the rest of an instance alone\<close>

text \<open>
  The chunk, the channels, and \<open>more\<close>: what a decoder instance adds to
  \<open>match_state\<close>.
\<close>

definition fixed_part :: "'a match_state_scheme \<Rightarrow> nat \<times> u64 \<times> u64 \<times> u8 list option list option
    \<times> u8 list option \<times> u64 \<times> int list option \<times> 'a" where
  "fixed_part di = (dec_num_channels di, abs_start_samplenum di, abs_end_samplenum di, inbuf di,
     inbuf_const di, inbuflen di, dec_channelmap di, match_state.more di)"

lemma fixed_part_update [simp]:
  "fixed_part (di\<lparr>match_array := m\<rparr>) = fixed_part di"
  "fixed_part (di\<lparr>abs_cur_samplenum := n\<rparr>) = fixed_part di"
  "fixed_part (di\<lparr>abs_cur_matched := b\<rparr>) = fixed_part di"
  "fixed_part (di\<lparr>first_pos := b\<rparr>) = fixed_part di"
  "fixed_part (di\<lparr>skip_zero := b\<rparr>) = fixed_part di"
  "fixed_part (di\<lparr>old_pins_array := p\<rparr>) = fixed_part di"
  "fixed_part (di\<lparr>condition_list := cs\<rparr>) = fixed_part di"
  by (simp_all add: fixed_part_def)

lemma term_matches_fixed:
  "term_matches di t = Inr (m, sa, t', di') \<Longrightarrow> fixed_part di' = fixed_part di"
  by (auto simp: term_matches_def Let_def ebind_eq_Inr case_prod_beta split: if_splits option.splits)

lemma all_terms_match_fixed:
  "all_terms_match di c sa = Inr (m, sa', c', di') \<Longrightarrow> fixed_part di' = fixed_part di"
proof (induction c arbitrary: di sa m sa' c' di')
  case Nil
  then show ?case by (auto split: if_splits)
next
  case (Cons t ts)
  then obtain m1 sa1 t1 di1 where t: "term_matches di t = Inr (m1, sa1, t1, di1)"
    by (auto simp: ebind_eq_Inr)
  show ?case
  proof (cases m1)
    case True
    with Cons.prems t obtain ts' where "all_terms_match di1 ts sa1 = Inr (m, sa', ts', di')"
      by (auto simp: ebind_eq_Inr)
    from Cons.IH [OF this] term_matches_fixed [OF t] show ?thesis by simp
  next
    case False
    with Cons.prems t term_matches_fixed [OF t] show ?thesis by simp
  qed
qed

lemma check_conds_fixed:
  "check_conds di cs j skip = Inr (cs', skip', di') \<Longrightarrow> fixed_part di' = fixed_part di"
proof (induction cs arbitrary: di j skip cs' skip' di')
  case Nil
  then show ?case by simp
next
  case (Cons c cs)
  then show ?case
    by (fastforce simp: ebind_eq_Inr split: if_splits dest: all_terms_match_fixed)
qed

lemma refresh_old_pins_fixed:
  "refresh_old_pins keep di = Inr di' \<Longrightarrow> fixed_part di' = fixed_part di"
  by (auto simp: refresh_old_pins_def oldpins_array_seed_def Let_def ebind_eq_Inr split: if_splits)

lemma scan_fixed: "scan skip di = Inr (found, di') \<Longrightarrow> fixed_part di' = fixed_part di"
proof (induction skip di rule: scan.induct)
  case (1 skip0 di)
  show ?case
  proof (cases "abs_cur_samplenum di < abs_end_samplenum di")
    case False
    then show ?thesis using "1.prems" by (simp add: scan.simps [of _ di])
  next
    case True
    then obtain cs skip di1 di2 where step:
      "check_conds di (condition_list di) 0 skip0 = Inr (cs, skip, di1)"
      "update_old_pins_array (di1\<lparr>condition_list := cs\<rparr>) = Inr di2"
      using "1.prems" by (auto simp: scan.simps [of _ di] ebind_eq_Inr Let_def split: if_splits)
    have more: "fixed_part di2 = fixed_part di"
      using check_conds_fixed [OF step(1)] refresh_old_pins_fixed [OF step(2) [unfolded update_old_pins_array_def]]
      by simp
    let ?di3 = "di2\<lparr>abs_cur_matched := match_array di2 \<noteq> 0\<rparr>"
    show ?thesis
    proof (cases "match_array di2 = 0")
      case zero: True
      have "scan skip (if skip then ?di3\<lparr>abs_cur_samplenum := abs_end_samplenum ?di3\<rparr>
          else ?di3\<lparr>abs_cur_samplenum := abs_cur_samplenum ?di3 + 1\<rparr>) = Inr (found, di')"
        using "1.prems" True step zero by (cases skip) (simp_all add: scan.simps [of _ di] Let_def)
      then show ?thesis
        using "1.IH" [OF True step(1) refl refl step(2) refl] zero more by (cases skip) simp_all
    next
      case False
      then show ?thesis using "1.prems" True step more by (auto simp: scan.simps [of _ di] Let_def)
    qed
  qed
qed

lemma find_match_fixed:
  assumes "find_match di = Inr (found, di')"
  shows "fixed_part di' = fixed_part di"
proof -
  have "fixed_part di2 = fixed_part di"
    if "(if first_pos di then update_old_pins_array_initial_pins (di\<lparr>match_array := 0, first_pos := False\<rparr>)
         else Inr (di\<lparr>match_array := 0\<rparr>)) = Inr di2" for di2
    using that refresh_old_pins_fixed
    by (fastforce simp: update_old_pins_array_initial_pins_def split: if_splits)
  with assms show ?thesis
    by (fastforce simp: find_match_def ebind_eq_Inr Let_def split: if_splits dest: scan_fixed)
qed

lemma process_loop_fixed:
  "process_loop di = Inr (found, di') \<Longrightarrow> fixed_part di' = fixed_part di"
proof (induction di rule: process_loop.induct)
  case (1 di)
  from "1.prems" show ?case
    by (subst (asm) process_loop.simps)
      (auto simp: ebind_eq_Inr split: if_splits dest: find_match_fixed find_match_no_match_end)
qed

end
