(* ===== verification/Srd_Match_Spec.thy ===== *)
theory Srd_Match_Spec
  imports Srd_Match
begin

text \<open>
  What \<open>find_match\<close> promises, stated over the signal and not over the buffers: the value
  of a channel at a sample number, when a condition holds at a sample, and the first sample
  at which some condition of the list holds. The scan is proved to find exactly that sample
  and to report exactly the conditions that hold there; its shortcut over chunks whose
  conditions hang on constant channels is proved to lose nothing.
\<close>

section \<open>The signal of a chunk\<close>

definition const_at :: "'a match_state_scheme \<Rightarrow> nat \<Rightarrow> u8" where
  "const_at di ch = (case inbuf_const di of None \<Rightarrow> 0 | Some cs \<Rightarrow> if cs ! ch \<noteq> 0 then 1 else 0)"

definition channel_buffer :: "'a match_state_scheme \<Rightarrow> nat \<Rightarrow> u8 list option" where
  "channel_buffer di ch = (case inbuf di of None \<Rightarrow> None | Some bufs \<Rightarrow> bufs ! ch)"

definition pin_at :: "'a match_state_scheme \<Rightarrow> nat \<Rightarrow> nat \<Rightarrow> u8" where
  "pin_at di ch n =
     (case channel_buffer di ch of
        None \<Rightarrow> const_at di ch
      | Some buf \<Rightarrow> let off = n - unat (abs_start_samplenum di) in
          if bit (buf ! (off div 8)) (off mod 8) then 1 else 0)"

definition chunk_ok :: "'a match_state_scheme \<Rightarrow> bool" where
  "chunk_ok di \<longleftrightarrow> dec_channelmap di \<noteq> None
     \<and> (case inbuf di of None \<Rightarrow> True | Some bufs \<Rightarrow> dec_num_channels di \<le> length bufs)
     \<and> (case inbuf_const di of None \<Rightarrow> True | Some cs \<Rightarrow> dec_num_channels di \<le> length cs)
     \<and> (\<forall>ch < dec_num_channels di. case channel_buffer di ch of None \<Rightarrow> True
          | Some buf \<Rightarrow> unat (abs_end_samplenum di) - unat (abs_start_samplenum di) \<le> 8 * length buf)"

definition term_ok :: "'a match_state_scheme \<Rightarrow> srd_term \<Rightarrow> bool" where
  "term_ok di t \<longleftrightarrow> term_type t \<noteq> SRD_TERM_SKIP \<and> 0 \<le> channel t \<and> nat (channel t) < dec_num_channels di
     \<and> (term_type t = SRD_TERM_NO_EDGE \<longrightarrow> channel_buffer di (nat (channel t)) \<noteq> None)"

definition conds_ok :: "'a match_state_scheme \<Rightarrow> bool" where
  "conds_ok di \<longleftrightarrow> length (condition_list di) \<le> 31
     \<and> (\<forall>c \<in> set (condition_list di). \<forall>t \<in> set c. term_ok di t)"

lemma signal_frame [simp]:
  "channel_buffer (di\<lparr>match_array := m\<rparr>) = channel_buffer di"
  "channel_buffer (di\<lparr>abs_cur_samplenum := n\<rparr>) = channel_buffer di"
  "channel_buffer (di\<lparr>abs_cur_matched := b\<rparr>) = channel_buffer di"
  "channel_buffer (di\<lparr>first_pos := b\<rparr>) = channel_buffer di"
  "channel_buffer (di\<lparr>old_pins_array := p\<rparr>) = channel_buffer di"
  "channel_buffer (di\<lparr>condition_list := cs\<rparr>) = channel_buffer di"
  "pin_at (di\<lparr>match_array := m\<rparr>) = pin_at di"
  "pin_at (di\<lparr>abs_cur_samplenum := n\<rparr>) = pin_at di"
  "pin_at (di\<lparr>abs_cur_matched := b\<rparr>) = pin_at di"
  "pin_at (di\<lparr>first_pos := b\<rparr>) = pin_at di"
  "pin_at (di\<lparr>old_pins_array := p\<rparr>) = pin_at di"
  "pin_at (di\<lparr>condition_list := cs\<rparr>) = pin_at di"
  "chunk_ok (di\<lparr>match_array := m\<rparr>) = chunk_ok di"
  "chunk_ok (di\<lparr>abs_cur_samplenum := n\<rparr>) = chunk_ok di"
  "chunk_ok (di\<lparr>abs_cur_matched := b\<rparr>) = chunk_ok di"
  "chunk_ok (di\<lparr>first_pos := b\<rparr>) = chunk_ok di"
  "chunk_ok (di\<lparr>old_pins_array := p\<rparr>) = chunk_ok di"
  "chunk_ok (di\<lparr>condition_list := cs\<rparr>) = chunk_ok di"
  "term_ok (di\<lparr>match_array := m\<rparr>) = term_ok di"
  "term_ok (di\<lparr>abs_cur_samplenum := n\<rparr>) = term_ok di"
  "term_ok (di\<lparr>abs_cur_matched := b\<rparr>) = term_ok di"
  "term_ok (di\<lparr>first_pos := b\<rparr>) = term_ok di"
  "term_ok (di\<lparr>old_pins_array := p\<rparr>) = term_ok di"
  "term_ok (di\<lparr>condition_list := cs\<rparr>) = term_ok di"
  by (simp_all add: fun_eq_iff channel_buffer_def pin_at_def const_at_def chunk_ok_def term_ok_def
      Let_def cong: option.case_cong)

section \<open>When a condition holds\<close>

definition term_holds :: "u8 \<Rightarrow> u8 \<Rightarrow> srd_term \<Rightarrow> bool" where
  "term_holds old_sample sample t = fst (sample_matches old_sample sample t)"

text \<open>
  The sample before \<open>n\<close>, for a scan that starts at \<open>c\<close> with the old pins \<open>pins\<close>.
\<close>

definition old_at :: "'a match_state_scheme \<Rightarrow> u8 list \<Rightarrow> nat \<Rightarrow> nat \<Rightarrow> nat \<Rightarrow> u8" where
  "old_at di pins c n ch = (if n = c then pins ! ch else pin_at di ch (n - 1))"

definition cond_at :: "'a match_state_scheme \<Rightarrow> u8 list \<Rightarrow> nat \<Rightarrow> nat \<Rightarrow> srd_term list \<Rightarrow> bool" where
  "cond_at di pins c n cond \<longleftrightarrow> cond \<noteq> [] \<and> (\<forall>t \<in> set cond. term_holds
     (old_at di pins c n (nat (channel t))) (pin_at di (nat (channel t)) n) t)"

definition hits :: "'a match_state_scheme \<Rightarrow> u8 list \<Rightarrow> nat \<Rightarrow> nat \<Rightarrow> nat set" where
  "hits di pins c n = {j. j < length (condition_list di) \<and> cond_at di pins c n (condition_list di ! j)}"

section \<open>One position\<close>

lemma sample_matches_plain:
  "term_type t \<noteq> SRD_TERM_SKIP \<Longrightarrow> sample_matches old s t = (term_holds old s t, t)"
  by (auto simp: term_holds_def sample_matches_def split: srd_term_type.splits)

lemma buffer_sample_spec:
  assumes "abs_start_samplenum di \<le> abs_cur_samplenum di" "abs_cur_samplenum di < abs_end_samplenum di"
    "unat (abs_end_samplenum di) - unat (abs_start_samplenum di) \<le> 8 * length buf"
  shows "buffer_sample di buf =
    (let off = unat (abs_cur_samplenum di) - unat (abs_start_samplenum di) in
     Inr (if bit (buf ! (off div 8)) (off mod 8) then 1 else 0))"
proof -
  have "unat (abs_cur_samplenum di - abs_start_samplenum di)
      = unat (abs_cur_samplenum di) - unat (abs_start_samplenum di)"
    using assms(1) by (simp add: unat_sub word_le_nat_alt)
  moreover have "(unat (abs_cur_samplenum di) - unat (abs_start_samplenum di)) div 8 < length buf"
    using assms by (auto simp: word_le_nat_alt word_less_nat_alt)
  ultimately show ?thesis
    by (simp add: buffer_sample_def Let_def unat_div unat_mod)
qed

lemma current_sample_spec:
  assumes "chunk_ok di" "abs_start_samplenum di \<le> abs_cur_samplenum di"
    "abs_cur_samplenum di < abs_end_samplenum di" "0 \<le> ch" "nat ch < dec_num_channels di"
  shows "current_sample di ch =
    Inr (pin_at di (nat ch) (unat (abs_cur_samplenum di)), channel_buffer di (nat ch) = None)"
proof -
  have c: "const_sample di ch = Inr (const_at di (nat ch))"
    using assms by (auto simp: const_sample_def const_at_def chunk_ok_def rd_int_def split: option.splits)
  show ?thesis
  proof (cases "inbuf di")
    case None
    then show ?thesis by (simp add: current_sample_def c pin_at_def channel_buffer_def)
  next
    case (Some bufs)
    then have l: "nat ch < length bufs" using assms by (simp add: chunk_ok_def)
    show ?thesis
    proof (cases "bufs ! nat ch")
      case None
      then show ?thesis using Some l assms(4)
        by (simp add: current_sample_def c pin_at_def channel_buffer_def rd_int_def)
    next
      case (Some buf)
      have "channel_buffer di (nat ch) = Some buf" using Some \<open>inbuf di = Some bufs\<close>
        by (simp add: channel_buffer_def)
      moreover from this have
        "unat (abs_end_samplenum di) - unat (abs_start_samplenum di) \<le> 8 * length buf"
        using assms(1,5) by (auto simp: chunk_ok_def)
      ultimately show ?thesis using Some \<open>inbuf di = Some bufs\<close> l assms(2-4)
        by (simp add: current_sample_def rd_int_def buffer_sample_spec pin_at_def Let_def)
    qed
  qed
qed

text \<open>The state at the head of the scan loop.\<close>

definition scan_ready :: "'a match_state_scheme \<Rightarrow> u8 list \<Rightarrow> bool" where
  "scan_ready di pins \<longleftrightarrow> chunk_ok di \<and> \<not> skip_zero di \<and> old_pins_array di = Some pins
     \<and> length pins = dec_num_channels di \<and> abs_start_samplenum di \<le> abs_cur_samplenum di"

lemma term_matches_spec:
  assumes "scan_ready di pins" "abs_cur_samplenum di < abs_end_samplenum di" "term_ok di t"
  shows "term_matches di t = Inr (term_holds (pins ! nat (channel t))
      (pin_at di (nat (channel t)) (unat (abs_cur_samplenum di))) t,
    channel_buffer di (nat (channel t)) = None, t, di)"
  using assms
  by (simp add: term_matches_def scan_ready_def term_ok_def current_sample_spec rd_int_def
      sample_matches_plain)

text \<open>A term that fails for good: its channel is constant over the chunk.\<close>

definition const_fail :: "'a match_state_scheme \<Rightarrow> u8 list \<Rightarrow> srd_term list \<Rightarrow> bool" where
  "const_fail di pins c \<longleftrightarrow> (\<exists>t \<in> set c. channel_buffer di (nat (channel t)) = None
     \<and> \<not> term_holds (pins ! nat (channel t)) (const_at di (nat (channel t))) t)"

definition holds_now :: "'a match_state_scheme \<Rightarrow> u8 list \<Rightarrow> srd_term \<Rightarrow> bool" where
  "holds_now di pins t \<longleftrightarrow> term_holds (pins ! nat (channel t))
     (pin_at di (nat (channel t)) (unat (abs_cur_samplenum di))) t"

lemma all_terms_match_spec:
  assumes "scan_ready di pins" "abs_cur_samplenum di < abs_end_samplenum di" "\<forall>t \<in> set c. term_ok di t"
  shows "\<exists>sa'. all_terms_match di c sa = Inr (\<forall>t \<in> set c. holds_now di pins t, sa', c, di)
    \<and> (sa' \<and> \<not> (\<forall>t \<in> set c. holds_now di pins t) \<longrightarrow> const_fail di pins c)"
  using assms
proof (induction c arbitrary: sa)
  case Nil
  then show ?case by (simp add: scan_ready_def)
next
  case (Cons t ts)
  let ?cst = "channel_buffer di (nat (channel t)) = None"
  have t: "term_matches di t = Inr (holds_now di pins t, ?cst, t, di)"
    using Cons.prems by (simp add: term_matches_spec holds_now_def)
  show ?case
  proof (cases "holds_now di pins t")
    case True
    from Cons.prems have prems: "\<forall>t \<in> set ts. term_ok di t" by simp
    from Cons.IH [OF Cons.prems(1,2) prems, of ?cst] t True show ?thesis
      by (auto simp: const_fail_def)
  next
    case False
    then have "?cst \<Longrightarrow> \<not> term_holds (pins ! nat (channel t)) (const_at di (nat (channel t))) t"
      by (simp add: holds_now_def pin_at_def)
    with False t show ?thesis by (auto simp: const_fail_def)
  qed
qed

text \<open>
  The verdicts over the whole list: bit \<open>k\<close> is set when condition \<open>k - j\<close> holds.
\<close>

definition verdicts :: "'a match_state_scheme \<Rightarrow> u8 list \<Rightarrow> srd_term list list \<Rightarrow> nat \<Rightarrow> nat \<Rightarrow> bool" where
  "verdicts di pins cs j k \<longleftrightarrow> j \<le> k \<and> k < j + length cs \<and> cs ! (k - j) \<noteq> []
     \<and> (\<forall>t \<in> set (cs ! (k - j)). holds_now di pins t)"

lemma verdicts_Cons:
  "verdicts di pins (c # cs) j k \<longleftrightarrow>
     (k = j \<and> c \<noteq> [] \<and> (\<forall>t \<in> set c. holds_now di pins t)) \<or> verdicts di pins cs (Suc j) k"
proof (cases "j < k")
  case True
  then have "k - j = Suc (k - Suc j)" by simp
  with True show ?thesis by (auto simp: verdicts_def)
qed (auto simp: verdicts_def)

lemma holds_now_frame [simp]:
  "holds_now (di\<lparr>match_array := m\<rparr>) = holds_now di"
  "const_fail (di\<lparr>match_array := m\<rparr>) = const_fail di"
  "verdicts (di\<lparr>match_array := m\<rparr>) = verdicts di"
  "scan_ready (di\<lparr>match_array := m\<rparr>) = scan_ready di"
  by (simp_all add: fun_eq_iff holds_now_def const_fail_def verdicts_def const_at_def scan_ready_def)

text \<open>A condition that does not allow the shortcut keeps it off for the rest of the list.\<close>

lemma check_conds_skip:
  "check_conds di cs j skip = Inr (cs', True, di') \<Longrightarrow> skip"
proof (induction cs arbitrary: di j skip cs')
  case (Cons c cs)
  then show ?case
    by (auto simp: ebind_eq_Inr split: if_splits dest!: Cons.IH)
qed simp

lemma check_conds_spec:
  assumes "scan_ready di pins" "abs_cur_samplenum di < abs_end_samplenum di"
    "\<forall>c \<in> set cs. \<forall>t \<in> set c. term_ok di t" "j + length cs \<le> 31"
  shows "\<exists>skip' m. check_conds di cs j skip = Inr (cs, skip', di\<lparr>match_array := m\<rparr>)
    \<and> (\<forall>k. bit m k \<longleftrightarrow> bit (match_array di) k \<or> verdicts di pins cs j k)
    \<and> (skip' \<and> (\<forall>k. \<not> verdicts di pins cs j k) \<longrightarrow> (\<forall>c \<in> set cs. c \<noteq> [] \<longrightarrow> const_fail di pins c))"
  using assms
proof (induction cs arbitrary: di j skip)
  case Nil
  then show ?case by (auto simp: verdicts_def intro!: exI [of _ "match_array di"])
next
  case (Cons c cs)
  have prems: "\<forall>c \<in> set cs. \<forall>t \<in> set c. term_ok di t" "Suc j + length cs \<le> 31" "j < 31"
    using Cons.prems by auto
  show ?case
  proof (cases "c = []")
    case True
    obtain skip' m where rest: "check_conds di cs (Suc j) skip = Inr (cs, skip', di\<lparr>match_array := m\<rparr>)"
      "\<forall>k. bit m k \<longleftrightarrow> bit (match_array di) k \<or> verdicts di pins cs (Suc j) k"
      "skip' \<and> (\<forall>k. \<not> verdicts di pins cs (Suc j) k) \<longrightarrow> (\<forall>c \<in> set cs. c \<noteq> [] \<longrightarrow> const_fail di pins c)"
      using Cons.IH [OF Cons.prems(1,2) prems(1,2), of skip] by blast
    then have "check_conds di (c # cs) j skip = Inr (c # cs, skip', di\<lparr>match_array := m\<rparr>)"
      using True by simp
    with rest(2,3) True show ?thesis
      by (intro exI [of _ skip'] exI [of _ m]) (simp add: verdicts_Cons)
  next
    case False
    let ?m = "\<forall>t \<in> set c. holds_now di pins t"
    obtain sa where sa: "all_terms_match di c False = Inr (?m, sa, c, di)"
      "sa \<and> \<not> ?m \<longrightarrow> const_fail di pins c"
      using all_terms_match_spec [OF Cons.prems(1,2), of c False] Cons.prems(3) by auto
    let ?arr = "if ?m then match_array di OR push_bit j 1 else match_array di"
    let ?di = "di\<lparr>match_array := ?arr\<rparr>"
    let ?skip = "\<not> ?m \<and> skip \<and> sa"
    obtain skip' m where rest: "check_conds ?di cs (Suc j) ?skip = Inr (cs, skip', ?di\<lparr>match_array := m\<rparr>)"
      "\<forall>k. bit m k \<longleftrightarrow> bit ?arr k \<or> verdicts di pins cs (Suc j) k"
      "skip' \<and> (\<forall>k. \<not> verdicts di pins cs (Suc j) k) \<longrightarrow> (\<forall>c \<in> set cs. c \<noteq> [] \<longrightarrow> const_fail di pins c)"
      using Cons.IH [of ?di "Suc j" ?skip] Cons.prems(1,2) prems by auto
    have "check_conds di (c # cs) j skip = Inr (c # cs, skip', di\<lparr>match_array := m\<rparr>)"
      using rest(1) sa(1) False prems(3) by (cases ?m) (simp_all add: match_bit_def)
    moreover have "bit m k \<longleftrightarrow> bit (match_array di) k \<or> verdicts di pins (c # cs) j k" for k
      using rest(2) False prems(3) by (cases ?m) (auto simp: verdicts_Cons bit_or_iff bit_exp_iff)
    moreover have "const_fail di pins d" if "skip'" "\<forall>k. \<not> verdicts di pins (c # cs) j k"
        "d \<in> set (c # cs)" "d \<noteq> []" for d
    proof -
      from that(2) False have "\<not> ?m" "\<forall>k. \<not> verdicts di pins cs (Suc j) k"
        by (simp_all add: verdicts_Cons)
      moreover from check_conds_skip [OF rest(1) [unfolded eqTrueI [OF that(1)]]] have ?skip .
      ultimately show ?thesis using that rest(3) sa(2) by auto
    qed
    ultimately show ?thesis by blast
  qed
qed


text \<open>What a refresh makes of the old pins.\<close>

definition refreshed :: "(u8 \<Rightarrow> bool) \<Rightarrow> 'a match_state_scheme \<Rightarrow> u8 list \<Rightarrow> u8 list" where
  "refreshed keep di pins = map (\<lambda>ch. if keep (pins ! ch) then pins ! ch
     else pin_at di ch (unat (abs_cur_samplenum di))) [0..<length pins]"

lemma refresh_pins_from:
  assumes "\<forall>i < length pins. \<exists>c. current_sample di (int i) = Inr (f i, c)" "k \<le> length pins"
  shows "refresh_pins keep di [k..<length pins] pins =
    Inr (map (\<lambda>i. if k \<le> i \<and> \<not> keep (pins ! i) then f i else pins ! i) [0..<length pins])"
  using assms
proof (induction "length pins - k" arbitrary: k pins)
  case 0
  then have "k = length pins" by simp
  moreover have "map (\<lambda>i. if length pins \<le> i \<and> \<not> keep (pins ! i) then f i else pins ! i) [0..<length pins] = pins"
    by (rule nth_equalityI) simp_all
  ultimately show ?case by simp
next
  case (Suc d)
  then have k: "k < length pins" "[k..<length pins] = k # [Suc k..<length pins]"
    by (auto simp: upt_conv_Cons)
  obtain c where c: "current_sample di (int k) = Inr (f k, c)" using Suc.prems k by blast
  define pins' where "pins' = (if keep (pins ! k) then pins else pins[k := f k])"
  have l: "length pins' = length pins" by (simp add: pins'_def)
  have "d = length pins' - Suc k" "Suc k \<le> length pins'"
    "\<forall>i < length pins'. \<exists>c. current_sample di (int i) = Inr (f i, c)"
    using Suc.hyps(2) Suc.prems k by (simp_all add: l)
  note IH = Suc.hyps(1) [OF this(1,3,2), unfolded l]
  have "refresh_pins keep di [k..<length pins] pins = refresh_pins keep di [Suc k..<length pins] pins'"
    using k c by (simp add: pins'_def)
  also have "\<dots> = Inr (map (\<lambda>i. if k \<le> i \<and> \<not> keep (pins ! i) then f i else pins ! i) [0..<length pins])"
  proof -
    have "(if Suc k \<le> i \<and> \<not> keep (pins' ! i) then f i else pins' ! i)
        = (if k \<le> i \<and> \<not> keep (pins ! i) then f i else pins ! i)" if "i < length pins" for i
      using that by (cases "i = k") (auto simp: pins'_def)
    then show ?thesis by (simp add: IH)
  qed
  finally show ?case .
qed

lemma refresh_old_pins_spec:
  assumes "scan_ready di pins" "abs_cur_samplenum di < abs_end_samplenum di"
  shows "refresh_old_pins keep di = Inr (di\<lparr>old_pins_array := Some (refreshed keep di pins)\<rparr>)"
proof -
  have "\<forall>i < length pins. \<exists>c. current_sample di (int i)
      = Inr (pin_at di i (unat (abs_cur_samplenum di)), c)"
    using assms by (auto simp: scan_ready_def current_sample_spec)
  from refresh_pins_from [OF this, of 0 keep] assms show ?thesis
    by (auto simp: refresh_old_pins_def oldpins_array_seed_def scan_ready_def refreshed_def
        chunk_ok_def if_distrib intro!: map_cong)
qed

lemma update_old_pins_spec:
  assumes "scan_ready di pins" "abs_cur_samplenum di < abs_end_samplenum di"
  shows "update_old_pins_array (di\<lparr>condition_list := cs\<rparr>) =
      Inr (di\<lparr>condition_list := cs, old_pins_array := Some (refreshed (\<lambda>old. False) di pins)\<rparr>)"
    and "update_old_pins_array (di\<lparr>match_array := m, condition_list := cs\<rparr>) =
      Inr (di\<lparr>match_array := m, condition_list := cs,
        old_pins_array := Some (refreshed (\<lambda>old. False) di pins)\<rparr>)"
  unfolding update_old_pins_array_def
  by (subst refresh_old_pins_spec [where pins = pins],
      (use assms in \<open>simp_all add: refreshed_def scan_ready_def\<close>)[3])+

section \<open>The scan\<close>

lemma hits_verdicts:
  assumes "unat (abs_cur_samplenum di) = c"
  shows "hits di pins c c = {k. verdicts di pins (condition_list di) 0 k}"
  using assms by (auto simp: hits_def cond_at_def verdicts_def holds_now_def old_at_def)

text \<open>Past the first position, the old pins no longer matter.\<close>

lemma hits_shift:
  assumes "c < n" "conds_ok di" "unat (abs_cur_samplenum di) = c" "length pins = dec_num_channels di"
  shows "hits di pins c n = hits di (refreshed (\<lambda>old. False) di pins) (Suc c) n"
proof -
  have "old_at di pins c n ch = old_at di (refreshed (\<lambda>old. False) di pins) (Suc c) n ch"
    if "ch < dec_num_channels di" for ch
    using assms that by (auto simp: old_at_def refreshed_def)
  then have "cond_at di pins c n cond = cond_at di (refreshed (\<lambda>old. False) di pins) (Suc c) n cond"
    if "cond \<in> set (condition_list di)" for cond
    using assms(2) that by (auto simp: cond_at_def conds_ok_def term_ok_def)
  then show ?thesis by (auto simp: hits_def)
qed

lemma const_fail_never:
  assumes "const_fail di pins cond" "\<forall>t \<in> set cond. term_ok di t"
  shows "\<not> cond_at di pins c n cond"
proof -
  obtain t where t: "t \<in> set cond" "channel_buffer di (nat (channel t)) = None"
    "\<not> term_holds (pins ! nat (channel t)) (const_at di (nat (channel t))) t"
    using assms(1) by (auto simp: const_fail_def)
  have pin: "pin_at di (nat (channel t)) m = const_at di (nat (channel t))" for m
    using t(2) by (simp add: pin_at_def)
  have "term_type t \<noteq> SRD_TERM_NO_EDGE" "term_type t \<noteq> SRD_TERM_SKIP"
    using assms(2) t by (auto simp: term_ok_def)
  with t(3) have "\<not> term_holds (const_at di (nat (channel t))) (const_at di (nat (channel t))) t"
    by (auto simp: term_holds_def sample_matches_def split: srd_term_type.splits)
  with t(3) have "\<not> term_holds (old_at di pins c n (nat (channel t))) (pin_at di (nat (channel t)) n) t"
    by (simp add: old_at_def pin)
  with t(1) show ?thesis unfolding cond_at_def by blast
qed


text \<open>
  The contract of the scan: the first position at or after the current one at which some
  condition holds, with the set of the conditions that hold there, or none in the chunk.
\<close>

definition first_hit :: "'a match_state_scheme \<Rightarrow> u8 list \<Rightarrow> nat \<Rightarrow> nat \<Rightarrow> nat \<Rightarrow> bool" where
  "first_hit di pins c e n \<longleftrightarrow> c \<le> n \<and> n < e \<and> hits di pins c n \<noteq> {}
     \<and> (\<forall>m. c \<le> m \<and> m < n \<longrightarrow> hits di pins c m = {})"

definition no_hit :: "'a match_state_scheme \<Rightarrow> u8 list \<Rightarrow> nat \<Rightarrow> nat \<Rightarrow> bool" where
  "no_hit di pins c e \<longleftrightarrow> (\<forall>m. c \<le> m \<and> m < e \<longrightarrow> hits di pins c m = {})"

text \<open>The pins at a sample, which a match leaves as the old pins of the next wait.\<close>

definition pins_at :: "'a match_state_scheme \<Rightarrow> nat \<Rightarrow> u8 list" where
  "pins_at di n = map (\<lambda>ch. pin_at di ch n) [0..<dec_num_channels di]"

lemma pins_at_frame [simp]:
  "pins_at (di\<lparr>match_array := m\<rparr>) = pins_at di"
  "pins_at (di\<lparr>abs_cur_samplenum := n\<rparr>) = pins_at di"
  "pins_at (di\<lparr>abs_cur_matched := b\<rparr>) = pins_at di"
  "pins_at (di\<lparr>first_pos := b\<rparr>) = pins_at di"
  "pins_at (di\<lparr>old_pins_array := p\<rparr>) = pins_at di"
  by (simp_all add: fun_eq_iff pins_at_def)

lemma refreshed_pins_at:
  "scan_ready di pins \<Longrightarrow> refreshed (\<lambda>old. False) di pins = pins_at di (unat (abs_cur_samplenum di))"
  by (simp add: refreshed_def pins_at_def scan_ready_def)

definition scan_outcome :: "'a match_state_scheme \<Rightarrow> u8 list \<Rightarrow> nat \<Rightarrow> nat \<Rightarrow> bool \<Rightarrow>
    'a match_state_scheme \<Rightarrow> bool" where
  "scan_outcome di pins c e found di' \<longleftrightarrow>
     (if found then first_hit di pins c e (unat (abs_cur_samplenum di'))
        \<and> {k. bit (match_array di') k} = hits di pins c (unat (abs_cur_samplenum di'))
        \<and> abs_cur_matched di' \<and> \<not> skip_zero di'
        \<and> old_pins_array di' = Some (pins_at di (unat (abs_cur_samplenum di')))
      else no_hit di pins c e \<and> unat (abs_cur_samplenum di') = max c e)"

lemma first_hit_step:
  assumes "hits di pins c c = {}" "\<And>n. c < n \<Longrightarrow> hits di pins c n = hits di' pins' (Suc c) n"
  shows "first_hit di' pins' (Suc c) e n \<Longrightarrow> first_hit di pins c e n"
    "no_hit di' pins' (Suc c) e \<Longrightarrow> no_hit di pins c e"
proof -
  have "hits di pins c m = {}" if "c \<le> m" "Suc c \<le> m \<Longrightarrow> hits di' pins' (Suc c) m = {}" for m
    using assms that by (cases "m = c") auto
  moreover assume "first_hit di' pins' (Suc c) e n"
  ultimately show "first_hit di pins c e n"
    using assms(2) [of n] by (simp add: first_hit_def)
next
  have "hits di pins c m = {}" if "c \<le> m" "Suc c \<le> m \<Longrightarrow> hits di' pins' (Suc c) m = {}" for m
    using assms that by (cases "m = c") auto
  moreover assume "no_hit di' pins' (Suc c) e"
  ultimately show "no_hit di pins c e" by (simp add: no_hit_def)
qed

lemma scan_end: "\<not> abs_cur_samplenum di < abs_end_samplenum di \<Longrightarrow> scan skip di = Inr (False, di)"
  by (subst scan.simps) simp

lemma scan_next:
  assumes "abs_cur_samplenum di < abs_end_samplenum di"
    "check_conds di (condition_list di) 0 skip = Inr (cs, skip', di1)"
    "update_old_pins_array (di1\<lparr>condition_list := cs\<rparr>) = Inr di2"
  shows "scan skip di =
    (if match_array di2 \<noteq> 0 then Inr (True, di2\<lparr>abs_cur_matched := True\<rparr>)
     else scan skip' (di2\<lparr>abs_cur_matched := False,
       abs_cur_samplenum := if skip' then abs_end_samplenum di2 else abs_cur_samplenum di2 + 1\<rparr>))"
  using assms by (subst scan.simps) (cases skip'; simp add: Let_def)

lemma scan_ready_frame [simp]:
  "scan_ready (di\<lparr>condition_list := cs\<rparr>) = scan_ready di"
  "conds_ok (di\<lparr>match_array := m\<rparr>) = conds_ok di"
  "conds_ok (di\<lparr>abs_cur_samplenum := n\<rparr>) = conds_ok di"
  "conds_ok (di\<lparr>abs_cur_matched := b\<rparr>) = conds_ok di"
  "conds_ok (di\<lparr>first_pos := b\<rparr>) = conds_ok di"
  "conds_ok (di\<lparr>old_pins_array := p\<rparr>) = conds_ok di"
  by (simp_all add: fun_eq_iff scan_ready_def conds_ok_def)

lemma hits_frame [simp]:
  "hits (di\<lparr>match_array := m\<rparr>) = hits di"
  "hits (di\<lparr>abs_cur_samplenum := n\<rparr>) = hits di"
  "hits (di\<lparr>abs_cur_matched := b\<rparr>) = hits di"
  "hits (di\<lparr>first_pos := b\<rparr>) = hits di"
  "hits (di\<lparr>old_pins_array := p\<rparr>) = hits di"
  by (simp_all add: fun_eq_iff hits_def cond_at_def old_at_def)

lemma outcome_frame [simp]:
  "first_hit (di\<lparr>match_array := m\<rparr>) = first_hit di"
  "first_hit (di\<lparr>abs_cur_samplenum := n\<rparr>) = first_hit di"
  "first_hit (di\<lparr>abs_cur_matched := b\<rparr>) = first_hit di"
  "first_hit (di\<lparr>first_pos := b\<rparr>) = first_hit di"
  "first_hit (di\<lparr>old_pins_array := p\<rparr>) = first_hit di"
  "no_hit (di\<lparr>match_array := m\<rparr>) = no_hit di"
  "no_hit (di\<lparr>abs_cur_samplenum := n\<rparr>) = no_hit di"
  "no_hit (di\<lparr>abs_cur_matched := b\<rparr>) = no_hit di"
  "no_hit (di\<lparr>first_pos := b\<rparr>) = no_hit di"
  "no_hit (di\<lparr>old_pins_array := p\<rparr>) = no_hit di"
  "scan_outcome (di\<lparr>match_array := m\<rparr>) = scan_outcome di"
  "scan_outcome (di\<lparr>abs_cur_samplenum := n\<rparr>) = scan_outcome di"
  "scan_outcome (di\<lparr>abs_cur_matched := b\<rparr>) = scan_outcome di"
  "scan_outcome (di\<lparr>first_pos := b\<rparr>) = scan_outcome di"
  "scan_outcome (di\<lparr>old_pins_array := p\<rparr>) = scan_outcome di"
  by (simp_all add: fun_eq_iff first_hit_def no_hit_def scan_outcome_def)

lemma scan_outcome_step:
  assumes "scan_outcome di pins' (Suc c) e found di'" "c < e" "hits di pins c c = {}"
    "\<And>n. c < n \<Longrightarrow> hits di pins c n = hits di pins' (Suc c) n"
  shows "scan_outcome di pins c e found di'"
proof (cases found)
  case True
  with assms(1) have h: "first_hit di pins' (Suc c) e (unat (abs_cur_samplenum di'))"
    by (simp add: scan_outcome_def)
  then have "c < unat (abs_cur_samplenum di')" by (simp add: first_hit_def)
  with True assms(1) first_hit_step(1) [OF assms(3,4) h] show ?thesis
    by (simp add: scan_outcome_def assms(4))
next
  case False
  with assms(1,2) first_hit_step(2) [OF assms(3,4)] show ?thesis
    by (simp add: scan_outcome_def)
qed

lemma scan_outcome_skip:
  assumes "c < e" "unat (abs_cur_samplenum di') = e" "\<And>n. hits di pins c n = {}"
  shows "scan_outcome di pins c e False di'"
  using assms by (simp add: scan_outcome_def no_hit_def)

lemma scan_spec:
  assumes "scan_ready di pins" "conds_ok di" "match_array di = 0"
  shows "\<exists>found di'. scan skip di = Inr (found, di')
    \<and> scan_outcome di pins (unat (abs_cur_samplenum di)) (unat (abs_end_samplenum di)) found di'
    \<and> condition_list di' = condition_list di"
  using assms
proof (induction "unat (abs_end_samplenum di) - unat (abs_cur_samplenum di)"
    arbitrary: di pins skip rule: less_induct)
  case less
  let ?c = "unat (abs_cur_samplenum di)" and ?e = "unat (abs_end_samplenum di)"
  show ?case
  proof (cases "abs_cur_samplenum di < abs_end_samplenum di")
    case False
    then show ?thesis
      by (auto simp: scan_end scan_outcome_def no_hit_def word_less_nat_alt max_def intro!: exI [of _ False])
  next
    case lt: True
    have ok: "\<forall>c \<in> set (condition_list di). \<forall>t \<in> set c. term_ok di t"
      "0 + length (condition_list di) \<le> 31"
      using less.prems(2) by (simp_all add: conds_ok_def)
    obtain skip' m where chk:
      "check_conds di (condition_list di) 0 skip = Inr (condition_list di, skip', di\<lparr>match_array := m\<rparr>)"
      "\<forall>k. bit m k \<longleftrightarrow> verdicts di pins (condition_list di) 0 k"
      "skip' \<and> (\<forall>k. \<not> verdicts di pins (condition_list di) 0 k)
        \<longrightarrow> (\<forall>c \<in> set (condition_list di). c \<noteq> [] \<longrightarrow> const_fail di pins c)"
      using check_conds_spec [OF less.prems(1) lt ok, of skip] less.prems(3) by auto
    have hits: "hits di pins ?c ?c = {k. bit m k}"
      using chk(2) by (simp add: hits_verdicts)
    let ?pins = "refreshed (\<lambda>old. False) di pins"
    let ?di2 = "di\<lparr>match_array := m, old_pins_array := Some ?pins\<rparr>"
    have upd: "update_old_pins_array (di\<lparr>match_array := m, condition_list := condition_list di\<rparr>) = Inr ?di2"
      using update_old_pins_spec(2) [OF less.prems(1) lt, where m = m and cs = "condition_list di"] by (cases di) simp
    note loop = scan_next [OF lt chk(1) upd]
    show ?thesis
    proof (cases "m = 0")
      case False
      then have "hits di pins ?c ?c \<noteq> {}" using hits by (auto simp: bit_eq_iff)
      then show ?thesis
        using loop lt False hits less.prems(1) refreshed_pins_at [OF less.prems(1)]
        by (auto simp: scan_outcome_def first_hit_def word_less_nat_alt scan_ready_def
            intro!: exI [of _ True])
    next
      case True
      then have none: "hits di pins ?c ?c = {}" "\<forall>k. \<not> verdicts di pins (condition_list di) 0 k"
        using hits chk(2) by auto
      let ?di3 = "?di2\<lparr>abs_cur_matched := False, abs_cur_samplenum :=
        if skip' then abs_end_samplenum di else abs_cur_samplenum di + 1\<rparr>"
      have step: "scan skip di = scan skip' ?di3" using loop True by simp
      show ?thesis
      proof (cases skip')
        case True
        with step have "scan skip di = Inr (False, ?di3)" by (simp add: scan_end)
        moreover have "hits di pins ?c n = {}" for n
          using chk(3) True none(2) const_fail_never ok(1)
          by (fastforce simp: hits_def cond_at_def)
        ultimately show ?thesis
          using lt True by (auto simp: scan_outcome_def no_hit_def word_less_nat_alt intro!: exI [of _ False])
      next
        case False
        let ?di4 = "?di2\<lparr>abs_cur_matched := False, abs_cur_samplenum := abs_cur_samplenum di + 1\<rparr>"
        have c: "unat (abs_cur_samplenum di + 1) = Suc ?c" using lt by (rule unat_Suc_less)
        have ready: "scan_ready ?di4 ?pins"
          using less.prems(1) c by (simp add: scan_ready_def refreshed_def word_le_nat_alt)
        have "unat (abs_end_samplenum ?di4) - unat (abs_cur_samplenum ?di4) < ?e - ?c"
          using lt c by (simp add: word_less_nat_alt)
        from less.hyps [OF this ready, of skip'] obtain found di' where
          "scan skip' ?di4 = Inr (found, di')" "scan_outcome di ?pins (Suc ?c) ?e found di'"
          "condition_list di' = condition_list di"
          using less.prems(2) \<open>m = 0\<close> c by auto
        moreover have "hits di pins ?c n = hits di ?pins (Suc ?c) n" if "?c < n" for n
          using hits_shift [OF that less.prems(2) refl] less.prems(1) by (simp add: scan_ready_def)
        ultimately show ?thesis
          using step False scan_outcome_step [of di ?pins ?c ?e] lt none(1)
          by (auto simp: word_less_nat_alt)
      qed
    qed
  qed
qed


section \<open>The first match of a wait\<close>

text \<open>Where a wait starts to look, and with which old pins.\<close>

definition wait_from :: "'a match_state_scheme \<Rightarrow> nat" where
  "wait_from di = (if abs_cur_matched di then Suc (unat (abs_cur_samplenum di))
                   else unat (abs_cur_samplenum di))"

definition wait_pins :: "'a match_state_scheme \<Rightarrow> u8 list \<Rightarrow> u8 list" where
  "wait_pins di pins =
     (if first_pos di then refreshed (\<lambda>old. old \<noteq> SRD_INITIAL_PIN_SAME_AS_SAMPLE0) di pins else pins)"

lemma restart_skip_plain: "term_type t \<noteq> SRD_TERM_SKIP \<Longrightarrow> restart_skip t = t"
  by (simp add: restart_skip_def)

lemma restart_conds_plain:
  "conds_ok di \<Longrightarrow> map (map restart_skip) (condition_list di) = condition_list di"
  by (auto simp: conds_ok_def term_ok_def restart_skip_plain intro!: map_idI)

lemma seeded_pins:
  assumes "scan_ready di pins" "abs_cur_samplenum di < abs_end_samplenum di"
  shows "(if first_pos di then update_old_pins_array_initial_pins (di\<lparr>first_pos := False\<rparr>) else Inr di)
    = Inr (di\<lparr>first_pos := False, old_pins_array := Some (wait_pins di pins)\<rparr>)"
proof (cases "first_pos di")
  case True
  have "scan_ready (di\<lparr>first_pos := False\<rparr>) pins" using assms(1) by (simp add: scan_ready_def)
  from refresh_old_pins_spec [OF this] assms(2) True show ?thesis
    by (simp add: update_old_pins_array_initial_pins_def wait_pins_def refreshed_def)
next
  case False
  with assms(1) show ?thesis
    by (cases di) (simp add: wait_pins_def scan_ready_def)
qed

lemma find_match_scan:
  assumes "scan_ready di pins" "abs_cur_samplenum di < abs_end_samplenum di" "have_non_null_conds di"
  shows "find_match di = scan True (di\<lparr>match_array := 0, first_pos := False,
      old_pins_array := Some (wait_pins di pins),
      abs_cur_samplenum := abs_cur_samplenum di + (if abs_cur_matched di then 1 else 0),
      condition_list := if abs_cur_matched di then map (map restart_skip) (condition_list di)
        else condition_list di\<rparr>)"
proof -
  have "scan_ready (di\<lparr>match_array := 0\<rparr>) pins" using assms(1) by simp
  note seed = seeded_pins [OF this, simplified, OF assms(2)]
  have "wait_pins (di\<lparr>match_array := 0\<rparr>) pins = wait_pins di pins"
    by (simp add: wait_pins_def refreshed_def)
  moreover have "condition_list di \<noteq> []" using assms(3) by (auto simp: have_non_null_conds_def)
  ultimately show ?thesis
    using assms(3) seed by (cases "abs_cur_matched di") (simp_all add: find_match_def Let_def)
qed

lemma scan_ready_start:
  assumes "scan_ready di pins" "abs_cur_samplenum di < abs_end_samplenum di"
  shows "scan_ready (di\<lparr>match_array := 0, first_pos := False,
      old_pins_array := Some (wait_pins di pins),
      abs_cur_samplenum := abs_cur_samplenum di + (if abs_cur_matched di then 1 else 0),
      condition_list := cs\<rparr>) (wait_pins di pins)"
    and "unat (abs_cur_samplenum di + (if abs_cur_matched di then 1 else 0)) = wait_from di"
proof -
  show start: "unat (abs_cur_samplenum di + (if abs_cur_matched di then 1 else 0)) = wait_from di"
    using unat_Suc_less [OF assms(2)] by (simp add: wait_from_def)
  then have "abs_start_samplenum di \<le> abs_cur_samplenum di + (if abs_cur_matched di then 1 else 0)"
    using assms(1) by (simp add: scan_ready_def wait_from_def word_le_nat_alt split: if_splits)
  with assms(1) show "scan_ready (di\<lparr>match_array := 0, first_pos := False,
      old_pins_array := Some (wait_pins di pins),
      abs_cur_samplenum := abs_cur_samplenum di + (if abs_cur_matched di then 1 else 0),
      condition_list := cs\<rparr>) (wait_pins di pins)"
    by (simp add: scan_ready_def wait_pins_def refreshed_def)
qed

lemma find_match_spec:
  assumes "scan_ready di pins" "conds_ok di" "have_non_null_conds di"
    and "abs_cur_samplenum di < abs_end_samplenum di"
  shows "\<exists>found di'. find_match di = Inr (found, di')
    \<and> scan_outcome di (wait_pins di pins) (wait_from di) (unat (abs_end_samplenum di)) found di'"
proof -
  let ?di = "di\<lparr>match_array := 0, first_pos := False, old_pins_array := Some (wait_pins di pins),
      abs_cur_samplenum := abs_cur_samplenum di + (if abs_cur_matched di then 1 else 0)\<rparr>"
  have "find_match di = scan True ?di"
    using find_match_scan [OF assms(1,4,3)] restart_conds_plain [OF assms(2)]
    by (cases di) (simp split: if_splits)
  moreover have "scan_ready ?di (wait_pins di pins)"
    using scan_ready_start(1) [OF assms(1,4), of "condition_list di"] by (cases di) simp
  from scan_spec [OF this, of True] assms(2) scan_ready_start(2) [OF assms(1,4)]
  have "\<exists>found di'. scan True ?di = Inr (found, di')
    \<and> scan_outcome di (wait_pins di pins) (wait_from di) (unat (abs_end_samplenum di)) found di'"
    by auto
  ultimately show ?thesis by simp
qed



section \<open>Skip conditions\<close>

lemma check_skip:
  assumes "term_type t = SRD_TERM_SKIP" "num_samples_to_skip t \<noteq> 0" "\<not> skip_zero di" "match_array di = 0"
  shows "check_conds di [[t]] 0 skip =
    (if num_samples_already_skipped t = num_samples_to_skip t
     then Inr ([[t]], False, di\<lparr>match_array := 1\<rparr>)
     else Inr ([[t\<lparr>num_samples_already_skipped := num_samples_already_skipped t + 1\<rparr>]], False, di))"
  using assms by (simp add: term_matches_def sample_matches_def match_bit_def)

text \<open>
  A lone skip term that has counted \<open>k\<close> of its \<open>n\<close> samples: the scan stops
  \<open>n - k\<close> samples on, or uses up the chunk and has counted every sample of it.
\<close>

definition skip_outcome :: "srd_term \<Rightarrow> nat \<Rightarrow> nat \<Rightarrow> bool \<Rightarrow> 'a match_state_scheme \<Rightarrow> bool" where
  "skip_outcome t c e found di' \<longleftrightarrow>
     (if c + (unat (num_samples_to_skip t) - unat (num_samples_already_skipped t)) < e
      then found \<and> match_array di' = 1 \<and> unat (abs_cur_samplenum di')
          = c + (unat (num_samples_to_skip t) - unat (num_samples_already_skipped t))
      else \<not> found \<and> unat (abs_cur_samplenum di') = e
        \<and> (\<exists>t'. condition_list di' = [[t']] \<and> term_type t' = SRD_TERM_SKIP
            \<and> num_samples_to_skip t' = num_samples_to_skip t
            \<and> unat (num_samples_already_skipped t') = unat (num_samples_already_skipped t) + (e - c)))"

lemma skip_outcome_step:
  assumes "num_samples_already_skipped t < num_samples_to_skip t" "c < e"
    "skip_outcome (t\<lparr>num_samples_already_skipped := num_samples_already_skipped t + 1\<rparr>) (Suc c) e found di'"
  shows "skip_outcome t c e found di'"
proof -
  have "Suc c + (unat (num_samples_to_skip t) - Suc (unat (num_samples_already_skipped t)))
      = c + (unat (num_samples_to_skip t) - unat (num_samples_already_skipped t))"
    "Suc (unat (num_samples_already_skipped t)) + (e - Suc c) = unat (num_samples_already_skipped t) + (e - c)"
    using assms(1,2) by (auto simp: word_less_nat_alt)
  moreover have
    "num_samples_to_skip (t\<lparr>num_samples_already_skipped := num_samples_already_skipped t + 1\<rparr>)
      = num_samples_to_skip t"
    "unat (num_samples_already_skipped (t\<lparr>num_samples_already_skipped := num_samples_already_skipped t + 1\<rparr>))
      = Suc (unat (num_samples_already_skipped t))"
    by (simp_all add: unat_Suc_less [OF assms(1)])
  ultimately show ?thesis using assms(3) by (simp only: skip_outcome_def)
qed

lemma scan_skip:
  assumes "scan_ready di pins" "condition_list di = [[t]]" "term_type t = SRD_TERM_SKIP"
    "num_samples_to_skip t \<noteq> 0" "num_samples_already_skipped t \<le> num_samples_to_skip t"
    "match_array di = 0" "abs_cur_samplenum di \<le> abs_end_samplenum di"
  shows "\<exists>found di'. scan skip di = Inr (found, di')
    \<and> skip_outcome t (unat (abs_cur_samplenum di)) (unat (abs_end_samplenum di)) found di'"
  using assms
proof (induction "unat (abs_end_samplenum di) - unat (abs_cur_samplenum di)"
    arbitrary: di pins t skip rule: less_induct)
  case less
  let ?c = "unat (abs_cur_samplenum di)" and ?e = "unat (abs_end_samplenum di)"
  let ?k = "unat (num_samples_already_skipped t)" and ?n = "unat (num_samples_to_skip t)"
  show ?case
  proof (cases "abs_cur_samplenum di < abs_end_samplenum di")
    case False
    with less.prems(7) have "abs_cur_samplenum di = abs_end_samplenum di" by simp
    with less.prems show ?thesis
      by (auto simp: scan_end skip_outcome_def intro!: exI [of _ False])
  next
    case lt: True
    have sz: "\<not> skip_zero di" using less.prems(1) by (simp add: scan_ready_def)
    note chk = check_skip [OF less.prems(3,4) sz less.prems(6), of skip]
    show ?thesis
    proof (cases "num_samples_already_skipped t = num_samples_to_skip t")
      case True
      with chk less.prems(2)
      have "check_conds di (condition_list di) 0 skip = Inr ([[t]], False, di\<lparr>match_array := 1\<rparr>)" by simp
      from scan_next [OF lt this update_old_pins_spec(2) [OF less.prems(1) lt]] show ?thesis
        using lt True by (auto simp: word_less_nat_alt skip_outcome_def intro!: exI [of _ True])
    next
      case False
      let ?t = "t\<lparr>num_samples_already_skipped := num_samples_already_skipped t + 1\<rparr>"
      from False less.prems(5) have k: "num_samples_already_skipped t < num_samples_to_skip t" by simp
      have tk: "unat (num_samples_already_skipped t + 1) = Suc ?k" using k by (rule unat_Suc_less)
      have c: "unat (abs_cur_samplenum di + 1) = Suc ?c" using lt by (rule unat_Suc_less)
      from False chk less.prems(2)
      have "check_conds di (condition_list di) 0 skip = Inr ([[?t]], False, di)" by simp
      from scan_next [OF lt this update_old_pins_spec(1) [OF less.prems(1) lt]]
      have step: "scan skip di = scan False (di\<lparr>condition_list := [[?t]],
          old_pins_array := Some (refreshed (\<lambda>old. False) di pins), abs_cur_matched := False,
          abs_cur_samplenum := abs_cur_samplenum di + 1\<rparr>)" (is "_ = scan False ?di")
        using less.prems(6) by simp
      have ready: "scan_ready ?di (refreshed (\<lambda>old. False) di pins)"
        using less.prems(1) c by (simp add: scan_ready_def refreshed_def word_le_nat_alt)
      have "unat (abs_end_samplenum ?di) - unat (abs_cur_samplenum ?di) < ?e - ?c"
        using lt c by (simp add: word_less_nat_alt)
      note IH = less.hyps [OF this ready, of ?t False]
      have "num_samples_already_skipped ?t \<le> num_samples_to_skip ?t"
        "abs_cur_samplenum ?di \<le> abs_end_samplenum ?di"
        using k lt tk c by (simp_all add: word_le_nat_alt word_less_nat_alt)
      note IH' = IH [OF _ _ _ this(1) _ this(2)]
      with less.prems(3,4,6) obtain found di' where
        "scan False ?di = Inr (found, di')" "skip_outcome ?t (Suc ?c) ?e found di'"
        using c by auto
      with skip_outcome_step [OF k _ this(2)] lt show ?thesis
        by (auto simp: step word_less_nat_alt)
    qed
  qed
qed

text \<open>C12: Skip. After a match, a wait for a skip of \<open>n > 0\<close> samples ends exactly
  \<open>n\<close> samples after the match when the chunk reaches that far; otherwise it uses up the
  chunk and its counter has counted the samples from the match to the end of the chunk, so that
  the wait goes on correctly in the next one.\<close>

theorem find_match_skip:
  assumes "scan_ready di pins" "condition_list di = [[t]]" "term_type t = SRD_TERM_SKIP"
    and "0 < num_samples_to_skip t" "abs_cur_matched di"
    and "abs_cur_samplenum di < abs_end_samplenum di"
  shows "\<exists>found di'. find_match di = Inr (found, di') \<and>
    (let c = unat (abs_cur_samplenum di); e = unat (abs_end_samplenum di);
         n = unat (num_samples_to_skip t) in
     if c + n < e then found \<and> unat (abs_cur_samplenum di') = c + n \<and> match_array di' = 1
     else \<not> found \<and> unat (abs_cur_samplenum di') = e
       \<and> (\<exists>t'. condition_list di' = [[t']] \<and> num_samples_to_skip t' = num_samples_to_skip t
           \<and> unat (num_samples_already_skipped t') = e - c))"
proof -
  let ?t = "t\<lparr>num_samples_already_skipped := 1\<rparr>"
  let ?di = "di\<lparr>match_array := 0, first_pos := False, old_pins_array := Some (wait_pins di pins),
      abs_cur_samplenum := abs_cur_samplenum di + 1, condition_list := [[?t]]\<rparr>"
  have "have_non_null_conds di" using assms(2) by (simp add: have_non_null_conds_def)
  from find_match_scan [OF assms(1,6) this] assms(2-5)
  have step: "find_match di = scan True ?di" by (simp add: restart_skip_def)
  have c: "unat (abs_cur_samplenum di + 1) = Suc (unat (abs_cur_samplenum di))"
    using assms(6) by (rule unat_Suc_less)
  have ready: "scan_ready ?di (wait_pins di pins)"
    using scan_ready_start(1) [OF assms(1,6)] assms(5) by simp
  have n: "0 < unat (num_samples_to_skip t)" "num_samples_to_skip t \<noteq> 0"
    using assms(4) by (auto simp: word_less_nat_alt)
  have le: "abs_cur_samplenum di + 1 \<le> abs_end_samplenum di"
    using c assms(6) by (simp add: word_le_nat_alt word_less_nat_alt)
  have lt: "unat (abs_cur_samplenum di) < unat (abs_end_samplenum di)"
    using assms(6) by (simp add: word_less_nat_alt)
  obtain found di' where "scan True ?di = Inr (found, di')"
    "skip_outcome ?t (Suc (unat (abs_cur_samplenum di))) (unat (abs_end_samplenum di)) found di'"
    using scan_skip [OF ready, of ?t True] assms(3) n le c
    by (auto simp: word_le_nat_alt)
  then show ?thesis
    using n lt by (auto simp: step skip_outcome_def Let_def split: if_splits)
qed



section \<open>Concrete chunks\<close>

definition plain_term :: "srd_term_type \<Rightarrow> int \<Rightarrow> srd_term" where
  "plain_term ty ch = \<lparr>term_type = ty, channel = ch, num_samples_to_skip = 0,
     num_samples_already_skipped = 0\<rparr>"

definition skip_term :: "u64 \<Rightarrow> srd_term" where
  "skip_term n = \<lparr>term_type = SRD_TERM_SKIP, channel = -1, num_samples_to_skip = n,
     num_samples_already_skipped = 0\<rparr>"

text \<open>Sixteen samples of two channels, the second constantly high.\<close>

definition demo_chunk :: "srd_term list list \<Rightarrow> match_state" where
  "demo_chunk conds = \<lparr>dec_num_channels = 2, condition_list = conds, match_array = 0,
     abs_start_samplenum = 0, abs_end_samplenum = 16, inbuf = Some [Some [0xf0, 0x81], None],
     inbuf_const = Some [0, 1], inbuflen = 16, abs_cur_samplenum = 0, abs_cur_matched = False,
     old_pins_array = Some [2, 2], first_pos = True, skip_zero = False,
     dec_channelmap = Some [0, 1]\<rparr>"

definition demo_conds :: "srd_term list list" where
  "demo_conds = [[plain_term SRD_TERM_HIGH 1, plain_term SRD_TERM_RISING_EDGE 0],
     [plain_term SRD_TERM_LOW 1]]"


definition demo_skip :: match_state where
  "demo_skip = (demo_chunk [[skip_term 5]])\<lparr>abs_cur_matched := True, abs_cur_samplenum := 3\<rparr>"

lemma find_match_skip_witness:
  "\<exists>di'. find_match demo_skip = Inr (True, di') \<and> unat (abs_cur_samplenum di') = 8"
proof -
  have "scan_ready demo_skip [2, 2]" "condition_list demo_skip = [[skip_term 5]]"
    "term_type (skip_term 5) = SRD_TERM_SKIP" "0 < num_samples_to_skip (skip_term 5)"
    "abs_cur_matched demo_skip" "abs_cur_samplenum demo_skip < abs_end_samplenum demo_skip"
    by code_simp+
  from find_match_skip [OF this] show ?thesis
    by (auto simp: Let_def demo_skip_def demo_chunk_def skip_term_def)
qed

definition demo_quiet :: match_state where
  "demo_quiet = (demo_chunk [[plain_term SRD_TERM_LOW 1]])"


text \<open>
  The first sample of a chunk is not looked at when the last sample of the chunk before it
  matched: the step to the next position is made once when the wait runs into the end of the
  old chunk and once more on the new one.
\<close>

definition next_chunk :: "u64 \<Rightarrow> u64 \<Rightarrow> u8 list option list \<Rightarrow> match_state \<Rightarrow> match_state" where
  "next_chunk s e bufs di = di\<lparr>abs_start_samplenum := s, abs_end_samplenum := e, inbuf := Some bufs\<rparr>"

lemma chunk_boundary_sample_lost:
  "case find_match ((demo_chunk [[plain_term SRD_TERM_HIGH 0]])\<lparr>abs_cur_samplenum := 15, first_pos := False\<rparr>) of
     Inr (True, di1) \<Rightarrow> abs_cur_samplenum di1 = 15 \<and>
       (case find_match di1 of
          Inr (False, di2) \<Rightarrow> abs_cur_samplenum di2 = 16 \<and>
            (case find_match (next_chunk 16 24 [Some [0x81], None] di2) of
               Inr (True, di3) \<Rightarrow> abs_cur_samplenum di3 = 23 | _ \<Rightarrow> False)
        | _ \<Rightarrow> False)
   | _ \<Rightarrow> False"
  by code_simp

text \<open>
  The shortcut is not sound for \<open>SRD_TERM_NO_EDGE\<close> on a constant channel whose assumed
  initial value differs: sample 1 has no edge, yet the wait runs to the end of the chunk.
\<close>

lemma no_edge_on_constant_lost:
  "case find_match ((demo_chunk [[plain_term SRD_TERM_NO_EDGE 1]])\<lparr>old_pins_array := Some [0, 0]\<rparr>) of
     Inr (found, di') \<Rightarrow> \<not> found \<and> abs_cur_samplenum di' = 16
   | _ \<Rightarrow> False"
  by code_simp

end
