(* ===== verification/Srd_Instance.thy ===== *)
theory Srd_Instance
  imports Srd_Match_Spec Op_System "HOL-Library.AList"
begin

text \<open>
  Decoder instances of \<open>libsigrokdecode/instance.c\<close>, for decoders written in C: the wait
  and pin functions a decoder calls, the channel map, stacking and lookup, start, reset and
  disposal, and the submission of a chunk of samples. Instances live in a store from
  addresses to records, so that sharing and disposal are explicit; a pointer is an address, NULL
  is None, and following an address that holds nothing is a fault. The functions of a
  decoder (\<open>reset\<close>, \<open>start\<close>, \<open>destroy\<close>) are parameters.
\<close>

section \<open>Data\<close>

record srd_channel =
  ch_id :: string
  order :: nat

record srd_decoder =
  dec_id :: string
  dec_inputs :: "string list"
  dec_outputs :: "string list"
  dec_channels :: "srd_channel list"
  dec_opt_channels :: "srd_channel list"
  dec_ann_types :: "int list"

text \<open>
  Option values and metadata: \<open>GVariant\<close>s of the types the code asks for, a double as its
  bit pattern.
\<close>

datatype gvariant_type =
  TYPE_INT64 | TYPE_UINT64 | TYPE_INT32 | TYPE_UINT32 | TYPE_DOUBLE | TYPE_STRING

datatype gvariant =
    GV_Int64 u64
  | GV_Uint64 u64
  | GV_Int32 u32
  | GV_Uint32 u32
  | GV_Double u64
  | GV_String string

text \<open>
  A registered output of a decoder. It is kept in the instance that owns it, which its
  field \<open>di\<close> points back to; the last three fields are None (NULL) unless the output carries
  metadata.
\<close>

record srd_pd_output =
  pdo_id :: int
  output_type :: int
  proto_id :: string
  meta_type :: "gvariant_type option"
  meta_name :: "string option"
  meta_descr :: "string option"

record srd_decoder_inst = match_state +
  decoder :: srd_decoder
  inst_id :: string
  next_di :: "nat list"
  thread_handle :: bool
  got_new_samples :: bool
  handled_all_samples :: bool
  want_wait_terminate :: bool
  decoder_state :: int
  is_task_stop_signal :: bool
  is_c_inst :: bool
  c_pin_cache :: "u8 list option"
  c_pin_cache_samplenum :: u64
  c_pin_cache_inbuf_serial :: u64
  user_data :: "nat option"
  error_message :: "string option"
  samplerate :: u64
  c_options :: "(string \<times> gvariant) list option"
  pd_output :: "srd_pd_output list"
  last_samplenum :: u64

type_synonym inst_store = "nat \<Rightarrow> srd_decoder_inst option"

text \<open>
  A registered output callback: the function is known by its address, as is its private data.
\<close>

record srd_pd_callback =
  cb_output_type :: int
  cb :: nat
  cb_data :: "nat option"

record srd_session =
  session_id :: int
  di_list :: "nat list"
  callbacks :: "srd_pd_callback list"
  store :: inst_store

definition deref :: "(nat \<Rightarrow> 'a option) \<Rightarrow> nat \<Rightarrow> fault + 'a" where
  "deref h p = (case h p of None \<Rightarrow> Inl UseAfterFree | Some x \<Rightarrow> Inr x)"

lemma deref_Some [simp]: "h p = Some x \<Longrightarrow> deref h p = Inr x"
  by (simp add: deref_def)

lemma deref_eq_Inr: "deref h p = Inr x \<longleftrightarrow> h p = Some x"
  by (simp add: deref_def split: option.splits)

section \<open>Waiting\<close>

definition process_samples_until_condition_match ::
  "srd_decoder_inst \<Rightarrow> fault + int \<times> bool \<times> srd_decoder_inst" where
  "process_samples_until_condition_match di =
     (if want_wait_terminate di then Inr (SRD_OK, False, di)
      else ebind (process_loop di) (\<lambda>(found, di'). Inr (SRD_OK, found, di')))"

text \<open>
  The pin cache that a successful wait fills: 0xFF for an unconnected channel, the
  constant of a channel without a buffer, else the bit of the current sample, with the one
  bounds check the code makes.
\<close>

definition cached_pin :: "srd_decoder_inst \<Rightarrow> int list \<Rightarrow> nat \<Rightarrow> fault + u8" where
  "cached_pin di chmap i =
     ebind (rd chmap i) (\<lambda>c.
     if c < 0 then Inr 0xFF
     else
       let const = const_sample di (int i) in
       case inbuf di of
         None \<Rightarrow> const
       | Some bufs \<Rightarrow> ebind (rd bufs i) (\<lambda>b.
           case b of
             None \<Rightarrow> const
           | Some buf \<Rightarrow>
               let off = abs_cur_samplenum di - abs_start_samplenum di in
               if off div 8 < (inbuflen di + 7) div 8 then
                 ebind (rd buf (unat (off div 8))) (\<lambda>byte.
                 Inr (drop_bit (unat (off mod 8)) byte AND 1))
               else Inr 0))"

fun cached_pins :: "srd_decoder_inst \<Rightarrow> int list \<Rightarrow> nat list \<Rightarrow> u8 list \<Rightarrow> fault + u8 list" where
  "cached_pins di chmap [] cache = Inr cache"
| "cached_pins di chmap (i # is) cache =
     ebind (cached_pin di chmap i) (\<lambda>v.
     ebind (wr cache i v) (\<lambda>cache'. cached_pins di chmap is cache'))"

definition fill_pin_cache :: "srd_decoder_inst \<Rightarrow> fault + srd_decoder_inst" where
  "fill_pin_cache di =
     (let cache = (if c_pin_cache di = None \<and> 0 < dec_num_channels di
                   then Some (replicate (dec_num_channels di) 0) else c_pin_cache di) in
      case cache of
        None \<Rightarrow> Inr di
      | Some old \<Rightarrow>
          (case dec_channelmap di of
             None \<Rightarrow> if dec_num_channels di = 0 then Inr (di\<lparr>c_pin_cache := cache,
                c_pin_cache_samplenum := abs_cur_samplenum di,
                c_pin_cache_inbuf_serial := c_pin_cache_inbuf_serial di + 1\<rparr>) else Inl NullDeref
           | Some chmap \<Rightarrow>
               ebind (cached_pins di chmap [0..<dec_num_channels di] old) (\<lambda>new.
               Inr (di\<lparr>c_pin_cache := Some new,
                 c_pin_cache_samplenum := abs_cur_samplenum di,
                 c_pin_cache_inbuf_serial := c_pin_cache_inbuf_serial di + 1\<rparr>))))"

text \<open>
  One pass of the \<open>while (1)\<close> of \<open>c_decoder_wait_impl\<close> under the mutex. \<open>WaitAgain\<close>
  is both the sleep on the condition variable and the return to the head of the loop; a
  finished wait carries the status and, when it matched, the sample number and the match
  bits.
\<close>

datatype wait_status = WaitAgain | WaitDone int "(u64 \<times> u64) option"

definition drop_chunk :: "srd_decoder_inst \<Rightarrow> srd_decoder_inst" where
  "drop_chunk di = di\<lparr>got_new_samples := False, handled_all_samples := True,
     abs_start_samplenum := 0, abs_end_samplenum := 0, inbuf := None, inbuflen := 0\<rparr>"

definition wait_round :: "srd_decoder_inst \<Rightarrow> fault + wait_status \<times> srd_decoder_inst" where
  "wait_round di =
     (if \<not> got_new_samples di \<and> \<not> want_wait_terminate di then Inr (WaitAgain, di)
      else if want_wait_terminate di then Inr (WaitDone SRD_ERR_TERM_REQ None, di)
      else ebind (process_samples_until_condition_match di) (\<lambda>(ret, found, di1).
        if found then
          ebind (fill_pin_cache (di1\<lparr>first_pos := False\<rparr>)) (\<lambda>di2.
          Inr (WaitDone SRD_OK (Some (abs_cur_samplenum di2, match_array di2)), di2))
        else let di2 = drop_chunk di1 in
          if want_wait_terminate di2 then Inr (WaitDone SRD_ERR_TERM_REQ None, di2)
          else Inr (WaitAgain, di2)))"

text \<open>The entry of \<open>c_decoder_wait_impl\<close>: an empty list keeps the conditions of the call before.\<close>

definition install_conditions :: "srd_term list list \<Rightarrow> srd_decoder_inst \<Rightarrow> srd_decoder_inst" where
  "install_conditions conds di =
     (if conds \<noteq> [] then (condition_list_free di)\<lparr>condition_list := conds\<rparr> else di)"

definition c_decoder_wait_impl :: "srd_term list list \<Rightarrow> srd_decoder_inst option \<Rightarrow>
    fault + wait_status \<times> srd_decoder_inst option" where
  "c_decoder_wait_impl conds di_opt =
     (case di_opt of
        None \<Rightarrow> Inr (WaitDone SRD_ERR_ARG None, None)
      | Some di \<Rightarrow> ebind (wait_round (install_conditions conds di)) (\<lambda>(st, di').
          Inr (st, Some di')))"

definition c_decoder_get_pin_impl :: "srd_decoder_inst option \<Rightarrow> int \<Rightarrow> u64 \<Rightarrow> fault + u8" where
  "c_decoder_get_pin_impl di_opt ch samplenum =
     (case di_opt of
        None \<Rightarrow> Inr 0
      | Some di \<Rightarrow>
          if ch < 0 \<or> int (dec_num_channels di) \<le> ch then Inr 0
          else case dec_channelmap di of
            None \<Rightarrow> Inl NullDeref
          | Some chmap \<Rightarrow> ebind (rd_int chmap ch) (\<lambda>c.
              if c < 0 then Inr 0xFF
              else if c_pin_cache di \<noteq> None \<and> samplenum = c_pin_cache_samplenum di
              then rd_int (the (c_pin_cache di)) ch
              else case inbuf di of
                None \<Rightarrow> Inr 0
              | Some bufs \<Rightarrow> ebind (rd_int bufs ch) (\<lambda>b.
                  case b of
                    None \<Rightarrow> Inr 0
                  | Some buf \<Rightarrow>
                      if samplenum < abs_start_samplenum di then Inr 0
                      else let offset = samplenum - abs_start_samplenum di in
                        if inbuflen di \<le> offset then Inr 0
                        else ebind (rd buf (unat (offset div 8))) (\<lambda>byte.
                             Inr (drop_bit (unat (offset mod 8)) byte AND 1)))))"

definition c_decoder_get_private_impl :: "srd_decoder_inst option \<Rightarrow> nat option" where
  "c_decoder_get_private_impl di_opt = (case di_opt of None \<Rightarrow> None | Some di \<Rightarrow> user_data di)"

definition c_decoder_set_private_impl ::
  "srd_decoder_inst option \<Rightarrow> nat option \<Rightarrow> srd_decoder_inst option" where
  "c_decoder_set_private_impl di_opt p = map_option (\<lambda>di. di\<lparr>user_data := p\<rparr>) di_opt"


section \<open>Channels and initial pins\<close>

text \<open>
  The hash table of \<open>srd_inst_channel_set_all\<close> is the list of its entries in the order the
  table yields its keys; None is a value of a type other than int32.
\<close>

definition find_channel :: "srd_decoder \<Rightarrow> string \<Rightarrow> srd_channel option" where
  "find_channel dec name =
     (case List.find (\<lambda>c. ch_id c = name) (dec_channels dec) of
        Some c \<Rightarrow> Some c
      | None \<Rightarrow> List.find (\<lambda>c. ch_id c = name) (dec_opt_channels dec))"

fun map_channels :: "srd_decoder \<Rightarrow> (string \<times> int option) list \<Rightarrow> int list \<Rightarrow>
    fault + int \<times> int list" where
  "map_channels dec [] chmap = Inr (SRD_OK, chmap)"
| "map_channels dec ((name, val) # rest) chmap =
     (case val of
        None \<Rightarrow> Inr (SRD_ERR_ARG, chmap)
      | Some num \<Rightarrow>
          (case find_channel dec name of
             None \<Rightarrow> Inr (SRD_ERR_ARG, chmap)
           | Some c \<Rightarrow> ebind (wr chmap (order c) num) (map_channels dec rest)))"

definition srd_inst_channel_set_all ::
  "(string \<times> int option) list \<Rightarrow> srd_decoder_inst \<Rightarrow> fault + int \<times> srd_decoder_inst" where
  "srd_inst_channel_set_all new_channels di =
     (if new_channels = [] then Inr (SRD_OK, di)
      else if dec_num_channels di = 0 then Inr (SRD_ERR_ARG, di)
      else ebind (map_channels (decoder di) new_channels (replicate (dec_num_channels di) (- 1)))
        (\<lambda>(ret, chmap).
        if ret \<noteq> SRD_OK then Inr (ret, di)
        else
          let num_required = length (dec_channels (decoder di)) in
          if length chmap < num_required then Inl OutOfBounds
          else if \<exists>i < num_required. chmap ! i = - 1 then Inr (SRD_ERR, di)
          else Inr (SRD_OK, di\<lparr>dec_channelmap := Some chmap\<rparr>)))"

text \<open>
  \<open>GArray.data\<close> points to plain \<open>char\<close>, signed on the targets the program is built
  for, so the sanity check compares signed values.
\<close>

definition srd_inst_initial_pins_set_all ::
  "u8 list option \<Rightarrow> srd_decoder_inst option \<Rightarrow> int \<times> srd_decoder_inst option" where
  "srd_inst_initial_pins_set_all initial_pins di_opt =
     (case di_opt of
        None \<Rightarrow> (SRD_ERR_ARG, None)
      | Some di \<Rightarrow>
          (case initial_pins of
             None \<Rightarrow> (SRD_ERR_ARG, Some di)
           | Some pins \<Rightarrow>
               if length pins \<noteq> dec_num_channels di then (SRD_ERR_ARG, Some di)
               else if \<not> list_all (\<lambda>v. sint v \<le> 2) pins then (SRD_ERR_ARG, Some di)
               else (SRD_OK, Some ((oldpins_array_seed di)\<lparr>old_pins_array :=
                 Some (pins @ drop (length pins) (the (old_pins_array (oldpins_array_seed di))))\<rparr>))))"

section \<open>Lookup and stacking\<close>

text \<open>The search in the list of instances stacked directly on one.\<close>

fun find_in_stack :: "inst_store \<Rightarrow> string \<Rightarrow> nat list \<Rightarrow> fault + nat option" where
  "find_in_stack h name [] = Inr None"
| "find_in_stack h name (p # ps) =
     ebind (deref h p) (\<lambda>di. if inst_id di = name then Inr (Some p) else find_in_stack h name ps)"

definition srd_inst_find_by_id_stack :: "inst_store \<Rightarrow> string \<Rightarrow> nat \<Rightarrow> fault + nat option" where
  "srd_inst_find_by_id_stack h name stack =
     ebind (deref h stack) (\<lambda>di.
     if inst_id di = name then Inr (Some stack) else find_in_stack h name (next_di di))"

fun find_in_roots :: "inst_store \<Rightarrow> string \<Rightarrow> nat list \<Rightarrow> fault + nat option" where
  "find_in_roots h name [] = Inr None"
| "find_in_roots h name (p # ps) =
     ebind (srd_inst_find_by_id_stack h name p) (\<lambda>r.
     case r of None \<Rightarrow> find_in_roots h name ps | Some q \<Rightarrow> Inr (Some q))"

definition srd_inst_find_by_id :: "srd_session option \<Rightarrow> string \<Rightarrow> fault + nat option" where
  "srd_inst_find_by_id sess name =
     (case sess of None \<Rightarrow> Inr None | Some s \<Rightarrow> find_in_roots (store s) name (di_list s))"

text \<open>\<open>srd_inst_stack\<close>; the comparison of outputs and inputs only decides a warning.\<close>

definition srd_inst_stack :: "nat option \<Rightarrow> nat option \<Rightarrow> srd_session option \<Rightarrow>
    fault + int \<times> srd_session option" where
  "srd_inst_stack di_bottom di_top sess =
     (case sess of
        None \<Rightarrow> Inr (SRD_ERR_ARG, None)
      | Some s \<Rightarrow>
          (case (di_bottom, di_top) of
             (Some b, Some t) \<Rightarrow>
               ebind (deref (store s) b) (\<lambda>bot.
               ebind (deref (store s) t) (\<lambda>top.
               if is_c_inst bot \<and> \<not> is_c_inst top then Inr (SRD_ERR_ARG, sess)
               else Inr (SRD_OK, Some (s\<lparr>di_list := remove1 t (di_list s),
                 store := (store s)(b \<mapsto> bot\<lparr>next_di := next_di bot @ [t]\<rparr>)\<rparr>))))
           | _ \<Rightarrow> Inr (SRD_ERR_ARG, sess)))"

section \<open>Creation\<close>

text \<open>
  The loop that looks for a free name \<open><decoder>-<i>\<close>, with fuel; the number of
  instances and one are enough.
\<close>

definition numbered_id :: "string \<Rightarrow> nat \<Rightarrow> string" where
  "numbered_id base i = base @ ''-'' @ dec_string i"

fun free_inst_id :: "nat \<Rightarrow> srd_session \<Rightarrow> string \<Rightarrow> nat \<Rightarrow> fault + string option" where
  "free_inst_id 0 sess base i = Inr None"
| "free_inst_id (Suc fuel) sess base i =
     ebind (srd_inst_find_by_id (Some sess) (numbered_id base i)) (\<lambda>r.
     case r of
       None \<Rightarrow> Inr (Some (numbered_id base i))
     | Some q \<Rightarrow> free_inst_id fuel sess base (Suc i))"

definition new_c_inst :: "srd_decoder \<Rightarrow> string \<Rightarrow> srd_decoder_inst" where
  "new_c_inst dec name =
     (let n = length (dec_channels dec) + length (dec_opt_channels dec) in
      \<lparr>dec_num_channels = n, condition_list = [], match_array = 0, abs_start_samplenum = 0,
       abs_end_samplenum = 0, inbuf = None, inbuf_const = None, inbuflen = 0,
       abs_cur_samplenum = 0, abs_cur_matched = False,
       old_pins_array = Some (replicate n SRD_INITIAL_PIN_SAME_AS_SAMPLE0), first_pos = False,
       skip_zero = False, dec_channelmap = if 0 < n then Some (map int [0..<n]) else None,
       decoder = dec, inst_id = name, next_di = [], thread_handle = False,
       got_new_samples = False, handled_all_samples = False, want_wait_terminate = False,
       decoder_state = SRD_OK, is_task_stop_signal = False, is_c_inst = True,
       c_pin_cache = None, c_pin_cache_samplenum = 0, c_pin_cache_inbuf_serial = 0,
       user_data = None, error_message = None, samplerate = 0, c_options = None,
       pd_output = [], last_samplenum = 0\<rparr>)"

text \<open>
  \<open>srd_inst_option_set\<close> for an instance of a C decoder: the entries go into the table of
  the instance, which is made on demand. For a Python decoder it is the parameter
  \<open>py_option_set\<close>.
\<close>

definition srd_inst_option_set ::
  "(srd_decoder_inst \<Rightarrow> int \<times> srd_decoder_inst) \<Rightarrow> (string \<times> gvariant) list \<Rightarrow>
   srd_decoder_inst option \<Rightarrow> int \<times> srd_decoder_inst option" where
  "srd_inst_option_set py_option_set options di_opt =
     (case di_opt of
        None \<Rightarrow> (SRD_ERR_ARG, None)
      | Some di \<Rightarrow>
          if is_c_inst di then
            let old = (case c_options di of None \<Rightarrow> [] | Some m \<Rightarrow> m) in
            (SRD_OK, Some (di\<lparr>c_options := Some (foldl (\<lambda>m (k, v). AList.update k v m) old options)\<rparr>))
          else map_prod id Some (py_option_set di))"

text \<open>
  \<open>create_c_decoder_inst\<close> at the fresh address \<open>p\<close>: \<open>id_option\<close> is the entry
  \<open>id\<close> of the options, \<open>options\<close> the rest of them (None for a NULL table) and
  \<open>reset\<close> the decoder's function, the identity when it has none. The result None is NULL.
\<close>

definition create_c_decoder_inst ::
  "(srd_decoder_inst \<Rightarrow> srd_decoder_inst) \<Rightarrow> nat \<Rightarrow> nat \<Rightarrow> string option \<Rightarrow>
   (string \<times> gvariant) list option \<Rightarrow> srd_decoder option \<Rightarrow> srd_session option \<Rightarrow>
   fault + nat option \<times> srd_session option" where
  "create_c_decoder_inst reset fuel p id_option options dec_opt sess =
     (case (sess, dec_opt) of
        (Some s, Some dec) \<Rightarrow>
          ebind (case id_option of
                   Some name \<Rightarrow> Inr (Some name)
                 | None \<Rightarrow> free_inst_id fuel s (dec_id dec) 1) (\<lambda>name.
          case name of
            None \<Rightarrow> Inr (None, sess)
          | Some n \<Rightarrow>
              let (ret, di) = (case options of
                    None \<Rightarrow> (SRD_OK, Some (new_c_inst dec n))
                  | Some opts \<Rightarrow> srd_inst_option_set (\<lambda>d. (SRD_ERR, d)) opts (Some (new_c_inst dec n))) in
              if ret \<noteq> SRD_OK then Inr (None, sess)
              else Inr (Some p, Some (s\<lparr>di_list := di_list s @ [p],
                store := (store s)(p \<mapsto> reset (the di))\<rparr>)))
      | _ \<Rightarrow> Inr (None, sess))"

section \<open>Start, reset, disposal\<close>

definition srd_inst_reset_state :: "srd_decoder_inst \<Rightarrow> srd_decoder_inst" where
  "srd_inst_reset_state di =
     (oldpins_array_free ((condition_list_free di)\<lparr>abs_start_samplenum := 0,
        abs_end_samplenum := 0, inbuf := None, inbuflen := 0, abs_cur_samplenum := 0\<rparr>))
     \<lparr>got_new_samples := False, handled_all_samples := False, want_wait_terminate := False,
      decoder_state := SRD_OK\<rparr>"

text \<open>
  \<open>srd_inst_join_decode_thread\<close>: the worker is told to stop and waited for; \<open>join\<close>
  is what it still does to the instance on its way out. Python decoders are only flagged.
\<close>

definition srd_inst_join_decode_thread ::
  "(srd_decoder_inst \<Rightarrow> srd_decoder_inst) \<Rightarrow> srd_decoder_inst \<Rightarrow> srd_decoder_inst" where
  "srd_inst_join_decode_thread join di =
     (if is_c_inst di then
        if \<not> thread_handle di then di
        else (join (di\<lparr>want_wait_terminate := True, is_task_stop_signal := True\<rparr>))
          \<lparr>thread_handle := False\<rparr>
      else di\<lparr>want_wait_terminate := True, is_task_stop_signal := True\<rparr>)"

text \<open>
  \<open>srd_inst_start\<close> and \<open>srd_inst_terminate_reset\<close> visit an instance and then the
  instances stacked on it, and stop at the first failure. A cyclic stack would recurse without
  end: the walk has fuel and running out of it is the fault \<open>StackOverflow\<close>.
\<close>

fun walk :: "(srd_decoder_inst \<Rightarrow> int \<times> srd_decoder_inst) \<Rightarrow> (srd_decoder_inst \<Rightarrow> int) \<Rightarrow>
      nat \<Rightarrow> nat \<Rightarrow> inst_store \<Rightarrow> fault + int \<times> inst_store"
  and walk_list :: "(srd_decoder_inst \<Rightarrow> int \<times> srd_decoder_inst) \<Rightarrow> (srd_decoder_inst \<Rightarrow> int) \<Rightarrow>
      nat \<Rightarrow> nat list \<Rightarrow> inst_store \<Rightarrow> fault + int \<times> inst_store" where
  "walk node ret 0 p h = Inl StackOverflow"
| "walk node ret (Suc fuel) p h =
     ebind (deref h p) (\<lambda>di.
     let (r, di') = node di in
     if r \<noteq> SRD_OK then Inr (r, h(p \<mapsto> di'))
     else ebind (walk_list node ret fuel (next_di di') (h(p \<mapsto> di'))) (\<lambda>(r', h').
       if r' \<noteq> SRD_OK then Inr (r', h') else Inr (ret di', h')))"
| "walk_list node ret fuel [] h = Inr (SRD_OK, h)"
| "walk_list node ret fuel (q # qs) h =
     ebind (walk node ret fuel q h) (\<lambda>(r, h').
     if r \<noteq> SRD_OK then Inr (r, h') else walk_list node ret fuel qs h')"

text \<open>
  One instance of \<open>srd_inst_start\<close>: \<open>start\<close> is the C decoder's function,
  \<open>py_start\<close> says whether the method of a Python decoder succeeds.
\<close>

abbreviation (input) SRD_ERR_PYTHON :: int where "SRD_ERR_PYTHON \<equiv> - 5"

definition start_node :: "(srd_decoder_inst \<Rightarrow> srd_decoder_inst) \<Rightarrow> (srd_decoder_inst \<Rightarrow> bool) \<Rightarrow>
    srd_decoder_inst \<Rightarrow> int \<times> srd_decoder_inst" where
  "start_node start py_start di =
     (let di' = di\<lparr>first_pos := True, abs_cur_matched := False, skip_zero := False\<rparr> in
      if is_c_inst di then (SRD_OK, start di')
      else if \<not> py_start di then (SRD_ERR_PYTHON, di)
      else (SRD_OK, di'))"

definition srd_inst_start :: "(srd_decoder_inst \<Rightarrow> srd_decoder_inst) \<Rightarrow>
    (srd_decoder_inst \<Rightarrow> bool) \<Rightarrow> nat \<Rightarrow> nat \<Rightarrow> inst_store \<Rightarrow> fault + int \<times> inst_store" where
  "srd_inst_start start py_start = walk (start_node start py_start) (\<lambda>di. SRD_OK)"

definition reset_node :: "(srd_decoder_inst \<Rightarrow> srd_decoder_inst) \<Rightarrow>
    (srd_decoder_inst \<Rightarrow> srd_decoder_inst) \<Rightarrow> srd_decoder_inst \<Rightarrow> int \<times> srd_decoder_inst" where
  "reset_node join reset di =
     (SRD_OK, reset (srd_inst_reset_state (srd_inst_join_decode_thread join di)))"

definition srd_inst_terminate_reset :: "(srd_decoder_inst \<Rightarrow> srd_decoder_inst) \<Rightarrow>
    (srd_decoder_inst \<Rightarrow> srd_decoder_inst) \<Rightarrow> nat \<Rightarrow> nat option \<Rightarrow> inst_store \<Rightarrow>
    fault + int \<times> inst_store" where
  "srd_inst_terminate_reset join reset fuel p h =
     (case p of None \<Rightarrow> Inr (SRD_ERR_ARG, h)
      | Some q \<Rightarrow> walk (reset_node join reset) decoder_state fuel q h)"

text \<open>\<open>srd_inst_free\<close> takes the instance out of the store; freeing one twice is a fault.\<close>

definition srd_inst_free :: "nat \<Rightarrow> inst_store \<Rightarrow> fault + inst_store" where
  "srd_inst_free p h = (case h p of None \<Rightarrow> Inl DoubleFree | Some di \<Rightarrow> Inr (h(p := None)))"

fun free_list :: "nat list \<Rightarrow> inst_store \<Rightarrow> fault + inst_store" where
  "free_list [] h = Inr h"
| "free_list (p # ps) h = ebind (srd_inst_free p h) (free_list ps)"

definition srd_inst_free_all :: "srd_session option \<Rightarrow> fault + srd_session option" where
  "srd_inst_free_all sess =
     (case sess of None \<Rightarrow> Inr None
      | Some s \<Rightarrow> ebind (free_list (di_list s) (store s)) (\<lambda>h. Inr (Some (s\<lparr>store := h\<rparr>))))"

section \<open>Submitting a chunk\<close>

text \<open>
  The part of \<open>srd_inst_decode\<close> up to the wait for the worker: Some status for an early
  return, None when the chunk was handed over.
\<close>

definition decode_submit :: "u64 \<Rightarrow> u64 \<Rightarrow> u8 list option list option \<Rightarrow> u8 list option \<Rightarrow> u64 \<Rightarrow>
    srd_decoder_inst \<Rightarrow> int option \<times> srd_decoder_inst" where
  "decode_submit start stop buf buf_const len di =
     (if buf = None then (Some SRD_ERR_ARG, di)
      else if len = 0 then (Some SRD_ERR_ARG, di)
      else
        let di1 = (if first_pos di then di\<lparr>abs_cur_samplenum := start\<rparr> else di) in
        if start \<noteq> abs_cur_samplenum di1 \<or> stop < start then (Some SRD_ERR_ARG, di1)
        else (None, di1\<lparr>thread_handle := True, abs_start_samplenum := start AND NOT 7,
          abs_end_samplenum := stop, inbuf := buf, inbuf_const := buf_const, inbuflen := len,
          got_new_samples := True, handled_all_samples := False\<rparr>))"

text \<open>The part after the wait.\<close>

definition decode_finish :: "srd_decoder_inst \<Rightarrow> (int \<times> string option) \<times> srd_decoder_inst" where
  "decode_finish di =
     (case error_message di of
        Some e \<Rightarrow> ((SRD_ERR_TERM_REQ, Some e), di\<lparr>error_message := None\<rparr>)
      | None \<Rightarrow> ((SRD_OK, None), di))"

end
