(* ===== verification/Srd_Api.thy ===== *)
theory Srd_Api
  imports Srd_Instance "HOL-Library.Log_Nat"
begin

text \<open>
  The interface a decoder written in C calls (\<open>libsigrokdecode/c_decoder_api.c\<close>): its
  outputs and what it puts on them, waiting with a variable argument list, reading pins and
  options. A callback of the frontend is recorded, with what it was called with, as a value of
  \<open>cb_call\<close>; a session a decoder instance belongs to is passed as the list of its
  callbacks, None for an instance without a session. Logging is left out.
\<close>

section \<open>Outputs\<close>

abbreviation (input) SRD_OUTPUT_ANN :: int where "SRD_OUTPUT_ANN \<equiv> 0"
abbreviation (input) SRD_OUTPUT_PROTO :: int where "SRD_OUTPUT_PROTO \<equiv> 1"
abbreviation (input) SRD_OUTPUT_BINARY :: int where "SRD_OUTPUT_BINARY \<equiv> 2"
abbreviation (input) SRD_OUTPUT_META :: int where "SRD_OUTPUT_META \<equiv> 3"
abbreviation (input) SRD_OUTPUT_LOGIC :: int where "SRD_OUTPUT_LOGIC \<equiv> 4"

abbreviation (input) DECODE_NUM_HEX_MAX_LEN :: nat where "DECODE_NUM_HEX_MAX_LEN \<equiv> 256"

record srd_c_annotation =
  c_ann_class :: int
  c_ann_type :: int
  c_ann_text :: "string list"
  c_str_number_hex :: string
  c_numberic_value :: u64

record srd_proto_data_annotation =
  ann_class :: int
  ann_type :: int
  str_number_hex :: string
  numberic_value :: u64
  ann_text :: "string list"

text \<open>
  What \<open>pdata.data\<close> points to. The metadata branch of \<open>c_decoder_put\<close> passes on the
  decoder's annotation, possibly NULL, which is the last constructor.
\<close>

datatype proto_payload =
    AnnData srd_proto_data_annotation
  | BinaryData int u64 "u8 list"
  | LogicData u32 int "u8 list"
  | MetaData int gvariant
  | RawAnnotation "srd_c_annotation option"

record srd_proto_data =
  pd_start_sample :: u64
  pd_end_sample :: u64
  pdo :: srd_pd_output
  payload :: proto_payload

type_synonym cb_call = "srd_pd_callback \<times> srd_proto_data"

fun srd_pd_output_callback_find_c :: "srd_pd_callback list option \<Rightarrow> int \<Rightarrow> srd_pd_callback option" where
  "srd_pd_output_callback_find_c None ty = None"
| "srd_pd_output_callback_find_c (Some cbs) ty = List.find (\<lambda>c. cb_output_type c = ty) cbs"

text \<open>\<open>g_slist_nth(list, n)\<close>: the index is unsigned, so a negative one is past the end.\<close>

definition slist_nth :: "'a list \<Rightarrow> int \<Rightarrow> 'a option" where
  "slist_nth xs n = (if 0 \<le> n \<and> n < int (length xs) then Some (xs ! nat n) else None)"

text \<open>The annotation the frontend sees: the type of its class, the number text cut to the buffer.\<close>

definition annotation_data :: "srd_decoder \<Rightarrow> srd_c_annotation \<Rightarrow> srd_proto_data_annotation" where
  "annotation_data dec ann =
     \<lparr>ann_class = c_ann_class ann,
      ann_type = (if 0 \<le> c_ann_class ann \<and> c_ann_class ann < int (length (dec_ann_types dec))
                  then dec_ann_types dec ! nat (c_ann_class ann) else c_ann_class ann),
      str_number_hex = take (DECODE_NUM_HEX_MAX_LEN - 1) (c_str_number_hex ann),
      numberic_value = c_numberic_value ann,
      ann_text = c_ann_text ann\<rparr>"

definition c_decoder_put :: "srd_pd_callback list option \<Rightarrow> u64 \<Rightarrow> u64 \<Rightarrow> int \<Rightarrow>
    srd_c_annotation option \<Rightarrow> srd_decoder_inst option \<Rightarrow> fault + int \<times> cb_call list" where
  "c_decoder_put sess start_s end_s output_id ann di_opt =
     (case di_opt of
        None \<Rightarrow> Inr (SRD_ERR_ARG, [])
      | Some di \<Rightarrow>
          (case slist_nth (pd_output di) output_id of
             None \<Rightarrow> Inr (SRD_ERR_ARG, [])
           | Some p \<Rightarrow>
               if output_type p = SRD_OUTPUT_ANN then
                 (case srd_pd_output_callback_find_c sess SRD_OUTPUT_ANN of
                    None \<Rightarrow> Inr (SRD_OK, [])
                  | Some c \<Rightarrow>
                      (case ann of
                         None \<Rightarrow> Inl NullDeref
                       | Some a \<Rightarrow> Inr (SRD_OK, [(c, \<lparr>pd_start_sample = start_s, pd_end_sample = end_s,
                           pdo = p, payload = AnnData (annotation_data (decoder di) a)\<rparr>)])))
               else if output_type p = SRD_OUTPUT_META then
                 (case srd_pd_output_callback_find_c sess SRD_OUTPUT_META of
                    None \<Rightarrow> Inr (SRD_OK, [])
                  | Some c \<Rightarrow> Inr (SRD_OK, [(c, \<lparr>pd_start_sample = start_s, pd_end_sample = end_s,
                      pdo = p, payload = RawAnnotation ann\<rparr>)]))
               else Inr (SRD_ERR_ARG, [])))"

text \<open>
  The four functions that put one kind of data share their frame: the instance, the output,
  its type (None when the function does not check it), the callback.
\<close>

definition put_frame :: "srd_pd_callback list option \<Rightarrow> int \<Rightarrow> bool \<Rightarrow> u64 \<Rightarrow> u64 \<Rightarrow> int \<Rightarrow>
    (srd_pd_output \<Rightarrow> proto_payload) \<Rightarrow> srd_decoder_inst option \<Rightarrow> int \<times> cb_call list" where
  "put_frame sess ty checked start_s end_s output_id data di_opt =
     (case di_opt of
        None \<Rightarrow> (SRD_ERR_ARG, [])
      | Some di \<Rightarrow>
          (case slist_nth (pd_output di) output_id of
             None \<Rightarrow> (SRD_ERR_ARG, [])
           | Some p \<Rightarrow>
               if checked \<and> output_type p \<noteq> ty then (SRD_ERR_ARG, [])
               else (SRD_OK,
                 case srd_pd_output_callback_find_c sess ty of
                   None \<Rightarrow> []
                 | Some c \<Rightarrow> [(c, \<lparr>pd_start_sample = start_s, pd_end_sample = end_s, pdo = p,
                     payload = data p\<rparr>)])))"

definition c_decoder_put_binary :: "srd_pd_callback list option \<Rightarrow> u64 \<Rightarrow> u64 \<Rightarrow> int \<Rightarrow> int \<Rightarrow>
    u64 \<Rightarrow> u8 list \<Rightarrow> srd_decoder_inst option \<Rightarrow> int \<times> cb_call list" where
  "c_decoder_put_binary sess start_s end_s output_id bin_class len data =
     put_frame sess SRD_OUTPUT_BINARY True start_s end_s output_id (\<lambda>p. BinaryData bin_class len data)"

definition c_decoder_put_logic :: "srd_pd_callback list option \<Rightarrow> u64 \<Rightarrow> u64 \<Rightarrow> int \<Rightarrow> u32 \<Rightarrow>
    u8 list \<Rightarrow> int \<Rightarrow> srd_decoder_inst option \<Rightarrow> int \<times> cb_call list" where
  "c_decoder_put_logic sess start_s end_s output_id channel_mask vals num_channels =
     put_frame sess SRD_OUTPUT_LOGIC True start_s end_s output_id
       (\<lambda>p. LogicData channel_mask num_channels vals)"

definition c_decoder_put_meta_int :: "srd_pd_callback list option \<Rightarrow> u64 \<Rightarrow> u64 \<Rightarrow> int \<Rightarrow> u64 \<Rightarrow>
    srd_decoder_inst option \<Rightarrow> int \<times> cb_call list" where
  "c_decoder_put_meta_int sess start_s end_s output_id val =
     put_frame sess SRD_OUTPUT_META False start_s end_s output_id (\<lambda>p. MetaData (pdo_id p) (GV_Int64 val))"

definition c_decoder_put_meta_double :: "srd_pd_callback list option \<Rightarrow> u64 \<Rightarrow> u64 \<Rightarrow> int \<Rightarrow>
    u64 \<Rightarrow> srd_decoder_inst option \<Rightarrow> int \<times> cb_call list" where
  "c_decoder_put_meta_double sess start_s end_s output_id val =
     put_frame sess SRD_OUTPUT_META False start_s end_s output_id (\<lambda>p. MetaData (pdo_id p) (GV_Double val))"

definition c_decoder_register_output :: "int \<Rightarrow> string option \<Rightarrow> srd_decoder_inst option \<Rightarrow>
    int \<times> srd_decoder_inst option" where
  "c_decoder_register_output ty proto di_opt =
     (case di_opt of
        None \<Rightarrow> (SRD_ERR_ARG, None)
      | Some di \<Rightarrow>
          let p = \<lparr>pdo_id = int (length (pd_output di)), output_type = ty,
                   proto_id = (case proto of None \<Rightarrow> [] | Some s \<Rightarrow> s),
                   meta_type = None, meta_name = None, meta_descr = None\<rparr>
          in (pdo_id p, Some (di\<lparr>pd_output := pd_output di @ [p]\<rparr>)))"

definition meta_type_of :: "string option \<Rightarrow> gvariant_type option" where
  "meta_type_of s =
     (if s = Some ''int'' then Some TYPE_INT64
      else if s = Some ''float'' \<or> s = Some ''double'' then Some TYPE_DOUBLE else None)"

definition or_empty :: "string option \<Rightarrow> string" where
  "or_empty s = (case s of None \<Rightarrow> [] | Some t \<Rightarrow> t)"

definition c_decoder_register_output_meta :: "int \<Rightarrow> string option \<Rightarrow> string option \<Rightarrow>
    string option \<Rightarrow> string option \<Rightarrow> srd_decoder_inst option \<Rightarrow> int \<times> srd_decoder_inst option" where
  "c_decoder_register_output_meta ty proto mtype name descr di_opt =
     (case di_opt of
        None \<Rightarrow> (SRD_ERR_ARG, None)
      | Some di0 \<Rightarrow>
          let (i, di_opt1) = c_decoder_register_output ty proto (Some di0) in
          if i < 0 then (i, di_opt1)
          else case di_opt1 of
            None \<Rightarrow> (SRD_ERR_ARG, None)
          | Some di \<Rightarrow>
              (case slist_nth (pd_output di) i of
                 None \<Rightarrow> (SRD_ERR_ARG, Some di)
               | Some p \<Rightarrow> (i, Some (di\<lparr>pd_output := (pd_output di)[nat i :=
                   p\<lparr>meta_type := meta_type_of mtype, meta_name := Some (or_empty name),
                     meta_descr := Some (or_empty descr)\<rparr>]\<rparr>))))"

section \<open>Waiting\<close>

text \<open>
  The variable arguments of \<open>c_wait\<close>: an \<open>int\<close> or, after a skip, a 64-bit count.
  Reading one where there is none, or at the other type, is undefined.
\<close>

datatype c_arg = ArgInt u32 | ArgU64 u64

abbreviation (input) CW_OR :: u32 where "CW_OR \<equiv> - 1"
abbreviation (input) CW_END :: u32 where "CW_END \<equiv> - 2"

text \<open>The macro \<open>_CW_ENC\<close>: type and channel in one \<open>int\<close>.\<close>

definition CW_ENC :: "u32 \<Rightarrow> u32 \<Rightarrow> u32" where
  "CW_ENC t c = push_bit 16 t OR (c AND 0xFFFF)"

definition term_type_of :: "u32 \<Rightarrow> srd_term_type" where
  "term_type_of t =
     (if t = 0 then SRD_TERM_HIGH else if t = 1 then SRD_TERM_LOW
      else if t = 2 then SRD_TERM_RISING_EDGE else if t = 3 then SRD_TERM_FALLING_EDGE
      else if t = 4 then SRD_TERM_EITHER_EDGE else if t = 5 then SRD_TERM_NO_EDGE
      else if t = 6 then SRD_TERM_SKIP else SRD_TERM_UNKNOWN (sint t))"

definition flush_and :: "srd_term list \<Rightarrow> srd_term list list \<Rightarrow> srd_term list list" where
  "flush_and current_and or_groups = (if current_and \<noteq> [] then or_groups @ [current_and] else or_groups)"

fun parse_wait_args :: "c_arg list \<Rightarrow> srd_term list \<Rightarrow> srd_term list list \<Rightarrow>
    fault + srd_term list list" where
  "parse_wait_args [] current_and or_groups = Inl BadVarArg"
| "parse_wait_args (ArgU64 n # args) current_and or_groups = Inl BadVarArg"
| "parse_wait_args (ArgInt arg # args) current_and or_groups =
     (if arg = CW_END then Inr (flush_and current_and or_groups)
      else if arg = CW_OR then parse_wait_args args [] (flush_and current_and or_groups)
      else
        let ty = term_type_of (drop_bit 16 arg AND 0xFFFF);
            ch = sint (arg AND 0xFFFF)
        in if ty = SRD_TERM_SKIP then
             (case args of
                ArgU64 n # rest \<Rightarrow> parse_wait_args rest (current_and @ [\<lparr>term_type = SRD_TERM_SKIP,
                  channel = - 1, num_samples_to_skip = n, num_samples_already_skipped = 0\<rparr>]) or_groups
              | _ \<Rightarrow> Inl BadVarArg)
           else parse_wait_args args (current_and @ [\<lparr>term_type = ty, channel = ch,
                  num_samples_to_skip = 0, num_samples_already_skipped = 0\<rparr>]) or_groups)"

text \<open>
  \<open>c_decoder_wait\<close> goes through the table of the runtime, which every instance of a C
  decoder has from its creation.
\<close>

definition c_decoder_wait :: "srd_term list list \<Rightarrow> srd_decoder_inst option \<Rightarrow>
    fault + wait_status \<times> srd_decoder_inst option" where
  "c_decoder_wait conds di_opt =
     (case di_opt of
        None \<Rightarrow> Inr (WaitDone SRD_ERR_ARG None, None)
      | Some di \<Rightarrow> if is_c_inst di then c_decoder_wait_impl conds (Some di)
                  else Inr (WaitDone SRD_ERR_ARG None, Some di))"

definition c_wait :: "c_arg list \<Rightarrow> srd_decoder_inst option \<Rightarrow>
    fault + wait_status \<times> srd_decoder_inst option" where
  "c_wait args di_opt =
     (case di_opt of
        None \<Rightarrow> Inr (WaitDone SRD_ERR_ARG None, None)
      | Some di \<Rightarrow> ebind (parse_wait_args args [] []) (\<lambda>conds. c_decoder_wait conds (Some di)))"

section \<open>Pins, channels and private data\<close>

definition c_decoder_get_initial_pin :: "int \<Rightarrow> srd_decoder_inst option \<Rightarrow> fault + u8" where
  "c_decoder_get_initial_pin ch di_opt =
     (case di_opt of
        None \<Rightarrow> Inr 0xFF
      | Some di \<Rightarrow>
          if ch < 0 then Inr 0xFF
          else case old_pins_array di of
            None \<Rightarrow> Inr 0xFF
          | Some pins \<Rightarrow> if int (dec_num_channels di) \<le> ch then Inr 0xFF else rd_int pins ch)"

definition c_decoder_has_channel :: "int \<Rightarrow> srd_decoder_inst option \<Rightarrow> fault + bool" where
  "c_decoder_has_channel ch di_opt =
     (case di_opt of
        None \<Rightarrow> Inr False
      | Some di \<Rightarrow>
          if ch < 0 \<or> int (dec_num_channels di) \<le> ch then Inr False
          else case dec_channelmap di of
            None \<Rightarrow> Inl NullDeref
          | Some chmap \<Rightarrow> ebind (rd_int chmap ch) (\<lambda>c. Inr (0 \<le> c)))"

definition c_pin :: "int \<Rightarrow> srd_decoder_inst option \<Rightarrow> fault + u8" where
  "c_pin ch di_opt =
     (case di_opt of
        None \<Rightarrow> Inr 0xFF
      | Some di \<Rightarrow>
          if ch < 0 then Inr 0xFF
          else if int (dec_num_channels di) \<le> ch then Inr 0xFF
          else case dec_channelmap di of
            None \<Rightarrow> Inl NullDeref
          | Some chmap \<Rightarrow> ebind (rd_int chmap ch) (\<lambda>c.
              if c < 0 then Inr 0xFF
              else case c_pin_cache di of None \<Rightarrow> Inr 0xFF | Some cache \<Rightarrow> rd_int cache ch))"

definition c_decoder_get_private :: "srd_decoder_inst option \<Rightarrow> nat option" where
  "c_decoder_get_private di_opt =
     (case di_opt of None \<Rightarrow> None
      | Some di \<Rightarrow> if is_c_inst di then c_decoder_get_private_impl (Some di) else user_data di)"

definition c_decoder_set_private :: "nat option \<Rightarrow> srd_decoder_inst option \<Rightarrow> srd_decoder_inst option" where
  "c_decoder_set_private p di_opt =
     (case di_opt of None \<Rightarrow> None
      | Some di \<Rightarrow> if is_c_inst di then c_decoder_set_private_impl (Some di) p
                  else Some (di\<lparr>user_data := p\<rparr>))"

definition c_decoder_get_samplerate :: "srd_decoder_inst option \<Rightarrow> u64" where
  "c_decoder_get_samplerate di_opt = (case di_opt of None \<Rightarrow> 0 | Some di \<Rightarrow> samplerate di)"

definition c_decoder_get_last_samplenum :: "srd_decoder_inst option \<Rightarrow> u64" where
  "c_decoder_get_last_samplenum di_opt = (case di_opt of None \<Rightarrow> 0 | Some di \<Rightarrow> last_samplenum di)"

section \<open>Options\<close>

text \<open>
  The casts between \<open>double\<close> and \<open>int64_t\<close> on bit patterns: to an integer by
  truncation, undefined for values the integer type cannot hold; to a double by rounding to the
  nearest, ties to even.
\<close>

definition double_to_int64 :: "u64 \<Rightarrow> fault + u64" where
  "double_to_int64 x =
     (let e = unat x div 2 ^ 52 mod 2 ^ 11;
          m = int (unat x mod 2 ^ 52);
          s = (if 2 ^ 63 \<le> unat x then - 1 else 1 :: int);
          mag = (if e = 0 then 0
                 else if 1075 \<le> e then (2 ^ 52 + m) * 2 ^ (e - 1075)
                 else (2 ^ 52 + m) div 2 ^ (1075 - e))
      in if e = 0x7FF \<or> s * mag < - (2 ^ 63) \<or> 2 ^ 63 \<le> s * mag then Inl BadConversion
         else Inr (word_of_int (s * mag)))"

text \<open>\<open>round_bits d a\<close> is \<open>a / 2 ^ d\<close> rounded to the nearest, ties to even.\<close>

definition round_bits :: "nat \<Rightarrow> nat \<Rightarrow> nat" where
  "round_bits d a =
     (if d = 0 then a
      else let q = a div 2 ^ d; r = a mod 2 ^ d; half = 2 ^ (d - 1)
           in if half < r \<or> (r = half \<and> odd q) then q + 1 else q)"

definition int_to_double :: "int \<Rightarrow> u64" where
  "int_to_double v =
     (if v = 0 then 0
      else let a = nat \<bar>v\<bar>; k = floorlog 2 a - 1;
               m = (if k \<le> 52 then a * 2 ^ (52 - k) else round_bits (k - 52) a)
           in word_of_nat ((if v < 0 then 2 ^ 63 else 0) + (k + 1022) * 2 ^ 52 + m))"

definition option_value :: "string option \<Rightarrow> srd_decoder_inst option \<Rightarrow> gvariant option" where
  "option_value key di_opt =
     (case (di_opt, key) of
        (Some di, Some k) \<Rightarrow> (case c_options di of None \<Rightarrow> None | Some opts \<Rightarrow> map_of opts k)
      | _ \<Rightarrow> None)"

definition c_decoder_get_option_int :: "string option \<Rightarrow> u64 \<Rightarrow> srd_decoder_inst option \<Rightarrow>
    fault + u64" where
  "c_decoder_get_option_int key defval di_opt =
     (case option_value key di_opt of
        None \<Rightarrow> Inr defval
      | Some (GV_Int64 v) \<Rightarrow> Inr v
      | Some (GV_Uint64 v) \<Rightarrow> Inr v
      | Some (GV_Int32 v) \<Rightarrow> Inr (scast v)
      | Some (GV_Uint32 v) \<Rightarrow> Inr (ucast v)
      | Some (GV_Double v) \<Rightarrow> double_to_int64 v
      | Some (GV_String v) \<Rightarrow> Inr defval)"

definition c_decoder_get_option_double :: "string option \<Rightarrow> u64 \<Rightarrow> srd_decoder_inst option \<Rightarrow> u64" where
  "c_decoder_get_option_double key defval di_opt =
     (case option_value key di_opt of
        Some (GV_Double v) \<Rightarrow> v
      | Some (GV_Int64 v) \<Rightarrow> int_to_double (sint v)
      | Some (GV_Uint64 v) \<Rightarrow> int_to_double (uint v)
      | _ \<Rightarrow> defval)"

definition c_decoder_get_option_string :: "string option \<Rightarrow> string option \<Rightarrow>
    srd_decoder_inst option \<Rightarrow> string option" where
  "c_decoder_get_option_string key defval di_opt =
     (case option_value key di_opt of Some (GV_String v) \<Rightarrow> Some v | _ \<Rightarrow> defval)"

definition c_opt_bool :: "string option \<Rightarrow> int \<Rightarrow> srd_decoder_inst option \<Rightarrow> int" where
  "c_opt_bool key defval di_opt =
     (case c_decoder_get_option_string key None di_opt of
        None \<Rightarrow> defval
      | Some val \<Rightarrow>
          if val = ''yes'' \<or> val = ''true'' \<or> val = ''1'' then 1
          else if val = ''no'' \<or> val = ''false'' \<or> val = ''0'' then 0
          else defval)"

section \<open>Stacked decoders\<close>

text \<open>
  The fields of a protocol message, one constructor for each value of \<open>c_field_type\<close>; the
  sentinel ends the argument list.
\<close>

datatype c_field =
    C_U8 u8 | C_U16 u16 | C_U32 u32 | C_U64 u64
  | C_I8 u8 | C_I16 u16 | C_I32 u32 | C_I64 u64
  | C_F64 u64 | C_STR string | C_BYTES "u8 list"
  | C_END

text \<open>
  The first loop of \<open>c_proto\<close>: at most 64 fields are read, and a list that is not ended by
  then is cut there; one that stops earlier without the sentinel is read past its end.
\<close>

fun collect_fields :: "nat \<Rightarrow> c_field list \<Rightarrow> fault + c_field list" where
  "collect_fields 0 args = Inr []"
| "collect_fields (Suc room) [] = Inl BadVarArg"
| "collect_fields (Suc room) (C_END # args) = Inr []"
| "collect_fields (Suc room) (f # args) =
     ebind (collect_fields room args) (\<lambda>fs. Inr (f # fs))"

text \<open>
  A message handed to a stacked decoder: its address, the range, the command and the fields.
  What \<open>decode_upper\<close> makes of it is the code of that decoder; \<open>has_upper\<close> says
  which instances have the function.
\<close>

record upper_call =
  upper_di :: nat
  upper_start :: u64
  upper_end :: u64
  upper_cmd :: string
  upper_fields :: "c_field list"

fun dispatch_upper :: "(srd_decoder_inst \<Rightarrow> bool) \<Rightarrow> inst_store \<Rightarrow> u64 \<Rightarrow> u64 \<Rightarrow> string \<Rightarrow>
    c_field list \<Rightarrow> nat list \<Rightarrow> fault + upper_call list" where
  "dispatch_upper has_upper h start_s end_s cmd fs [] = Inr []"
| "dispatch_upper has_upper h start_s end_s cmd fs (q # qs) =
     ebind (deref h q) (\<lambda>top.
     ebind (dispatch_upper has_upper h start_s end_s cmd fs qs) (\<lambda>calls.
     Inr (if is_c_inst top \<and> has_upper top
          then \<lparr>upper_di = q, upper_start = start_s, upper_end = end_s, upper_cmd = cmd,
                upper_fields = fs\<rparr> # calls
          else calls)))"

definition c_proto :: "(srd_decoder_inst \<Rightarrow> bool) \<Rightarrow> inst_store \<Rightarrow> u64 \<Rightarrow> u64 \<Rightarrow> int \<Rightarrow> string \<Rightarrow>
    c_field list \<Rightarrow> srd_decoder_inst option \<Rightarrow> fault + int \<times> upper_call list" where
  "c_proto has_upper h start_s end_s output_id cmd args di_opt =
     (case di_opt of
        None \<Rightarrow> Inr (SRD_ERR_ARG, [])
      | Some di \<Rightarrow>
          ebind (collect_fields 64 args) (\<lambda>fs.
          case slist_nth (pd_output di) output_id of
            None \<Rightarrow> Inr (SRD_ERR_ARG, [])
          | Some p \<Rightarrow>
              if output_type p = SRD_OUTPUT_PROTO then
                ebind (dispatch_upper has_upper h start_s end_s cmd fs (next_di di)) (\<lambda>calls.
                Inr (SRD_OK, calls))
              else Inr (SRD_OK, [])))"

end
