(* ===== verification/Srd_Handshake.thy ===== *)
theory Srd_Handshake
  imports Srd_Instance
begin

text \<open>
  The two threads of one decoder stack (\<open>srd_inst_decode\<close>, \<open>c_decoder_wait_impl\<close>,
  \<open>c_di_thread\<close>, \<open>srd_inst_join_decode_thread\<close>): the caller hands over a chunk and waits,
  the worker runs the decoder, which calls wait and gets matches or sleeps. Every critical
  section under the mutex of the instance is one step; the condition variables show up as the
  enabledness of the steps.
\<close>

section \<open>The step relation\<close>

datatype main_pc = MainIdle | MainWaiting | MainJoining

datatype worker_pc = NoWorker | WorkerRunning | WorkerInWait | WorkerEnded

type_synonym handshake = "srd_decoder_inst \<times> main_pc \<times> worker_pc"

text \<open>
  In the order of the rules: a chunk is refused; it is handed over, by creating the worker if
  there is none; the caller leaves \<open>srd_inst_decode\<close>; the decoder calls wait; one round of
  the wait; the decoder changes its own data or reports an error; the decoder returns; the
  caller asks the worker to stop; the worker has ended and the instance is reset.
\<close>

inductive handshake_step :: "handshake \<Rightarrow> handshake \<Rightarrow> bool" where
  refuse: "decode_submit s e buf bufc n di = (Some r, di') \<Longrightarrow>
    handshake_step (di, MainIdle, w) (di', MainIdle, w)"
| submit: "decode_submit s e buf bufc n di = (None, di') \<Longrightarrow>
    handshake_step (di, MainIdle, w)
      (di', MainWaiting, if thread_handle di then w else WorkerRunning)"
| leave: "handled_all_samples di \<or> want_wait_terminate di \<Longrightarrow> decode_finish di = (r, di') \<Longrightarrow>
    handshake_step (di, MainWaiting, w) (di', MainIdle, w)"
| call_wait: "handshake_step (di, m, WorkerRunning) (install_conditions conds di, m, WorkerInWait)"
| round: "wait_round di = Inr (st, di') \<Longrightarrow>
    handshake_step (di, m, WorkerInWait)
      (di', m, case st of WaitAgain \<Rightarrow> WorkerInWait | WaitDone r x \<Rightarrow> WorkerRunning)"
| decoder_data: "handshake_step (di, m, WorkerRunning)
      (di\<lparr>user_data := u, error_message := err\<rparr>, m, WorkerRunning)"
| decoder_returns: "handshake_step (di, m, WorkerRunning)
      (di\<lparr>want_wait_terminate := True, handled_all_samples := True\<rparr>, m, WorkerEnded)"
| join_request: "thread_handle di \<Longrightarrow> handshake_step (di, MainIdle, w)
      (di\<lparr>want_wait_terminate := True, is_task_stop_signal := True\<rparr>, MainJoining, w)"
| join_done: "handshake_step (di, MainJoining, WorkerEnded)
      (srd_inst_reset_state (di\<lparr>thread_handle := False\<rparr>), MainIdle, NoWorker)"

inductive_cases handshake_stepE: "handshake_step (di, m, w) t"

text \<open>The instance as it is created and started.\<close>

definition handshake_init :: "handshake \<Rightarrow> bool" where
  "handshake_init s \<longleftrightarrow> (case s of (di, m, w) \<Rightarrow> m = MainIdle \<and> w = NoWorker
     \<and> \<not> thread_handle di \<and> \<not> want_wait_terminate di \<and> \<not> handled_all_samples di
     \<and> \<not> got_new_samples di \<and> inbuf di = None)"

abbreviation handshake_reach :: "handshake \<Rightarrow> bool" where
  "handshake_reach \<equiv> reach handshake_init handshake_step"

section \<open>The invariant\<close>

definition active :: "worker_pc \<Rightarrow> bool" where
  "active w \<longleftrightarrow> w = WorkerRunning \<or> w = WorkerInWait"

definition handshake_inv :: "handshake \<Rightarrow> bool" where
  "handshake_inv s \<longleftrightarrow> (case s of (di, m, w) \<Rightarrow>
     (thread_handle di \<longleftrightarrow> w \<noteq> NoWorker)
     \<and> (m \<noteq> MainIdle \<longrightarrow> w \<noteq> NoWorker)
     \<and> (want_wait_terminate di \<longrightarrow> m = MainJoining \<or> w = WorkerEnded)
     \<and> (m = MainJoining \<or> w = WorkerEnded \<longrightarrow> want_wait_terminate di)
     \<and> (active w \<and> handled_all_samples di \<longrightarrow> inbuf di = None \<and> \<not> got_new_samples di)
     \<and> (active w \<and> m \<noteq> MainWaiting \<longrightarrow> handled_all_samples di)
     \<and> (active w \<and> m = MainWaiting \<and> \<not> handled_all_samples di \<longrightarrow> got_new_samples di))"

text \<open>What a round of waiting does to the fields of the handshake.\<close>

lemma fixed_fields:
  assumes "fixed_part (di' :: srd_decoder_inst) = fixed_part di"
  shows "thread_handle di' = thread_handle di" "want_wait_terminate di' = want_wait_terminate di"
    "handled_all_samples di' = handled_all_samples di" "got_new_samples di' = got_new_samples di"
  using assms by (cases di; cases di'; simp add: fixed_part_def)+

lemma process_fields:
  assumes "process_samples_until_condition_match di = Inr (r, found, di')"
  shows "thread_handle di' = thread_handle di" "want_wait_terminate di' = want_wait_terminate di"
    "handled_all_samples di' = handled_all_samples di" "got_new_samples di' = got_new_samples di"
proof -
  have "fixed_part di' = fixed_part di"
    using assms process_loop_fixed
    by (auto simp: process_samples_until_condition_match_def ebind_eq_Inr split: if_splits)
  from fixed_fields [OF this] show "thread_handle di' = thread_handle di"
    "want_wait_terminate di' = want_wait_terminate di"
    "handled_all_samples di' = handled_all_samples di" "got_new_samples di' = got_new_samples di"
    by blast+
qed

lemma fill_pin_cache_fields:
  assumes "fill_pin_cache di = Inr di'"
  shows "thread_handle di' = thread_handle di" "want_wait_terminate di' = want_wait_terminate di"
    "handled_all_samples di' = handled_all_samples di" "got_new_samples di' = got_new_samples di"
    "inbuf di' = inbuf di"
  using assms
  by (auto simp: fill_pin_cache_def Let_def ebind_eq_Inr split: option.splits if_splits)


lemma wait_round_cases:
  assumes "wait_round di = Inr (st, di')"
  obtains (asleep) "\<not> got_new_samples di" "\<not> want_wait_terminate di" "st = WaitAgain" "di' = di"
  | (stopped) "want_wait_terminate di" "st = WaitDone SRD_ERR_TERM_REQ None" "di' = di"
  | (matched) x where "got_new_samples di" "\<not> want_wait_terminate di" "st = WaitDone SRD_OK (Some x)"
      "thread_handle di' = thread_handle di" "want_wait_terminate di' = want_wait_terminate di"
      "handled_all_samples di' = handled_all_samples di" "got_new_samples di' = got_new_samples di"
  | (drained) "got_new_samples di" "\<not> want_wait_terminate di" "st = WaitAgain" "\<not> want_wait_terminate di'"
      "inbuf di' = None" "handled_all_samples di'" "\<not> got_new_samples di'"
      "thread_handle di' = thread_handle di"
proof -
  consider "\<not> got_new_samples di" "\<not> want_wait_terminate di" | "want_wait_terminate di"
    | "got_new_samples di" "\<not> want_wait_terminate di" by blast
  then show thesis
  proof cases
    case 3
    with assms obtain r found di1 where
      p: "process_samples_until_condition_match di = Inr (r, found, di1)"
      by (auto simp: wait_round_def ebind_eq_Inr)
    show thesis
    proof (cases found)
      case True
      with 3 p assms obtain di2 where f: "fill_pin_cache (di1\<lparr>first_pos := False\<rparr>) = Inr di2"
        "st = WaitDone SRD_OK (Some (abs_cur_samplenum di2, match_array di2))" "di' = di2"
        by (auto simp: wait_round_def ebind_eq_Inr)
      show thesis
        by (rule matched) (use 3 f(2,3) fill_pin_cache_fields [OF f(1)] process_fields [OF p] in simp_all)
    next
      case False
      with 3 p assms process_fields(2) [OF p] have "st = WaitAgain" "di' = drop_chunk di1"
        by (auto simp: wait_round_def drop_chunk_def Let_def)
      then show thesis
        by (intro drained) (use 3 process_fields [OF p] in \<open>simp_all add: drop_chunk_def\<close>)
    qed
  qed (use assms in \<open>auto simp: wait_round_def intro: that\<close>)
qed

lemma install_conditions_fields [simp]:
  "thread_handle (install_conditions c di) = thread_handle di"
  "want_wait_terminate (install_conditions c di) = want_wait_terminate di"
  "handled_all_samples (install_conditions c di) = handled_all_samples di"
  "got_new_samples (install_conditions c di) = got_new_samples di"
  "inbuf (install_conditions c di) = inbuf di"
  by (simp_all add: install_conditions_def condition_list_free_def)

lemma reset_state_fields [simp]:
  "thread_handle (srd_inst_reset_state di) = thread_handle di"
  "\<not> want_wait_terminate (srd_inst_reset_state di)"
  "\<not> handled_all_samples (srd_inst_reset_state di)"
  "\<not> got_new_samples (srd_inst_reset_state di)"
  "inbuf (srd_inst_reset_state di) = None"
  "condition_list (srd_inst_reset_state di) = []"
  "abs_cur_samplenum (srd_inst_reset_state di) = 0"
  "old_pins_array (srd_inst_reset_state di) = None"
  "decoder_state (srd_inst_reset_state di) = SRD_OK"
  "next_di (srd_inst_reset_state di) = next_di di"
  by (simp_all add: srd_inst_reset_state_def condition_list_free_def oldpins_array_free_def)

lemma handshake_step_inv:
  assumes "handshake_inv s" "handshake_step s t"
  shows "handshake_inv t"
  using assms(2,1)
proof cases
  case (round di st di' m)
  from round(3) show ?thesis
    by (cases rule: wait_round_cases)
      (use assms(1) round(1,2) in \<open>auto simp: handshake_inv_def active_def\<close>)
qed (auto simp: handshake_inv_def active_def decode_submit_def decode_finish_def Let_def
    split: if_splits option.splits)

interpretation handshake: transition_system handshake_init handshake_step handshake_inv
proof
  show "handshake_init s \<Longrightarrow> handshake_inv s" for s
    by (auto simp: handshake_init_def handshake_inv_def active_def)
qed (rule handshake_step_inv)

end
