(* ===== verification/Srd_Instance_Props.thy ===== *)
theory Srd_Instance_Props
  imports Srd_Handshake
begin

text \<open>
  What the operations on decoder instances guarantee: fresh names, the channel map, the reset
  of a whole stack, and the ownership of the sample buffers between the two threads.
\<close>

section \<open>Looking up instances\<close>

text \<open>Every pointer the lookup follows is live.\<close>

definition session_ok :: "srd_session \<Rightarrow> bool" where
  "session_ok s \<longleftrightarrow> (\<forall>p \<in> set (di_list s). case store s p of None \<Rightarrow> False
     | Some di \<Rightarrow> \<forall>q \<in> set (next_di di). store s q \<noteq> None)"

text \<open>The names the lookup can see: the roots and the instances directly on a root.\<close>

definition stack_names :: "inst_store \<Rightarrow> nat \<Rightarrow> string list" where
  "stack_names h p = (case h p of None \<Rightarrow> []
     | Some di \<Rightarrow> inst_id di # map (\<lambda>q. inst_id (the (h q))) (next_di di))"

definition visible_names :: "srd_session \<Rightarrow> string list" where
  "visible_names s = concat (map (stack_names (store s)) (di_list s))"

lemma find_in_stack_spec:
  "\<forall>q \<in> set qs. h q \<noteq> None \<Longrightarrow> \<exists>r. find_in_stack h name qs = Inr r
     \<and> (r = None \<longleftrightarrow> name \<notin> set (map (\<lambda>q. inst_id (the (h q))) qs))"
  by (induction qs) (auto simp: deref_def split: option.splits)

lemma find_by_id_stack_spec:
  assumes "h p = Some di" "\<forall>q \<in> set (next_di di). h q \<noteq> None"
  shows "\<exists>r. srd_inst_find_by_id_stack h name p = Inr r \<and> (r = None \<longleftrightarrow> name \<notin> set (stack_names h p))"
  using assms find_in_stack_spec [OF assms(2), of name]
  by (auto simp: srd_inst_find_by_id_stack_def stack_names_def)

lemma find_in_roots_spec:
  assumes "\<forall>p \<in> set ps. case h p of None \<Rightarrow> False | Some di \<Rightarrow> \<forall>q \<in> set (next_di di). h q \<noteq> None"
  shows "\<exists>r. find_in_roots h name ps = Inr r
    \<and> (r = None \<longleftrightarrow> name \<notin> set (concat (map (stack_names h) ps)))"
  using assms
proof (induction ps)
  case (Cons p ps)
  from Cons.prems obtain di where di: "h p = Some di" "\<forall>q \<in> set (next_di di). h q \<noteq> None"
    by (auto split: option.splits)
  from find_by_id_stack_spec [OF this, of name] Cons show ?case
    by (auto split: option.splits)
qed simp

lemma find_by_id_spec:
  "session_ok s \<Longrightarrow> \<exists>r. srd_inst_find_by_id (Some s) name = Inr r
     \<and> (r = None \<longleftrightarrow> name \<notin> set (visible_names s))"
  using find_in_roots_spec [of "di_list s" "store s" name]
  by (simp add: session_ok_def srd_inst_find_by_id_def visible_names_def)

section \<open>Fresh names\<close>

lemma numbered_id_inj: "numbered_id base i = numbered_id base j \<Longrightarrow> i = j"
proof -
  assume "numbered_id base i = numbered_id base j"
  then have "dec_val (dec_string i) = dec_val (dec_string j)" by (simp add: numbered_id_def)
  then show ?thesis by simp
qed

lemma free_inst_id_spec:
  assumes "session_ok s"
  shows "\<exists>r. free_inst_id fuel s base i = Inr r
    \<and> (case r of None \<Rightarrow> \<forall>k < fuel. numbered_id base (i + k) \<in> set (visible_names s)
       | Some n \<Rightarrow> n \<notin> set (visible_names s))"
proof (induction fuel arbitrary: i)
  case (Suc fuel)
  obtain r where r: "srd_inst_find_by_id (Some s) (numbered_id base i) = Inr r"
    "r = None \<longleftrightarrow> numbered_id base i \<notin> set (visible_names s)"
    using find_by_id_spec [OF assms] by blast
  show ?case
  proof (cases r)
    case None
    then show ?thesis using r by simp
  next
    case (Some q)
    obtain r' where r': "free_inst_id fuel s base (Suc i) = Inr r'"
      "case r' of None \<Rightarrow> \<forall>k < fuel. numbered_id base (Suc i + k) \<in> set (visible_names s)
       | Some n \<Rightarrow> n \<notin> set (visible_names s)"
      using Suc.IH by blast
    have "numbered_id base (i + k) \<in> set (visible_names s)" if "r' = None" "k < Suc fuel" for k
      using that r' r Some by (cases k) auto
    with r r' Some show ?thesis by (auto split: option.splits)
  qed
qed simp

lemma free_inst_id_found:
  assumes "session_ok s" "length (visible_names s) < fuel"
  shows "\<exists>n. free_inst_id fuel s base i = Inr (Some n) \<and> n \<notin> set (visible_names s)"
proof -
  obtain r where r: "free_inst_id fuel s base i = Inr r"
    "case r of None \<Rightarrow> \<forall>k < fuel. numbered_id base (i + k) \<in> set (visible_names s)
       | Some n \<Rightarrow> n \<notin> set (visible_names s)"
    using free_inst_id_spec [OF assms(1)] by blast
  have "r \<noteq> None"
  proof
    assume "r = None"
    with r(2) have "(\<lambda>k. numbered_id base (i + k)) ` {..<fuel} \<subseteq> set (visible_names s)" by auto
    moreover have "inj_on (\<lambda>k. numbered_id base (i + k)) {..<fuel}"
      by (auto simp: inj_on_def dest: numbered_id_inj)
    ultimately have "fuel \<le> card (set (visible_names s))"
      by (metis List.finite_set card_image card_lessThan card_mono)
    with assms(2) card_length [of "visible_names s"] show False by linarith
  qed
  with r show ?thesis by auto
qed

text \<open>C31: Fresh instance. Without an explicit name a new C decoder instance is always
  created, under a name \<open><decoder>-<i>\<close> that no instance the lookup sees has; the lookup
  then finds exactly the new instance under it, at the end of the session's list.\<close>

theorem create_c_decoder_inst_fresh:
  assumes "session_ok s" "store s p = None" "length (visible_names s) < fuel"
    and "\<And>d. inst_id (reset d) = inst_id d" "\<And>d. next_di (reset d) = next_di d"
  shows "\<exists>n s'. create_c_decoder_inst reset fuel p None None (Some dec) (Some s) = Inr (Some p, Some s')
    \<and> n \<notin> set (visible_names s) \<and> srd_inst_find_by_id (Some s') n = Inr (Some p)
    \<and> di_list s' = di_list s @ [p] \<and> session_ok s'"
proof -
  obtain n where n: "free_inst_id fuel s (dec_id dec) 1 = Inr (Some n)" "n \<notin> set (visible_names s)"
    using free_inst_id_found [OF assms(1,3)] by blast
  define h where "h = (store s)(p \<mapsto> reset (new_c_inst dec n))"
  then have h_p: "h p = Some (reset (new_c_inst dec n))" and h_q: "q \<noteq> p \<Longrightarrow> h q = store s q" for q
    by simp_all
  let ?s = "s\<lparr>di_list := di_list s @ [p], store := h\<rparr>"
  have create: "create_c_decoder_inst reset fuel p None None (Some dec) (Some s) = Inr (Some p, Some ?s)"
    by (simp add: create_c_decoder_inst_def n(1) [simplified] h_def)
  have new: "inst_id (reset (new_c_inst dec n)) = n" "next_di (reset (new_c_inst dec n)) = []"
    by (simp_all add: assms(4,5) new_c_inst_def Let_def)
  have ok: "\<forall>r \<in> set (di_list s). case store s r of None \<Rightarrow> False | Some di \<Rightarrow> r \<noteq> p \<and>
      (\<forall>q \<in> set (next_di di). store s q \<noteq> None \<and> q \<noteq> p)"
    using assms(1,2) by (fastforce simp: session_ok_def split: option.splits)
  have old: "find_in_roots h n (rs @ [p]) = Inr (Some p)" if "set rs \<subseteq> set (di_list s)" for rs
    using that
  proof (induction rs)
    case Nil
    then show ?case by (simp add: srd_inst_find_by_id_stack_def new h_p)
  next
    case (Cons r rs)
    from Cons.prems ok obtain di where di: "store s r = Some di" "r \<noteq> p"
      "\<forall>q \<in> set (next_di di). store s q \<noteq> None \<and> q \<noteq> p"
      by (fastforce split: option.splits)
    then have h: "h r = Some di" "\<forall>q \<in> set (next_di di). h q \<noteq> None" by (auto simp: h_q)
    have "stack_names h r = stack_names (store s) r" using di by (auto simp: stack_names_def h_q)
    moreover have "n \<notin> set (stack_names (store s) r)"
      using n(2) Cons.prems by (auto simp: visible_names_def)
    moreover obtain r0 where "srd_inst_find_by_id_stack h n r = Inr r0"
      "r0 = None \<longleftrightarrow> n \<notin> set (stack_names h r)"
      using find_by_id_stack_spec [OF h, of n] by blast
    ultimately have "srd_inst_find_by_id_stack h n r = Inr None" by simp
    with Cons show ?case by simp
  qed
  have "session_ok ?s"
    using ok new by (auto simp: session_ok_def h_def split: option.splits)
  with create n(2) old [OF subset_refl] show ?thesis
    by (auto simp: srd_inst_find_by_id_def)
qed


section \<open>The channel map\<close>

text \<open>A decoder's channels carry their positions and different names.\<close>

definition all_channels :: "srd_decoder \<Rightarrow> srd_channel list" where
  "all_channels dec = dec_channels dec @ dec_opt_channels dec"

definition channels_ok :: "srd_decoder \<Rightarrow> bool" where
  "channels_ok dec \<longleftrightarrow> map order (all_channels dec) = [0..<length (all_channels dec)]
     \<and> distinct (map ch_id (all_channels dec))"

lemma channels_order:
  "channels_ok dec \<Longrightarrow> i < length (all_channels dec) \<Longrightarrow> order (all_channels dec ! i) = i"
  by (metis (no_types, lifting) add_0 channels_ok_def length_map nth_map nth_upt diff_zero)

lemma channels_distinct:
  assumes "channels_ok dec" "c \<in> set (all_channels dec)" "d \<in> set (all_channels dec)"
  shows "d = c \<longleftrightarrow> ch_id d = ch_id c" "order d = order c \<longleftrightarrow> d = c"
proof -
  have "distinct (map order (all_channels dec))"
    using assms(1) distinct_upt unfolding channels_ok_def by metis
  then have "inj_on order (set (all_channels dec))" "inj_on ch_id (set (all_channels dec))"
    using assms(1) by (simp_all add: distinct_map channels_ok_def)
  with assms(2,3) show "d = c \<longleftrightarrow> ch_id d = ch_id c" "order d = order c \<longleftrightarrow> d = c"
    by (auto dest: inj_onD)
qed

lemma find_channel_some:
  assumes "find_channel dec name = Some c"
  shows "c \<in> set (all_channels dec)" "ch_id c = name"
  using assms by (auto simp: find_channel_def find_Some_iff all_channels_def split: option.splits)

lemma map_channels_spec:
  assumes "channels_ok dec" "distinct (map fst entries)"
    "length chmap = length (all_channels dec)"
    "map_channels dec entries chmap = Inr (SRD_OK, chmap')"
  shows "length chmap' = length chmap \<and> (\<forall>c \<in> set (all_channels dec).
    chmap' ! order c = (case map_of entries (ch_id c) of Some (Some v) \<Rightarrow> v | _ \<Rightarrow> chmap ! order c))"
  using assms(2-4)
proof (induction entries arbitrary: chmap)
  case Nil
  then show ?case by simp
next
  case (Cons e entries)
  let ?cs = "all_channels dec"
  from Cons.prems(3) obtain name num c where e: "e = (name, Some num)" "find_channel dec name = Some c"
    "order c < length chmap" "map_channels dec entries (chmap[order c := num]) = Inr (SRD_OK, chmap')"
    by (cases e) (auto simp: ebind_eq_Inr wr_def split: option.splits if_splits)
  have c: "c \<in> set ?cs" "ch_id c = name" using find_channel_some [OF e(2)] by simp_all
  have inj: "d = c \<longleftrightarrow> ch_id d = name" "order d = order c \<longleftrightarrow> d = c" if "d \<in> set ?cs" for d
    using channels_distinct [OF assms(1) c(1) that] c(2) by simp_all
  from Cons.IH [OF _ _ e(4)] Cons.prems(1,2) have IH: "length chmap' = length chmap"
    "\<forall>d \<in> set ?cs. chmap' ! order d = (case map_of entries (ch_id d) of Some (Some v) \<Rightarrow> v
       | _ \<Rightarrow> chmap[order c := num] ! order d)"
    by simp_all
  have "map_of entries name = None" using Cons.prems(1) e(1) by (simp add: map_of_eq_None_iff)
  then have "chmap' ! order d = (case map_of (e # entries) (ch_id d) of Some (Some v) \<Rightarrow> v
      | _ \<Rightarrow> chmap ! order d)" if "d \<in> set ?cs" for d
    using IH(2) that inj [OF that] e(1,3) c(2) by (cases "d = c") (auto split: option.splits)
  with IH(1) show ?case by blast
qed

text \<open>C33: Channel map. When setting the channels succeeds, every channel of the decoder is
  mapped to the input it was given and to -1 otherwise, and no required channel is left at -1;
  on every failure the instance is unchanged.\<close>

theorem srd_inst_channel_set_all_map:
  assumes "channels_ok (decoder di)" "distinct (map fst entries)" "entries \<noteq> []"
    and "dec_num_channels di = length (all_channels (decoder di))"
    and "srd_inst_channel_set_all entries di = Inr (ret, di')"
  shows "if ret = SRD_OK then \<exists>chmap. di' = di\<lparr>dec_channelmap := Some chmap\<rparr>
      \<and> length chmap = dec_num_channels di
      \<and> (\<forall>c \<in> set (all_channels (decoder di)).
           chmap ! order c = (case map_of entries (ch_id c) of Some (Some v) \<Rightarrow> v | _ \<Rightarrow> - 1))
      \<and> (\<forall>c \<in> set (dec_channels (decoder di)). chmap ! order c \<noteq> - 1)
    else di' = di"
proof (cases "ret = SRD_OK")
  case True
  let ?cs = "all_channels (decoder di)"
  obtain chmap where m:
    "map_channels (decoder di) entries (replicate (dec_num_channels di) (- 1)) = Inr (SRD_OK, chmap)"
    "\<not> (\<exists>i < length (dec_channels (decoder di)). chmap ! i = - 1)"
    "di' = di\<lparr>dec_channelmap := Some chmap\<rparr>"
    using assms(3,5) True
    by (auto simp: srd_inst_channel_set_all_def ebind_eq_Inr Let_def split: if_splits)
  note order = channels_order [OF assms(1)]
  have req: "chmap ! order c \<noteq> - 1" if "c \<in> set (dec_channels (decoder di))" for c
  proof -
    from that obtain i where i: "i < length (dec_channels (decoder di))" "dec_channels (decoder di) ! i = c"
      by (auto simp: in_set_conv_nth)
    then have "?cs ! i = c" "i < length ?cs" by (simp_all add: nth_append all_channels_def)
    with order have "order c = i" by blast
    with i(1) m(2) show ?thesis by blast
  qed
  have ord: "order c < length ?cs" if "c \<in> set ?cs" for c
  proof -
    from that obtain i where "i < length ?cs" "?cs ! i = c" by (auto simp: in_set_conv_nth)
    with order [of i] show ?thesis by simp
  qed
  have len: "length (replicate (dec_num_channels di) (- 1)) = length ?cs" using assms(4) by simp
  note spec = map_channels_spec [OF assms(1,2) len m(1)]
  have "chmap ! order c = (case map_of entries (ch_id c) of Some (Some v) \<Rightarrow> v | _ \<Rightarrow> - 1)"
    if "c \<in> set ?cs" for c
    using conjunct2 [OF spec] that ord [OF that] assms(4) by (simp split: option.splits)
  moreover have "length chmap = dec_num_channels di" using conjunct1 [OF spec] by simp
  ultimately show ?thesis
    unfolding True using m(3) req by (simp, blast)
next
  case False
  with assms(5) show ?thesis
    by (auto simp: srd_inst_channel_set_all_def ebind_eq_Inr Let_def split: if_splits)
qed


section \<open>Visiting a stack\<close>

text \<open>The instances stacked, directly or not, on one, itself included.\<close>

inductive stacked :: "inst_store \<Rightarrow> nat \<Rightarrow> nat \<Rightarrow> bool" for h where
  stacked_refl: "stacked h p p"
| stacked_next: "h p = Some di \<Longrightarrow> q \<in> set (next_di di) \<Longrightarrow> stacked h q r \<Longrightarrow> stacked h p r"

inductive_cases stackedE: "stacked h p r"

text \<open>No dangling pointer and no cycle: ranks go down along the stack.\<close>

definition stack_ok :: "inst_store \<Rightarrow> (nat \<Rightarrow> nat) \<Rightarrow> bool" where
  "stack_ok h rank \<longleftrightarrow> (\<forall>p di. h p = Some di \<longrightarrow>
     (\<forall>q \<in> set (next_di di). h q \<noteq> None \<and> rank q < rank p))"

definition same_shape :: "inst_store \<Rightarrow> inst_store \<Rightarrow> bool" where
  "same_shape h h' \<longleftrightarrow> (\<forall>q. map_option next_di (h' q) = map_option next_di (h q))"

definition holds_at :: "(srd_decoder_inst \<Rightarrow> bool) \<Rightarrow> inst_store \<Rightarrow> nat \<Rightarrow> bool" where
  "holds_at P h q \<longleftrightarrow> (case h q of None \<Rightarrow> False | Some d \<Rightarrow> P d)"

lemma walk_spec:
  assumes node: "\<And>d. fst (node d) = SRD_OK" "\<And>d. next_di (snd (node d)) = next_di d"
    "\<And>d. P (snd (node d))" "\<And>d. ret (snd (node d)) = SRD_OK" and ok: "stack_ok h0 rank"
  shows "same_shape h0 h \<Longrightarrow> h0 p \<noteq> None \<Longrightarrow> rank p < fuel \<Longrightarrow>
      \<exists>h'. walk node ret fuel p h = Inr (SRD_OK, h') \<and> same_shape h0 h'
        \<and> (\<forall>q. holds_at P h q \<longrightarrow> holds_at P h' q) \<and> (\<forall>q. stacked h0 p q \<longrightarrow> holds_at P h' q)"
    and "same_shape h0 h \<Longrightarrow> \<forall>q \<in> set qs. h0 q \<noteq> None \<and> rank q < fuel \<Longrightarrow>
      \<exists>h'. walk_list node ret fuel qs h = Inr (SRD_OK, h') \<and> same_shape h0 h'
        \<and> (\<forall>q. holds_at P h q \<longrightarrow> holds_at P h' q)
        \<and> (\<forall>q \<in> set qs. \<forall>r. stacked h0 q r \<longrightarrow> holds_at P h' r)"
proof (induction fuel arbitrary: p qs h)
  case 0
  {
    case 1
    then show ?case by simp
  next
    case 2
    then show ?case by (cases qs) auto
  }
next
  case (Suc fuel)
  have walk: "\<exists>h'. walk node ret (Suc fuel) p h = Inr (SRD_OK, h') \<and> same_shape h0 h'
        \<and> (\<forall>q. holds_at P h q \<longrightarrow> holds_at P h' q) \<and> (\<forall>q. stacked h0 p q \<longrightarrow> holds_at P h' q)"
    if prems: "same_shape h0 h" "h0 p \<noteq> None" "rank p < Suc fuel" for h p
  proof -
    obtain d0 where d0: "h0 p = Some d0" using prems(2) by blast
    with prems(1) obtain di where di: "h p = Some di" "next_di di = next_di d0"
      unfolding same_shape_def by (metis map_option_eq_Some)
    let ?h = "h(p \<mapsto> snd (node di))"
    have shape: "same_shape h0 ?h"
      using prems(1) d0 di node(2) by (simp add: same_shape_def)
    have "\<forall>q \<in> set (next_di d0). h0 q \<noteq> None \<and> rank q < fuel"
      using ok d0 prems(3) by (fastforce simp: stack_ok_def)
    from Suc.IH(2) [OF shape this] obtain h' where h':
      "walk_list node ret fuel (next_di d0) ?h = Inr (SRD_OK, h')" "same_shape h0 h'"
      "\<forall>q. holds_at P ?h q \<longrightarrow> holds_at P h' q"
      "\<forall>q \<in> set (next_di d0). \<forall>r. stacked h0 q r \<longrightarrow> holds_at P h' r"
      by blast
    have "walk node ret (Suc fuel) p h = Inr (SRD_OK, h')"
      using di node h'(1) by (simp add: case_prod_beta Let_def)
    moreover have "holds_at P ?h p" using node(3) by (simp add: holds_at_def)
    moreover have "\<forall>q. holds_at P h q \<longrightarrow> holds_at P ?h q" using node(3) by (simp add: holds_at_def)
    moreover have "holds_at P h' q" if "stacked h0 p q" for q
      using that by (rule stackedE) (use h'(3,4) d0 \<open>holds_at P ?h p\<close> in auto)
    ultimately show ?thesis using h'(2,3) by blast
  qed
  {
    case 1
    then show ?case by (rule walk)
  next
    case 2
    then show ?case
    proof (induction qs arbitrary: h)
      case Nil
      then show ?case by auto
    next
      case (Cons q qs)
      obtain h1 where h1: "walk node ret (Suc fuel) q h = Inr (SRD_OK, h1)" "same_shape h0 h1"
        "\<forall>q. holds_at P h q \<longrightarrow> holds_at P h1 q" "\<forall>r. stacked h0 q r \<longrightarrow> holds_at P h1 r"
        using walk [of h q] Cons.prems by auto
      from Cons.IH [OF h1(2)] Cons.prems(2) obtain h2 where
        "walk_list node ret (Suc fuel) qs h1 = Inr (SRD_OK, h2)" "same_shape h0 h2"
        "\<forall>q. holds_at P h1 q \<longrightarrow> holds_at P h2 q"
        "\<forall>q \<in> set qs. \<forall>r. stacked h0 q r \<longrightarrow> holds_at P h2 r"
        by auto
      with h1 show ?case by (simp del: walk.simps)
    qed
  }
qed

text \<open>An instance that can take new, unrelated input.\<close>

definition is_reset :: "srd_decoder_inst \<Rightarrow> bool" where
  "is_reset di \<longleftrightarrow> condition_list di = [] \<and> inbuf di = None \<and> old_pins_array di = None
     \<and> abs_cur_samplenum di = 0 \<and> \<not> got_new_samples di \<and> \<not> handled_all_samples di
     \<and> \<not> want_wait_terminate di \<and> (is_c_inst di \<longrightarrow> \<not> thread_handle di)"

text \<open>C35: Reset of a stack. On a stack without cycles the reset returns SRD_OK with fuel
  for its height, and leaves every instance stacked on the given one, at any depth, without
  samples, conditions, old pins, pending hand-over or worker.\<close>

theorem srd_inst_terminate_reset_stack:
  assumes "stack_ok h rank" "h p \<noteq> None" "rank p < fuel"
    and "\<And>d. next_di (join d) = next_di d \<and> is_c_inst (join d) = is_c_inst d"
    and "\<And>d. \<exists>u. reset d = d\<lparr>user_data := u\<rparr>"
  shows "\<exists>h'. srd_inst_terminate_reset join reset fuel (Some p) h = Inr (SRD_OK, h')
    \<and> (\<forall>q. stacked h p q \<longrightarrow> holds_at is_reset h' q) \<and> same_shape h h'"
proof -
  let ?join = "srd_inst_join_decode_thread join"
  have j: "next_di (?join d) = next_di d" "is_c_inst (?join d) = is_c_inst d"
    "is_c_inst d \<longrightarrow> \<not> thread_handle (?join d)" for d
    using assms(4) by (simp_all add: srd_inst_join_decode_thread_def)
  have keep: "is_c_inst (srd_inst_reset_state d) = is_c_inst d"
    "thread_handle (srd_inst_reset_state d) = thread_handle d" for d
    by (simp_all add: srd_inst_reset_state_def oldpins_array_free_def condition_list_free_def)
  have r: "next_di (reset d) = next_di d" "is_reset (reset d) = is_reset d"
    "decoder_state (reset d) = decoder_state d" for d
    using assms(5) [of d] by (auto simp: is_reset_def)
  have "is_reset (srd_inst_reset_state (?join d))" for d
    using j [of d] by (simp add: is_reset_def keep)
  then show ?thesis
    using walk_spec(1) [OF _ _ _ _ assms(1) _ assms(2,3), of "reset_node join reset" is_reset decoder_state h]
    by (auto simp: srd_inst_terminate_reset_def reset_node_def r j same_shape_def)
qed


section \<open>Waiting for a match\<close>

lemma fixed_signal:
  assumes "fixed_part di' = fixed_part (di :: srd_decoder_inst)"
  shows "pin_at di' = pin_at di" "chunk_ok di' = chunk_ok di" "abs_start_samplenum di' = abs_start_samplenum di"
    "abs_end_samplenum di' = abs_end_samplenum di" "inbuf di' = inbuf di"
    "inbuflen di' = inbuflen di" "dec_num_channels di' = dec_num_channels di"
    "dec_channelmap di' = dec_channelmap di" "c_pin_cache di' = c_pin_cache di"
proof -
  have "channel_buffer di' = channel_buffer di" "const_at di' = const_at di"
    using assms by (simp_all add: fixed_part_def channel_buffer_def const_at_def fun_eq_iff)
  then show "pin_at di' = pin_at di" "chunk_ok di' = chunk_ok di"
    using assms by (simp_all add: fixed_part_def pin_at_def chunk_ok_def fun_eq_iff Let_def cong: option.case_cong)
  show "abs_start_samplenum di' = abs_start_samplenum di"
    "abs_end_samplenum di' = abs_end_samplenum di" "inbuf di' = inbuf di"
    "inbuflen di' = inbuflen di" "dec_num_channels di' = dec_num_channels di"
    "dec_channelmap di' = dec_channelmap di" "c_pin_cache di' = c_pin_cache di"
    using assms by (cases di; cases di'; simp add: fixed_part_def)+
qed

text \<open>The buffer length covers the chunk from its aligned start.\<close>

definition len_ok :: "srd_decoder_inst \<Rightarrow> bool" where
  "len_ok di \<longleftrightarrow> unat (abs_end_samplenum di) - unat (abs_start_samplenum di) \<le> unat (inbuflen di)
     \<and> inbuflen di \<le> inbuflen di + 7
     \<and> (case dec_channelmap di of None \<Rightarrow> False | Some chmap \<Rightarrow> dec_num_channels di \<le> length chmap)
     \<and> (case c_pin_cache di of None \<Rightarrow> True | Some cache \<Rightarrow> length cache = dec_num_channels di)"

definition seen_pin :: "srd_decoder_inst \<Rightarrow> int list \<Rightarrow> nat \<Rightarrow> nat \<Rightarrow> u8" where
  "seen_pin di chmap n ch = (if chmap ! ch < 0 then 0xFF else pin_at di ch n)"

lemma bit_at_word: "drop_bit k (b :: u8) AND 1 = (if bit b k then 1 else 0)"
proof (rule bit_eqI)
  fix n
  show "bit (drop_bit k b AND 1) n \<longleftrightarrow> bit (if bit b k then 1 else 0 :: u8) n"
    by (cases n) (auto simp: bit_simps)
qed

lemma cached_pin_spec:
  assumes "chunk_ok di" "len_ok di" "dec_channelmap di = Some chmap" "i < dec_num_channels di"
    "abs_start_samplenum di \<le> abs_cur_samplenum di" "abs_cur_samplenum di < abs_end_samplenum di"
  shows "cached_pin di chmap i = Inr (seen_pin di chmap (unat (abs_cur_samplenum di)) i)"
proof (cases "chmap ! i < 0")
  case True
  then show ?thesis using assms(2-4) by (simp add: cached_pin_def seen_pin_def len_ok_def)
next
  case False
  let ?off = "abs_cur_samplenum di - abs_start_samplenum di"
  have i: "i < length chmap" using assms(2-4) by (simp add: len_ok_def)
  have off: "unat ?off = unat (abs_cur_samplenum di) - unat (abs_start_samplenum di)"
    using assms(5) by (simp add: unat_sub word_le_nat_alt)
  have "unat (inbuflen di + 7) = unat (inbuflen di) + 7"
    using assms(2) by (simp add: unat_plus_simple [THEN iffD1] len_ok_def)
  moreover have "unat ?off < unat (inbuflen di)"
    using assms(2,5,6) off unfolding len_ok_def word_le_nat_alt word_less_nat_alt by linarith
  ultimately have lt: "?off div 8 < (inbuflen di + 7) div 8"
    by (simp add: word_less_nat_alt unat_div)
  note cur = current_sample_spec [OF assms(1,5,6), of "int i", simplified, OF assms(4)]
  show ?thesis
  proof (cases "inbuf di")
    case None
    with cur False i show ?thesis
      by (auto simp: cached_pin_def seen_pin_def current_sample_def ebind_eq_Inr)
  next
    case (Some bufs)
    with cur obtain b where b: "rd bufs i = Inr b"
      by (auto simp: current_sample_def rd_int_def ebind_eq_Inr)
    show ?thesis
    proof (cases b)
      case None
      with Some b cur False i show ?thesis
        by (auto simp: cached_pin_def seen_pin_def current_sample_def rd_int_def ebind_eq_Inr)
    next
      case buf: (Some buf)
      with Some b cur have "buffer_sample di buf = Inr (pin_at di i (unat (abs_cur_samplenum di)))"
        by (auto simp: current_sample_def rd_int_def ebind_eq_Inr)
      with Some b buf False i lt show ?thesis
        by (simp add: cached_pin_def seen_pin_def buffer_sample_def Let_def bit_at_word)
    qed
  qed
qed

lemma cached_pins_spec:
  assumes "\<forall>i < length cache. cached_pin di chmap i = Inr (f i)" "k \<le> length cache"
  shows "cached_pins di chmap [k..<length cache] cache
    = Inr (map (\<lambda>i. if k \<le> i then f i else cache ! i) [0..<length cache])"
  using assms
proof (induction "length cache - k" arbitrary: k cache)
  case 0
  then have "k = length cache" by simp
  moreover have "map (\<lambda>i. if length cache \<le> i then f i else cache ! i) [0..<length cache] = cache"
    by (rule nth_equalityI) simp_all
  ultimately show ?case by simp
next
  case (Suc d)
  then have k: "k < length cache" "[k..<length cache] = k # [Suc k..<length cache]"
    by (auto simp: upt_conv_Cons)
  have "cached_pins di chmap [Suc k..<length (cache[k := f k])] (cache[k := f k])
      = Inr (map (\<lambda>i. if Suc k \<le> i then f i else cache[k := f k] ! i) [0..<length (cache[k := f k])])"
    by (rule Suc.hyps(1)) (use Suc.hyps(2) Suc.prems k in auto)
  moreover have "(if Suc k \<le> i then f i else cache[k := f k] ! i) = (if k \<le> i then f i else cache ! i)"
    if "i < length cache" for i
    using that by (cases "i = k") auto
  ultimately show ?case using k Suc.prems(1) by simp
qed

text \<open>The instance after the cache was filled.\<close>

definition with_pins :: "srd_decoder_inst \<Rightarrow> int list \<Rightarrow> srd_decoder_inst" where
  "with_pins di chmap = di\<lparr>
     c_pin_cache := if dec_num_channels di = 0 then c_pin_cache di
       else Some (map (seen_pin di chmap (unat (abs_cur_samplenum di))) [0..<dec_num_channels di]),
     c_pin_cache_samplenum :=
       if dec_num_channels di = 0 \<and> c_pin_cache di = None then c_pin_cache_samplenum di
       else abs_cur_samplenum di,
     c_pin_cache_inbuf_serial :=
       if dec_num_channels di = 0 \<and> c_pin_cache di = None then c_pin_cache_inbuf_serial di
       else c_pin_cache_inbuf_serial di + 1\<rparr>"

lemma fill_pin_cache_spec:
  assumes "chunk_ok di" "len_ok di" "dec_channelmap di = Some chmap"
    "abs_start_samplenum di \<le> abs_cur_samplenum di" "abs_cur_samplenum di < abs_end_samplenum di"
  shows "fill_pin_cache di = Inr (with_pins di chmap)"
proof (cases "dec_num_channels di = 0")
  case True
  then show ?thesis using assms(2,3)
    by (cases di) (auto simp: fill_pin_cache_def len_ok_def with_pins_def Let_def split: option.splits)
next
  case False
  let ?n = "dec_num_channels di"
  have "\<forall>i < ?n. cached_pin di chmap i = Inr (seen_pin di chmap (unat (abs_cur_samplenum di)) i)"
    using cached_pin_spec [OF assms(1-3) _ assms(4,5)] by simp
  then have "cached_pins di chmap [0..<?n] cache
      = Inr (map (seen_pin di chmap (unat (abs_cur_samplenum di))) [0..<?n])" if "length cache = ?n" for cache
    using cached_pins_spec [of cache di chmap _ 0] that by simp
  then show ?thesis
    using assms(2,3) False
    by (auto simp: fill_pin_cache_def len_ok_def with_pins_def Let_def split: option.splits)
qed

lemma with_pins_get:
  assumes "len_ok di" "dec_channelmap di = Some chmap" "ch < dec_num_channels di"
  shows "c_decoder_get_pin_impl (Some (with_pins di chmap)) (int ch) (abs_cur_samplenum di)
    = Inr (seen_pin di chmap (unat (abs_cur_samplenum di)) ch)"
  using assms by (auto simp: c_decoder_get_pin_impl_def rd_int_def len_ok_def seen_pin_def with_pins_def)

lemma process_loop_once:
  assumes "find_match di = Inr (found, di')"
    "found \<Longrightarrow> abs_cur_samplenum di' < abs_end_samplenum di'"
  shows "process_loop di = Inr (found, di')"
proof (cases found)
  case True
  with assms show ?thesis by (subst process_loop.simps) simp
next
  case False
  with assms(1) have "abs_end_samplenum di' \<le> abs_cur_samplenum di'"
    using find_match_no_match_end by (simp add: not_less)
  with assms(1) show ?thesis by (subst process_loop.simps) simp
qed

lemma outcome_install [simp]:
  "fixed_part (install_conditions conds di) = fixed_part di"
  by (simp add: install_conditions_def condition_list_free_def)

text \<open>
  One whole wait on a complete chunk: what the scan finds, and the instance it leaves.
\<close>

definition wait_ready :: "srd_term list list \<Rightarrow> u8 list \<Rightarrow> srd_decoder_inst \<Rightarrow> bool" where
  "wait_ready conds pins di \<longleftrightarrow> got_new_samples di \<and> \<not> want_wait_terminate di
     \<and> scan_ready (install_conditions conds di) pins \<and> conds_ok (install_conditions conds di)
     \<and> have_non_null_conds (install_conditions conds di) \<and> len_ok di
     \<and> abs_cur_samplenum di < abs_end_samplenum di"

lemma install_fields [simp]:
  "abs_cur_samplenum (install_conditions conds di) = abs_cur_samplenum di"
  "abs_end_samplenum (install_conditions conds di) = abs_end_samplenum di"
  "abs_start_samplenum (install_conditions conds di) = abs_start_samplenum di"
  "abs_cur_matched (install_conditions conds di) = abs_cur_matched di"
  "dec_num_channels (install_conditions conds di) = dec_num_channels di"
  "first_pos (install_conditions conds di) = first_pos di"
  by (simp_all add: install_conditions_def condition_list_free_def)

lemma match_in_chunk:
  assumes "wait_ready conds pins di" "find_match (install_conditions conds di) = Inr (True, di1)"
    "scan_outcome (install_conditions conds di) (wait_pins (install_conditions conds di) pins)
      (wait_from (install_conditions conds di)) (unat (abs_end_samplenum di)) True di1"
  shows "abs_start_samplenum di \<le> abs_cur_samplenum di1" "abs_cur_samplenum di1 < abs_end_samplenum di"
  using assms
  by (auto simp: wait_ready_def scan_ready_def scan_outcome_def first_hit_def wait_from_def
      word_le_nat_alt word_less_nat_alt split: if_splits)

lemma wait_impl_outcome:
  assumes ready: "wait_ready conds pins di" and map: "dec_channelmap di = Some chmap"
  defines "di0 \<equiv> install_conditions conds di"
  shows "\<exists>found di1. scan_outcome di0 (wait_pins di0 pins) (wait_from di0)
      (unat (abs_end_samplenum di)) found di1 \<and> fixed_part di1 = fixed_part di
    \<and> c_decoder_wait_impl conds (Some di) =
      (if found then Inr (WaitDone SRD_OK (Some (abs_cur_samplenum di1, match_array di1)),
         Some (with_pins (di1\<lparr>first_pos := False\<rparr>) chmap))
       else Inr (WaitAgain, Some (drop_chunk di1)))"
proof -
  have fixed0: "fixed_part di0 = fixed_part di" by (simp add: di0_def)
  note f0 = fixed_signal [OF fixed0]
  have flags: "got_new_samples di0" "\<not> want_wait_terminate di0"
    using ready by (simp_all add: wait_ready_def di0_def)
  obtain found di1 where m: "find_match di0 = Inr (found, di1)"
    "scan_outcome di0 (wait_pins di0 pins) (wait_from di0) (unat (abs_end_samplenum di)) found di1"
    using find_match_spec [of di0 pins] ready by (auto simp: wait_ready_def di0_def)
  have fixed1: "fixed_part di1 = fixed_part di"
    using find_match_fixed [OF m(1)] fixed0 by simp
  note f1 = fixed_signal [OF fixed1]
  have cur: "abs_start_samplenum di \<le> abs_cur_samplenum di1"
    "abs_cur_samplenum di1 < abs_end_samplenum di" if found
    using match_in_chunk [OF ready] m that unfolding di0_def by simp_all
  have proc: "process_samples_until_condition_match di0 = Inr (SRD_OK, found, di1)"
    using process_loop_once [OF m(1)] cur(2) f1(4) flags(2)
    by (simp add: process_samples_until_condition_match_def)
  show ?thesis
  proof (cases found)
    case False
    have "wait_round di0 = Inr (WaitAgain, drop_chunk di1)"
      using flags proc process_fields(2) [OF proc] False
      by (simp add: wait_round_def drop_chunk_def Let_def)
    with m(2) fixed1 False show ?thesis
      by (auto simp: c_decoder_wait_impl_def di0_def)
  next
    case True
    let ?di = "di1\<lparr>first_pos := False\<rparr>"
    have "fixed_part ?di = fixed_part di" using fixed1 by simp
    note f = fixed_signal [OF this]
    have "chunk_ok ?di" "len_ok ?di"
      using ready f f0(2) by (simp_all add: wait_ready_def scan_ready_def len_ok_def di0_def cong: option.case_cong)
    then have "fill_pin_cache ?di = Inr (with_pins ?di chmap)"
      using f map cur [OF True] by (intro fill_pin_cache_spec) simp_all
    then have "wait_round di0 = Inr (WaitDone SRD_OK (Some (abs_cur_samplenum di1, match_array di1)),
        with_pins ?di chmap)"
      using flags proc True by (simp add: wait_round_def with_pins_def)
    with m(2) fixed1 True show ?thesis
      by (auto simp: c_decoder_wait_impl_def di0_def)
  qed
qed

text \<open>C1: A whole wait of a C decoder. On a complete chunk, \<open>c_decoder_wait_impl\<close> with
  level and edge conditions returns SRD_OK with the number of the first sample where a condition
  holds and the bits of the conditions that hold there, and every pin then read at that sample is
  the sample's value (255 for an unconnected channel); when no condition holds anywhere in the
  chunk it gives the buffers back to the caller and waits for the next chunk.\<close>

theorem c_decoder_wait_impl_first:
  fixes di :: srd_decoder_inst and conds :: "srd_term list list"
  defines "di0 \<equiv> install_conditions conds di"
  assumes "got_new_samples di" "\<not> want_wait_terminate di"
    and "scan_ready di0 pins" "conds_ok di0" "have_non_null_conds di0" "len_ok di"
    and "abs_cur_samplenum di < abs_end_samplenum di" "dec_channelmap di = Some chmap"
  shows "\<exists>st di'. c_decoder_wait_impl conds (Some di) = Inr (st, Some di')
    \<and> (case st of
         WaitAgain \<Rightarrow> no_hit di0 (wait_pins di0 pins) (wait_from di0) (unat (abs_end_samplenum di))
           \<and> inbuf di' = None \<and> handled_all_samples di'
       | WaitDone r x \<Rightarrow> r = SRD_OK \<and> (\<exists>n m. x = Some (n, m)
           \<and> first_hit di0 (wait_pins di0 pins) (wait_from di0) (unat (abs_end_samplenum di)) (unat n)
           \<and> {k. bit m k} = hits di0 (wait_pins di0 pins) (wait_from di0) (unat n)
           \<and> (\<forall>ch < dec_num_channels di. c_decoder_get_pin_impl (Some di') (int ch) n
                = Inr (seen_pin di chmap (unat n) ch))))"
proof -
  have ready: "wait_ready conds pins di" using assms by (simp add: wait_ready_def di0_def)
  obtain found di1 where o: "scan_outcome di0 (wait_pins di0 pins) (wait_from di0)
      (unat (abs_end_samplenum di)) found di1" "fixed_part di1 = fixed_part di"
    "c_decoder_wait_impl conds (Some di) =
      (if found then Inr (WaitDone SRD_OK (Some (abs_cur_samplenum di1, match_array di1)),
         Some (with_pins (di1\<lparr>first_pos := False\<rparr>) chmap))
       else Inr (WaitAgain, Some (drop_chunk di1)))"
    using wait_impl_outcome [OF ready assms(9), folded di0_def] by blast
  have "fixed_part (di1\<lparr>first_pos := False\<rparr>) = fixed_part di" using o(2) by simp
  note f = fixed_signal [OF this]
  have "len_ok (di1\<lparr>first_pos := False\<rparr>)" using assms(7) f by (simp add: len_ok_def cong: option.case_cong)
  from with_pins_get [OF this] f assms(9)
  have "\<forall>ch < dec_num_channels di. c_decoder_get_pin_impl (Some (with_pins (di1\<lparr>first_pos := False\<rparr>) chmap))
      (int ch) (abs_cur_samplenum di1) = Inr (seen_pin di chmap (unat (abs_cur_samplenum di1)) ch)"
    by (simp add: seen_pin_def)
  with o show ?thesis
    by (cases found) (simp_all add: scan_outcome_def drop_chunk_def)
qed

section \<open>Two threads\<close>




section \<open>Witnesses\<close>

definition demo_decoder :: srd_decoder where
  "demo_decoder = \<lparr>dec_id = ''i2c'', dec_inputs = [''logic''], dec_outputs = [''i2c''],
     dec_channels = [\<lparr>ch_id = ''scl'', order = 0\<rparr>, \<lparr>ch_id = ''sda'', order = 1\<rparr>],
     dec_opt_channels = [], dec_ann_types = [0, 1, 5]\<rparr>"

definition demo_session :: srd_session where
  "demo_session = \<lparr>session_id = 1, di_list = [0], callbacks = [],
     store = (\<lambda>p. None)(0 \<mapsto> (new_c_inst demo_decoder ''i2c-1'')\<lparr>next_di := [1]\<rparr>,
       1 \<mapsto> new_c_inst demo_decoder ''i2c-2'')\<rparr>"

lemma create_c_decoder_inst_fresh_witness:
  "\<exists>n s'. create_c_decoder_inst id 3 2 None None (Some demo_decoder) (Some demo_session) = Inr (Some 2, Some s')
    \<and> n \<notin> set (visible_names demo_session) \<and> srd_inst_find_by_id (Some s') n = Inr (Some 2)
    \<and> di_list s' = [0, 2] \<and> session_ok s'"
proof -
  have "session_ok demo_session" "store demo_session 2 = None" "length (visible_names demo_session) < 3"
    "di_list demo_session = [0]"
    by code_simp+
  then show ?thesis
    using create_c_decoder_inst_fresh [of demo_session 2 3 id demo_decoder] by simp
qed

lemma srd_inst_channel_set_all_map_witness:
  "\<exists>di' chmap. srd_inst_channel_set_all [(''sda'', Some 5), (''scl'', Some 7)] (new_c_inst demo_decoder ''i2c-1'')
     = Inr (SRD_OK, di') \<and> di' = (new_c_inst demo_decoder ''i2c-1'')\<lparr>dec_channelmap := Some chmap\<rparr>
     \<and> length chmap = 2"
proof -
  let ?di = "new_c_inst demo_decoder ''i2c-1''" and ?e = "[(''sda'', Some 5), (''scl'', Some 7)]"
  let ?di' = "?di\<lparr>dec_channelmap := Some [7, 5]\<rparr>"
  have ok: "channels_ok (decoder ?di)" by code_simp
  have e: "distinct (map fst ?e)" "?e \<noteq> []" by simp_all
  have n: "dec_num_channels ?di = length (all_channels (decoder ?di))" "dec_num_channels ?di = 2"
    by code_simp+
  have run: "srd_inst_channel_set_all ?e ?di = Inr (SRD_OK, ?di')" by code_simp
  from srd_inst_channel_set_all_map [OF ok e n(1) run, unfolded if_P [OF refl]] obtain chmap where
    "?di' = ?di\<lparr>dec_channelmap := Some chmap\<rparr>" "length chmap = dec_num_channels ?di"
    by blast
  with run n(2) show ?thesis by (intro exI [of _ ?di'] exI [of _ chmap] conjI) simp_all
qed

lemma srd_inst_terminate_reset_stack_witness:
  "\<exists>h'. srd_inst_terminate_reset id id 2 (Some 0) (store demo_session) = Inr (SRD_OK, h')
    \<and> holds_at is_reset h' 1"
proof -
  have "stack_ok (store demo_session) (\<lambda>p. 1 - p)"
    by (auto simp: stack_ok_def demo_session_def new_c_inst_def Let_def split: if_splits)
  moreover have "store demo_session 0 \<noteq> None" by (simp add: demo_session_def)
  moreover have "stacked (store demo_session) 0 1"
    by (rule stacked_next [where q = 1]) (auto simp: demo_session_def intro: stacked_refl)
  moreover have "\<exists>u. id d = d\<lparr>user_data := u\<rparr>" for d :: srd_decoder_inst
    by (rule exI [of _ "user_data d"]) simp
  ultimately show ?thesis
    using srd_inst_terminate_reset_stack [of "store demo_session" "\<lambda>p. 1 - p" 0 2 id id] by fastforce
qed

definition demo_waiting :: srd_decoder_inst where
  "demo_waiting = (new_c_inst demo_decoder ''i2c-1'')\<lparr>inbuf := Some [Some [0xf0, 0x81], None],
     inbuf_const := Some [0, 1], abs_end_samplenum := 16, inbuflen := 16, first_pos := True,
     got_new_samples := True, thread_handle := True\<rparr>"

lemma c_decoder_wait_impl_first_witness:
  "\<exists>st di'. c_decoder_wait_impl demo_conds (Some demo_waiting) = Inr (st, Some di')
     \<and> st = WaitDone SRD_OK (Some (4, 1)) \<and> c_decoder_get_pin_impl (Some di') 1 4 = Inr 1"
proof -
  have h: "got_new_samples demo_waiting" "\<not> want_wait_terminate demo_waiting"
    "scan_ready (install_conditions demo_conds demo_waiting) [2, 2]"
    "conds_ok (install_conditions demo_conds demo_waiting)"
    "have_non_null_conds (install_conditions demo_conds demo_waiting)" "len_ok demo_waiting"
    "abs_cur_samplenum demo_waiting < abs_end_samplenum demo_waiting"
    "dec_channelmap demo_waiting = Some [0, 1]"
    by code_simp+
  have st: "map_sum id fst (c_decoder_wait_impl demo_conds (Some demo_waiting))
      = Inr (WaitDone SRD_OK (Some (4, 1)))"
    by code_simp
  have pin: "seen_pin demo_waiting [0, 1] 4 1 = 1" "1 < dec_num_channels demo_waiting" by code_simp+
  obtain st' di' where r: "c_decoder_wait_impl demo_conds (Some demo_waiting) = Inr (st', Some di')"
    and w: "st' = WaitDone SRD_OK (Some (4, 1)) \<longrightarrow>
      c_decoder_get_pin_impl (Some di') (int 1) 4 = Inr (seen_pin demo_waiting [0, 1] (unat (4 :: u64)) 1)"
    using c_decoder_wait_impl_first [OF h]
    by - (elim exE conjE, rule that, assumption,
      use pin(2) in auto, erule_tac x = "Suc 0" in allE, simp)
  from r st have "st' = WaitDone SRD_OK (Some (4, 1))" by simp
  with r w pin(1) show ?thesis by simp
qed

text \<open>A run of the two threads: a chunk without a match is handed over and taken back.\<close>

definition demo_started :: srd_decoder_inst where
  "demo_started = (new_c_inst demo_decoder ''i2c-1'')\<lparr>first_pos := True\<rparr>"

lemma demo_submit:
  "\<exists>di. handshake_reach (di, MainWaiting, WorkerRunning) \<and> got_new_samples di
     \<and> \<not> want_wait_terminate di \<and> wait_round (install_conditions [[plain_term SRD_TERM_LOW 1]] di)
       = Inr (WaitAgain, drop_chunk ((install_conditions [[plain_term SRD_TERM_LOW 1]] di)
           \<lparr>first_pos := False, old_pins_array := Some [0, 1], abs_cur_samplenum := 16\<rparr>))"
proof -
  let ?di = "snd (decode_submit 0 16 (Some [Some [0xf0, 0x81], None]) (Some [0, 1]) 16 demo_started)"
  have "reach handshake_init handshake_step (demo_started, MainIdle, NoWorker)"
    by (rule reach_init) (simp add: handshake_init_def demo_started_def new_c_inst_def Let_def)
  moreover have "decode_submit 0 16 (Some [Some [0xf0, 0x81], None]) (Some [0, 1]) 16 demo_started
      = (None, ?di)"
    by code_simp
  note submit [OF this, of NoWorker]
  moreover have "\<not> thread_handle demo_started" by code_simp
  ultimately have "handshake_reach (?di, MainWaiting, WorkerRunning)"
    using reach_step by fastforce
  moreover have "got_new_samples ?di" "\<not> want_wait_terminate ?di"
    "wait_round (install_conditions [[plain_term SRD_TERM_LOW 1]] ?di)
       = Inr (WaitAgain, drop_chunk ((install_conditions [[plain_term SRD_TERM_LOW 1]] ?di)
           \<lparr>first_pos := False, old_pins_array := Some [0, 1], abs_cur_samplenum := 16\<rparr>))"
    by code_simp+
  ultimately show ?thesis by blast
qed



text \<open>
  Only the pin cache and \<open>get_pin\<close> check the buffer length, and they measure it from the
  aligned start: on a chunk that starts at sample 7 the decoder matches a high level at sample 8
  and then reads the pin as low.
\<close>

lemma unaligned_pin_lost:
  "let di = snd (decode_submit 7 15 (Some [Some [0x00, 0x7f], None]) (Some [0, 0]) 8 demo_started) in
   case c_decoder_wait_impl [[plain_term SRD_TERM_HIGH 0]] (Some di) of
     Inr (WaitDone r (Some (n, m)), Some di') \<Rightarrow> n = 8 \<and> c_decoder_get_pin_impl (Some di') 0 8 = Inr 0
   | _ \<Rightarrow> False"
  by code_simp

text \<open>The sanity check of the initial pins compares signed bytes, so 200 passes it.\<close>

lemma initial_pin_unchecked:
  "fst (srd_inst_initial_pins_set_all (Some [200, 2]) (Some demo_started)) = SRD_OK"
  by code_simp

text \<open>The lookup looks one level deep only: an instance stacked on a stacked one is not found.\<close>

lemma deep_instance_not_found:
  "srd_inst_find_by_id (Some (demo_session\<lparr>store := (\<lambda>p. None)(
       0 \<mapsto> (new_c_inst demo_decoder ''a'')\<lparr>next_di := [1]\<rparr>,
       1 \<mapsto> (new_c_inst demo_decoder ''b'')\<lparr>next_di := [2]\<rparr>,
       2 \<mapsto> new_c_inst demo_decoder ''c'')\<rparr>)) ''c'' = Inr None"
  by code_simp

end
