(* ===== verification/Srd_Session.thy ===== *)
theory Srd_Session
  imports Srd_Api Srd_Instance_Props
begin

text \<open>
  Decoding sessions (\<open>libsigrokdecode/session.c\<close>): the list of sessions, the loops that
  start, feed, reset and end all decoders of a session, metadata, and output callbacks. The
  functions of the decoders are parameters; the interpreter lock, logging and error texts are
  left out, and an allocation does not fail (\<open>g_malloc0\<close> aborts).
\<close>

section \<open>Creation, disposal, callbacks\<close>

record srd_sessions =
  sessions :: "nat list"
  max_session_id :: int
  session_heap :: "nat \<Rightarrow> srd_session option"

definition srd_session_new :: "nat \<Rightarrow> srd_sessions \<Rightarrow> int \<times> srd_sessions" where
  "srd_session_new p g =
     (SRD_OK, g\<lparr>max_session_id := max_session_id g + 1, sessions := sessions g @ [p],
        session_heap := (session_heap g)(p \<mapsto> \<lparr>session_id = max_session_id g + 1, di_list = [],
          callbacks = [], store = (\<lambda>q. None)\<rparr>)\<rparr>)"

definition srd_session_destroy :: "nat option \<Rightarrow> srd_sessions \<Rightarrow> fault + int \<times> srd_sessions" where
  "srd_session_destroy sess g =
     (case sess of
        None \<Rightarrow> Inr (SRD_ERR_ARG, g)
      | Some p \<Rightarrow>
          ebind (deref (session_heap g) p) (\<lambda>s.
          ebind (if di_list s \<noteq> [] then srd_inst_free_all (Some s) else Inr (Some s)) (\<lambda>s'.
          Inr (SRD_OK, g\<lparr>sessions := remove1 p (sessions g), session_heap := (session_heap g)(p := None)\<rparr>))))"

definition srd_pd_output_callback_add :: "srd_pd_callback \<Rightarrow> srd_session option \<Rightarrow>
    int \<times> srd_session option" where
  "srd_pd_output_callback_add c sess =
     (case sess of
        None \<Rightarrow> (SRD_ERR_ARG, None)
      | Some s \<Rightarrow> (SRD_OK, Some (s\<lparr>callbacks := callbacks s @ [c]\<rparr>)))"

definition srd_pd_output_callback_find :: "srd_session option \<Rightarrow> int \<Rightarrow> srd_pd_callback option" where
  "srd_pd_output_callback_find sess ty =
     (case sess of None \<Rightarrow> None | Some s \<Rightarrow> List.find (\<lambda>c. cb_output_type c = ty) (callbacks s))"

section \<open>All decoders of a session\<close>

text \<open>The loop over \<open>di_list\<close> that stops at the first failure.\<close>

fun for_instances :: "(nat \<Rightarrow> inst_store \<Rightarrow> fault + int \<times> inst_store) \<Rightarrow> nat list \<Rightarrow> inst_store \<Rightarrow>
    fault + int \<times> inst_store" where
  "for_instances f [] h = Inr (SRD_OK, h)"
| "for_instances f (p # ps) h =
     ebind (f p h) (\<lambda>(ret, h'). if ret \<noteq> SRD_OK then Inr (ret, h') else for_instances f ps h')"

definition with_session :: "(nat \<Rightarrow> inst_store \<Rightarrow> fault + int \<times> inst_store) \<Rightarrow> srd_session option \<Rightarrow>
    fault + int \<times> srd_session option" where
  "with_session f sess =
     (case sess of
        None \<Rightarrow> Inr (SRD_ERR_ARG, None)
      | Some s \<Rightarrow> ebind (for_instances f (di_list s) (store s)) (\<lambda>(ret, h).
          Inr (ret, Some (s\<lparr>store := h\<rparr>))))"

definition srd_session_start :: "(srd_decoder_inst \<Rightarrow> srd_decoder_inst) \<Rightarrow> (srd_decoder_inst \<Rightarrow> bool) \<Rightarrow>
    nat \<Rightarrow> srd_session option \<Rightarrow> fault + int \<times> srd_session option" where
  "srd_session_start start py_start fuel = with_session (srd_inst_start start py_start fuel)"

definition srd_session_terminate_reset :: "(srd_decoder_inst \<Rightarrow> srd_decoder_inst) \<Rightarrow>
    (srd_decoder_inst \<Rightarrow> srd_decoder_inst) \<Rightarrow> nat \<Rightarrow> srd_session option \<Rightarrow>
    fault + int \<times> srd_session option" where
  "srd_session_terminate_reset join reset fuel =
     with_session (\<lambda>p. srd_inst_terminate_reset join reset fuel (Some p))"

section \<open>Metadata\<close>

abbreviation (input) SRD_CONF_SAMPLERATE :: int where "SRD_CONF_SAMPLERATE \<equiv> 10000"

text \<open>
  \<open>metadata\<close> is the function of a decoder, called with the new rate: for a C decoder after
  the rate was stored, for a Python decoder as a method whose result is ignored.
\<close>

definition meta_node :: "(u64 \<Rightarrow> srd_decoder_inst \<Rightarrow> srd_decoder_inst) \<Rightarrow> u64 \<Rightarrow> srd_decoder_inst \<Rightarrow>
    int \<times> srd_decoder_inst" where
  "meta_node metadata v di =
     (SRD_OK, if is_c_inst di then metadata v (di\<lparr>samplerate := v\<rparr>) else metadata v di)"

definition srd_inst_send_meta :: "(u64 \<Rightarrow> srd_decoder_inst \<Rightarrow> srd_decoder_inst) \<Rightarrow> nat \<Rightarrow> int \<Rightarrow> u64 \<Rightarrow>
    nat \<Rightarrow> inst_store \<Rightarrow> fault + int \<times> inst_store" where
  "srd_inst_send_meta metadata fuel key v p h =
     (if key \<noteq> SRD_CONF_SAMPLERATE then Inr (SRD_OK, h)
      else walk (meta_node metadata v) (\<lambda>di. SRD_OK) fuel p h)"

definition srd_session_metadata_set :: "(u64 \<Rightarrow> srd_decoder_inst \<Rightarrow> srd_decoder_inst) \<Rightarrow> nat \<Rightarrow> int \<Rightarrow>
    gvariant option \<Rightarrow> srd_session option \<Rightarrow> fault + int \<times> srd_session option" where
  "srd_session_metadata_set metadata fuel key data sess =
     (if sess = None then Inr (SRD_ERR_ARG, sess)
      else if key = 0 then Inr (SRD_ERR_ARG, sess)
      else case data of
        None \<Rightarrow> Inr (SRD_ERR_ARG, sess)
      | Some var \<Rightarrow>
          if key \<noteq> SRD_CONF_SAMPLERATE then Inr (SRD_ERR_ARG, sess)
          else (case var of
            GV_Uint64 v \<Rightarrow> with_session (srd_inst_send_meta metadata fuel key v) sess
          | _ \<Rightarrow> Inr (SRD_ERR_ARG, sess)))"

section \<open>Samples\<close>

text \<open>
  \<open>srd_inst_decode\<close> of a C decoder: \<open>work\<close> is what its thread does from the hand-over
  until it reports the chunk as handled or stops.
\<close>

definition srd_inst_decode :: "(srd_decoder_inst \<Rightarrow> srd_decoder_inst) \<Rightarrow> u64 \<Rightarrow> u64 \<Rightarrow>
    u8 list option list option \<Rightarrow> u8 list option \<Rightarrow> u64 \<Rightarrow> nat \<Rightarrow> inst_store \<Rightarrow>
    fault + int \<times> inst_store" where
  "srd_inst_decode work start stop buf buf_const len p h =
     ebind (deref h p) (\<lambda>di.
     case decode_submit start stop buf buf_const len di of
       (Some ret, di1) \<Rightarrow> Inr (ret, h(p \<mapsto> di1))
     | (None, di1) \<Rightarrow>
         let ((ret, err), di2) = decode_finish (work di1) in Inr (ret, h(p \<mapsto> di2)))"

definition srd_session_send :: "(srd_decoder_inst \<Rightarrow> srd_decoder_inst) \<Rightarrow> u64 \<Rightarrow> u64 \<Rightarrow>
    u8 list option list option \<Rightarrow> u8 list option \<Rightarrow> u64 \<Rightarrow> srd_session option \<Rightarrow>
    fault + int \<times> srd_session option" where
  "srd_session_send work start stop buf buf_const len =
     with_session (srd_inst_decode work start stop buf buf_const len)"

section \<open>The end of the data\<close>

text \<open>
  One decoder stacked on another: \<open>end_fn\<close> is the function of a C decoder, \<open>py_end\<close> says
  whether the method of a Python decoder succeeds (true where it has none).
\<close>

definition end_node :: "(srd_decoder_inst \<Rightarrow> srd_decoder_inst) \<Rightarrow> (srd_decoder_inst \<Rightarrow> bool) \<Rightarrow>
    srd_decoder_inst \<Rightarrow> int \<times> srd_decoder_inst" where
  "end_node end_fn py_end di =
     (if is_c_inst di then (SRD_OK, end_fn di)
      else if \<not> py_end di then (SRD_ERR_PYTHON, di) else (SRD_OK, di))"

definition srd_call_sub_decoder_end :: "(srd_decoder_inst \<Rightarrow> srd_decoder_inst) \<Rightarrow>
    (srd_decoder_inst \<Rightarrow> bool) \<Rightarrow> nat \<Rightarrow> srd_decoder_inst \<Rightarrow> inst_store \<Rightarrow> fault + int \<times> inst_store" where
  "srd_call_sub_decoder_end end_fn py_end fuel di h =
     walk_list (end_node end_fn py_end) (\<lambda>d. SRD_OK) fuel (next_di di) h"

text \<open>A decoder that gets the samples, which is also told the number of the last one.\<close>

definition root_end :: "(srd_decoder_inst \<Rightarrow> srd_decoder_inst) \<Rightarrow> (srd_decoder_inst \<Rightarrow> bool) \<Rightarrow>
    nat \<Rightarrow> nat \<Rightarrow> inst_store \<Rightarrow> fault + int \<times> inst_store" where
  "root_end end_fn py_end fuel p h =
     ebind (deref h p) (\<lambda>di.
     let (ret, di') = end_node end_fn py_end
           (if is_c_inst di then di\<lparr>last_samplenum := abs_cur_samplenum di\<rparr> else di)
     in if ret \<noteq> SRD_OK then Inr (ret, h(p \<mapsto> di'))
        else if next_di di' \<noteq> [] then srd_call_sub_decoder_end end_fn py_end fuel di' (h(p \<mapsto> di'))
        else Inr (SRD_OK, h(p \<mapsto> di')))"

definition srd_session_end :: "(srd_decoder_inst \<Rightarrow> srd_decoder_inst) \<Rightarrow> (srd_decoder_inst \<Rightarrow> bool) \<Rightarrow>
    nat \<Rightarrow> srd_session option \<Rightarrow> fault + int \<times> srd_session option" where
  "srd_session_end end_fn py_end fuel sess =
     (case sess of
        None \<Rightarrow> Inr (SRD_ERR, None)
      | Some s \<Rightarrow> if di_list s = [] then Inr (SRD_ERR, sess)
                 else with_session (root_end end_fn py_end fuel) sess)"

section \<open>What reaches every decoder\<close>

lemma for_instances_walk: "for_instances (walk node ret fuel) ps h = walk_list node ret fuel ps h"
  by (induction ps arbitrary: h) (auto simp del: walk.simps simp: ebind_def split: sum.splits)

text \<open>Every instance of a session: a root or one stacked on it at any depth.\<close>

definition in_session :: "srd_session \<Rightarrow> nat \<Rightarrow> bool" where
  "in_session s q \<longleftrightarrow> (\<exists>p \<in> set (di_list s). stacked (store s) p q)"

definition stacks_ok :: "srd_session \<Rightarrow> (nat \<Rightarrow> nat) \<Rightarrow> nat \<Rightarrow> bool" where
  "stacks_ok s rank fuel \<longleftrightarrow> stack_ok (store s) rank
     \<and> (\<forall>p \<in> set (di_list s). store s p \<noteq> None \<and> rank p < fuel)"

text \<open>
  A visit that succeeds at every node reaches every instance, whatever the visited property.
\<close>

lemma session_walk:
  assumes "stacks_ok s rank fuel"
    and "\<And>d. fst (node d) = SRD_OK" "\<And>d. next_di (snd (node d)) = next_di d"
      "\<And>d. P (snd (node d))" "\<And>d. ret (snd (node d)) = SRD_OK"
  shows "\<exists>h. with_session (walk node ret fuel) (Some s) = Inr (SRD_OK, Some (s\<lparr>store := h\<rparr>))
    \<and> same_shape (store s) h \<and> (\<forall>q. in_session s q \<longrightarrow> holds_at P h q)"
proof -
  have ok: "stack_ok (store s) rank" and roots: "\<forall>q \<in> set (di_list s). store s q \<noteq> None \<and> rank q < fuel"
    using assms(1) by (simp_all add: stacks_ok_def)
  have "same_shape (store s) (store s)" by (simp add: same_shape_def)
  from walk_spec(2) [where node = node and P = P and ret = ret, OF assms(2-5) ok this roots] obtain h where
    "walk_list node ret fuel (di_list s) (store s) = Inr (SRD_OK, h)" "same_shape (store s) h"
    "\<forall>q \<in> set (di_list s). \<forall>r. stacked (store s) q r \<longrightarrow> holds_at P h r"
    by metis
  then show ?thesis
    by (auto simp: with_session_def for_instances_walk in_session_def)
qed

text \<open>C38: Setting the samplerate of a session whose stacks have no cycle succeeds and stores
  the rate in every C decoder instance of the session, at any depth of a stack; a wrong key, a
  missing value or a value of another type is an argument error that changes nothing.\<close>

theorem session_metadata_everywhere:
  assumes "stacks_ok s rank fuel"
    and "\<And>v d. next_di (metadata v d) = next_di d \<and> is_c_inst (metadata v d) = is_c_inst d
      \<and> samplerate (metadata v d) = samplerate d"
  shows "if key = SRD_CONF_SAMPLERATE \<and> (\<exists>v. data = Some (GV_Uint64 v))
    then \<exists>h. srd_session_metadata_set metadata fuel key data (Some s) = Inr (SRD_OK, Some (s\<lparr>store := h\<rparr>))
      \<and> same_shape (store s) h
      \<and> (\<forall>q. in_session s q \<longrightarrow> holds_at (\<lambda>d. is_c_inst d \<longrightarrow> data = Some (GV_Uint64 (samplerate d))) h q)
    else srd_session_metadata_set metadata fuel key data (Some s) = Inr (SRD_ERR_ARG, Some s)"
proof (cases "key = SRD_CONF_SAMPLERATE \<and> (\<exists>v. data = Some (GV_Uint64 v))")
  case True
  then obtain v where v: "data = Some (GV_Uint64 v)" by blast
  have "srd_inst_send_meta metadata fuel key v = walk (meta_node metadata v) (\<lambda>di. SRD_OK) fuel"
    using True by (intro ext) (simp add: srd_inst_send_meta_def)
  moreover have "\<exists>h. with_session (walk (meta_node metadata v) (\<lambda>di. SRD_OK) fuel) (Some s)
        = Inr (SRD_OK, Some (s\<lparr>store := h\<rparr>)) \<and> same_shape (store s) h
      \<and> (\<forall>q. in_session s q \<longrightarrow> holds_at (\<lambda>d. is_c_inst d \<longrightarrow> samplerate d = v) h q)"
    using assms(2) by (intro session_walk [OF assms(1)]) (auto simp: meta_node_def)
  ultimately show ?thesis
    using True v by (simp add: srd_session_metadata_set_def eq_commute [of v])
next
  case False
  then show ?thesis
    by (auto simp: srd_session_metadata_set_def split: option.splits gvariant.splits)
qed

section \<open>A witness\<close>

definition demo_root :: srd_decoder_inst where
  "demo_root = (new_c_inst demo_decoder ''i2c-1'')\<lparr>next_di := [1]\<rparr>"

definition stacked_session :: srd_session where
  "stacked_session = \<lparr>session_id = 0, di_list = [0], callbacks = [],
     store = (\<lambda>p. None)(0 \<mapsto> demo_root, 1 \<mapsto> new_c_inst demo_decoder ''i2c-2'')\<rparr>"

lemma session_metadata_everywhere_witness:
  "\<exists>h. srd_session_metadata_set (\<lambda>v d. d) 2 SRD_CONF_SAMPLERATE (Some (GV_Uint64 1000000)) (Some stacked_session)
       = Inr (SRD_OK, Some (stacked_session\<lparr>store := h\<rparr>))
     \<and> in_session stacked_session 1
     \<and> holds_at (\<lambda>d. is_c_inst d \<longrightarrow> Some (GV_Uint64 1000000) = Some (GV_Uint64 (samplerate d))) h 1"
proof -
  have "stacks_ok stacked_session (\<lambda>p. 1 - p) 2"
    by (simp add: stacks_ok_def stack_ok_def stacked_session_def demo_root_def new_c_inst_def Let_def)
  moreover have "stacked (store stacked_session) 0 1"
    by (rule stacked_next [where di = demo_root, OF _ _ stacked_refl])
      (simp_all add: stacked_session_def demo_root_def)
  then have "in_session stacked_session 1"
    by (simp add: in_session_def stacked_session_def)
  ultimately show ?thesis
    using session_metadata_everywhere [of stacked_session "\<lambda>p. 1 - p" 2 "\<lambda>v d. d"
      SRD_CONF_SAMPLERATE "Some (GV_Uint64 1000000)"] by (simp, blast)
qed

section \<open>Observations\<close>

text \<open>
  \<open>srd_inst_free_all\<close> frees the instances of \<open>di_list\<close> only: one stacked on a root is
  still allocated when its session is gone.
\<close>

lemma destroy_leaks_stacked:
  "srd_inst_free_all (Some stacked_session) = Inr (Some s') \<Longrightarrow> store s' 1 \<noteq> None"
  by (auto simp: srd_inst_free_all_def srd_inst_free_def stacked_session_def)

end
