(* ===== verification/Decoder_Calls.thy ===== *)
theory Decoder_Calls
  imports Srd_Api
begin

text \<open>
  What the decoders written in C have in common: the calls on their outputs (the macros of
  \<open>libsigrokdecode.h\<close>), as values in the order they are made, and the texts that
  \<open>snprintf\<close> prints into fixed buffers.
\<close>

section \<open>Output calls\<close>

datatype out_call =
    CPut u64 u64 int srd_c_annotation
  | CProto u64 u64 int string "c_field list"
  | CPutBin u64 u64 int int u64 "u8 list"
  | CPutMetaInt u64 u64 int u64

section \<open>Texts\<close>

text \<open>What \<open>snprintf\<close> leaves in a buffer of the given size.\<close>

definition snprintf_buf :: "nat \<Rightarrow> string \<Rightarrow> string" where
  "snprintf_buf n s = take (n - 1) s"

definition upper_digit :: "nat \<Rightarrow> char" where
  "upper_digit d = (if d < 10 then char_of (48 + d) else char_of (55 + d))"

text \<open>\<open>%02X\<close>, \<open>%X\<close> and \<open>%03o\<close> of a byte.\<close>

definition fmt_02X :: "u8 \<Rightarrow> string" where
  "fmt_02X v = [upper_digit (unat v div 16), upper_digit (unat v mod 16)]"

definition fmt_X :: "u8 \<Rightarrow> string" where
  "fmt_X v = (if unat v < 16 then [upper_digit (unat v)] else fmt_02X v)"

definition fmt_03o :: "u8 \<Rightarrow> string" where
  "fmt_03o v = [upper_digit (unat v div 64), upper_digit (unat v div 8 mod 8), upper_digit (unat v mod 8)]"

text \<open>The bytes of a 64-bit number, least significant first.\<close>

definition le_bytes :: "u64 \<Rightarrow> u8 list" where
  "le_bytes v = map (\<lambda>b. ucast (drop_bit (8 * b) v)) [0..<8]"

section \<open>Annotations\<close>

definition c_put :: "u64 \<Rightarrow> u64 \<Rightarrow> int \<Rightarrow> int \<Rightarrow> string list \<Rightarrow> out_call" where
  "c_put ss es out cls txts = CPut ss es out \<lparr>c_ann_class = cls, c_ann_type = 0,
     c_ann_text = txts, c_str_number_hex = [], c_numberic_value = 0\<rparr>"

definition c_put_v :: "u64 \<Rightarrow> u64 \<Rightarrow> int \<Rightarrow> int \<Rightarrow> u8 \<Rightarrow> string list \<Rightarrow> out_call" where
  "c_put_v ss es out cls val txts = CPut ss es out \<lparr>c_ann_class = cls, c_ann_type = 0,
     c_ann_text = txts, c_str_number_hex = snprintf_buf DECODE_NUM_HEX_MAX_LEN (''0x'' @ fmt_X val),
     c_numberic_value = ucast val\<rparr>"

section \<open>Messages\<close>

text \<open>The protocol messages among the calls, without those for single bits.\<close>

type_synonym message = "string \<times> c_field list"

fun message_of :: "out_call \<Rightarrow> message option" where
  "message_of (CProto ss es out cmd fs) = (if cmd = ''BITS'' then None else Some (cmd, fs))"
| "message_of c = None"

definition messages :: "out_call list \<Rightarrow> message list" where
  "messages outs = List.map_filter message_of outs"

lemma messages_simps [simp]:
  "messages [] = []"
  "messages (c # cs) = (case message_of c of None \<Rightarrow> messages cs | Some m \<Rightarrow> m # messages cs)"
  "messages (cs @ ds) = messages cs @ messages ds"
  by (simp_all add: messages_def map_filter_simps map_filter_def split: option.split)

lemma message_of_put [simp]: "message_of (c_put ss es out cls txts) = None"
  "message_of (c_put_v ss es out cls v txts) = None"
  by (simp_all add: c_put_def c_put_v_def)

lemma messages_concat: "messages (concat xs) = concat (map messages xs)"
  by (induction xs) simp_all

section \<open>Reading fields\<close>

text \<open>
  Reading the member \<open>u8\<close> of a field: the low byte of an integer of any width. For the
  other kinds it is a byte of a double or a pointer, which the caller of the model gives.
\<close>

fun field_u8 :: "(c_field \<Rightarrow> u8) \<Rightarrow> c_field \<Rightarrow> u8" where
  "field_u8 other (C_U8 v) = v"
| "field_u8 other (C_I8 v) = v"
| "field_u8 other (C_U16 v) = ucast v"
| "field_u8 other (C_I16 v) = ucast v"
| "field_u8 other (C_U32 v) = ucast v"
| "field_u8 other (C_I32 v) = ucast v"
| "field_u8 other (C_U64 v) = ucast v"
| "field_u8 other (C_I64 v) = ucast v"
| "field_u8 other f = other f"

end
