(* ===== verification/Srd_Api_Props.thy ===== *)
theory Srd_Api_Props
  imports Srd_Api Srd_Instance_Props
begin

text \<open>
  What the interface of the C decoders guarantees: the variable arguments of \<open>c_wait\<close> and
  the conditions they stand for, the type of what a callback is given, and the conversion of
  numeric options.
\<close>

section \<open>The arguments of c_wait\<close>

text \<open>The macros that build the arguments of a term.\<close>

fun term_code :: "srd_term_type \<Rightarrow> u32" where
  "term_code SRD_TERM_HIGH = 0"
| "term_code SRD_TERM_LOW = 1"
| "term_code SRD_TERM_RISING_EDGE = 2"
| "term_code SRD_TERM_FALLING_EDGE = 3"
| "term_code SRD_TERM_EITHER_EDGE = 4"
| "term_code SRD_TERM_NO_EDGE = 5"
| "term_code SRD_TERM_SKIP = 6"
| "term_code (SRD_TERM_UNKNOWN t) = word_of_int t"

definition macro_args :: "srd_term \<Rightarrow> c_arg list" where
  "macro_args t =
     (if term_type t = SRD_TERM_SKIP
      then [ArgInt (CW_ENC 6 (- 1)), ArgU64 (num_samples_to_skip t)]
      else [ArgInt (CW_ENC (term_code (term_type t)) (word_of_int (channel t)))])"

fun wait_args :: "srd_term list list \<Rightarrow> c_arg list" where
  "wait_args [] = [ArgInt CW_END]"
| "wait_args [c] = concat (map macro_args c) @ [ArgInt CW_END]"
| "wait_args (c # cs) = concat (map macro_args c) @ ArgInt CW_OR # wait_args cs"

text \<open>A term as the macros make it.\<close>

definition macro_term :: "srd_term \<Rightarrow> bool" where
  "macro_term t \<longleftrightarrow> num_samples_already_skipped t = 0
     \<and> (case term_type t of
          SRD_TERM_SKIP \<Rightarrow> channel t = - 1
        | SRD_TERM_UNKNOWN n \<Rightarrow> False
        | _ \<Rightarrow> num_samples_to_skip t = 0 \<and> 0 \<le> channel t \<and> channel t \<le> 0xFFFF)"

lemma and_mask_16: "(x :: u32) AND 0xFFFF = take_bit 16 x"
  by (simp add: take_bit_eq_mask mask_eq_exp_minus_1)

lemma CW_ENC_channel: "CW_ENC t c AND 0xFFFF = take_bit 16 c"
  unfolding CW_ENC_def and_mask_16 by (rule bit_word_eqI) (auto simp: bit_simps)

lemma CW_ENC_type: "drop_bit 16 (CW_ENC t c) AND 0xFFFF = take_bit 16 t"
  unfolding CW_ENC_def and_mask_16 by (rule bit_word_eqI) (auto simp: bit_simps)

text \<open>No macro for a term is taken for the separator or the end.\<close>

lemma CW_ENC_special: "take_bit 16 t \<noteq> mask 16 \<Longrightarrow> CW_ENC t c \<noteq> CW_OR \<and> CW_ENC t c \<noteq> CW_END"
proof -
  assume t: "take_bit 16 t \<noteq> mask 16"
  have "drop_bit 16 (- 1 :: u32) AND 0xFFFF = mask 16" "drop_bit 16 (- 2 :: u32) AND 0xFFFF = mask 16"
    by (simp_all add: mask_eq_exp_minus_1)
  with t CW_ENC_type [of t c] show ?thesis by metis
qed

lemma channel_16:
  assumes "0 \<le> ch" "ch \<le> 0xFFFF"
  shows "sint (take_bit 16 (word_of_int ch :: u32)) = ch"
proof -
  have "uint (take_bit 16 (word_of_int ch :: u32)) = ch"
    using assms by (simp add: take_bit_word_eq_self unsigned_take_bit_eq take_bit_int_eq_self uint_word_of_int_eq)
  then show ?thesis
    using assms by (simp only: sint_uint) (simp add: signed_take_bit_int_eq_self)
qed

definition known_type :: "srd_term_type \<Rightarrow> bool" where
  "known_type ty = (case ty of SRD_TERM_UNKNOWN n \<Rightarrow> False | _ \<Rightarrow> True)"

lemma term_type_of_code: "known_type ty \<Longrightarrow> term_type_of (take_bit 16 (term_code ty)) = ty"
  by (cases ty) (simp_all add: known_type_def term_type_of_def)

lemma term_code_mask: "known_type ty \<Longrightarrow> take_bit 16 (term_code ty) \<noteq> mask 16"
  by (cases ty) (simp_all add: known_type_def mask_eq_exp_minus_1)

lemma parse_macro:
  assumes "macro_term t"
  shows "parse_wait_args (macro_args t @ rest) cur groups = parse_wait_args rest (cur @ [t]) groups"
proof (cases "term_type t = SRD_TERM_SKIP")
  case True
  have "CW_ENC 6 (- 1) \<noteq> CW_OR \<and> CW_ENC 6 (- 1) \<noteq> CW_END"
    by (rule CW_ENC_special) (simp add: mask_eq_exp_minus_1)
  moreover have "t = \<lparr>term_type = SRD_TERM_SKIP, channel = - 1,
      num_samples_to_skip = num_samples_to_skip t, num_samples_already_skipped = 0\<rparr>"
    using assms True by (cases t) (simp add: macro_term_def)
  ultimately show ?thesis
    using True by (simp add: macro_args_def CW_ENC_type term_type_of_def)
next
  case False
  have known: "known_type (term_type t)"
    using assms by (auto simp: macro_term_def known_type_def split: srd_term_type.splits)
  note special = CW_ENC_special [OF term_code_mask [OF known], of "word_of_int (channel t)"]
  have ch: "sint (take_bit 16 (word_of_int (channel t) :: u32)) = channel t"
    using assms False by (intro channel_16) (auto simp: macro_term_def split: srd_term_type.splits)
  note ty = term_type_of_code [OF known]
  have t: "t = \<lparr>term_type = term_type t, channel = channel t, num_samples_to_skip = 0,
      num_samples_already_skipped = 0\<rparr>"
    using assms False by (cases t) (auto simp: macro_term_def split: srd_term_type.splits)
  show ?thesis
    using False special ch ty t by (simp add: macro_args_def CW_ENC_type CW_ENC_channel)
qed

lemma parse_macros:
  "\<forall>t \<in> set c. macro_term t \<Longrightarrow>
   parse_wait_args (concat (map macro_args c) @ rest) cur groups = parse_wait_args rest (cur @ c) groups"
  by (induction c arbitrary: cur) (simp_all add: parse_macro)

lemma parse_wait_macros:
  "\<forall>c \<in> set conds. \<forall>t \<in> set c. macro_term t \<Longrightarrow>
   parse_wait_args (wait_args conds) [] groups = Inr (groups @ filter (\<lambda>c. c \<noteq> []) conds)"
  by (induction conds arbitrary: groups rule: wait_args.induct)
    (simp_all add: parse_macros flush_and_def)

text \<open>C17: \<open>c_wait\<close> called with the macros for a condition list waits for exactly the
  conditions of the list, up to empty ones: the encoding into variable arguments loses nothing.\<close>

theorem c_wait_macros:
  assumes "\<forall>c \<in> set conds. \<forall>t \<in> set c. macro_term t" and "is_c_inst di"
  shows "c_wait (wait_args conds) (Some di) = c_decoder_wait_impl (filter (\<lambda>c. c \<noteq> []) conds) (Some di)"
  using assms by (simp add: c_wait_def c_decoder_wait_def parse_wait_macros)

section \<open>Outputs\<close>

text \<open>The calls with which a decoder registers outputs and puts data on them.\<close>

datatype output_op =
    RegisterOutput int "string option"
  | RegisterOutputMeta int "string option" "string option" "string option" "string option"
  | Put u64 u64 int "srd_c_annotation option"
  | PutBinary u64 u64 int int u64 "u8 list"
  | PutLogic u64 u64 int u32 "u8 list" int
  | PutMetaInt u64 u64 int u64
  | PutMetaDouble u64 u64 int u64

fun output_call :: "srd_pd_callback list option \<Rightarrow> output_op \<Rightarrow> srd_decoder_inst option \<Rightarrow>
    fault + (int \<times> cb_call list) \<times> srd_decoder_inst option" where
  "output_call sess (RegisterOutput ty proto) di =
     (let (i, di') = c_decoder_register_output ty proto di in Inr ((i, []), di'))"
| "output_call sess (RegisterOutputMeta ty proto mt name descr) di =
     (let (i, di') = c_decoder_register_output_meta ty proto mt name descr di in Inr ((i, []), di'))"
| "output_call sess (Put s e i ann) di = ebind (c_decoder_put sess s e i ann di) (\<lambda>r. Inr (r, di))"
| "output_call sess (PutBinary s e i c n data) di = Inr (c_decoder_put_binary sess s e i c n data di, di)"
| "output_call sess (PutLogic s e i m vs n) di = Inr (c_decoder_put_logic sess s e i m vs n di, di)"
| "output_call sess (PutMetaInt s e i v) di = Inr (c_decoder_put_meta_int sess s e i v di, di)"
| "output_call sess (PutMetaDouble s e i v) di = Inr (c_decoder_put_meta_double sess s e i v di, di)"

text \<open>The number of an output is its position in the list.\<close>

definition outputs_ok :: "srd_decoder_inst option \<Rightarrow> bool" where
  "outputs_ok di_opt = (case di_opt of None \<Rightarrow> True
     | Some di \<Rightarrow> \<forall>i < length (pd_output di). pdo_id (pd_output di ! i) = int i)"

text \<open>The outputs an instance has after a call are those it had and perhaps a new one.\<close>

definition outputs_grow :: "srd_decoder_inst option \<Rightarrow> srd_decoder_inst option \<Rightarrow> bool" where
  "outputs_grow d d' = (case d of None \<Rightarrow> d' = None
     | Some di \<Rightarrow> (\<exists>di' ps. d' = Some di' \<and> pd_output di' = pd_output di @ ps))"

lemma outputs_grow_refl [simp]: "outputs_grow d d"
  by (simp add: outputs_grow_def split: option.split)

lemma outputs_grow_trans: "outputs_grow a b \<Longrightarrow> outputs_grow b c \<Longrightarrow> outputs_grow a c"
  by (auto simp: outputs_grow_def split: option.splits)

lemma register_output:
  "outputs_ok d \<Longrightarrow> c_decoder_register_output ty proto d = (i, d') \<Longrightarrow> outputs_ok d' \<and> outputs_grow d d'"
  by (auto simp: c_decoder_register_output_def outputs_ok_def outputs_grow_def nth_append Let_def
      less_Suc_eq split: option.splits)

lemma register_output_meta:
  "outputs_ok d \<Longrightarrow> c_decoder_register_output_meta ty proto mt name descr d = (i, d') \<Longrightarrow>
   outputs_ok d' \<and> outputs_grow d d'"
  by (auto simp: c_decoder_register_output_meta_def c_decoder_register_output_def outputs_ok_def
      outputs_grow_def nth_append Let_def less_Suc_eq slist_nth_def list_update_append
      split: option.splits if_splits)

lemma output_call_grows:
  "outputs_ok d \<Longrightarrow> output_call sess c d = Inr (r, d') \<Longrightarrow> outputs_ok d' \<and> outputs_grow d d'"
  by (cases c) (auto dest: register_output register_output_meta simp: ebind_eq_Inr split: prod.splits)

text \<open>Only an annotation that is NULL faults.\<close>

fun may_fault :: "output_op \<Rightarrow> fault \<Rightarrow> bool" where
  "may_fault (Put s e i None) f \<longleftrightarrow> f = NullDeref"
| "may_fault c f \<longleftrightarrow> False"

lemma put_fault: "c_decoder_put sess s e i ann d = Inl f \<Longrightarrow> ann = None \<and> f = NullDeref"
  by (auto simp: c_decoder_put_def split: option.splits if_splits)

lemma output_call_fault: "output_call sess c d = Inl f \<Longrightarrow> may_fault c f"
proof (cases c)
  case (Put s e i ann)
  assume "output_call sess c d = Inl f"
  with Put have "c_decoder_put sess s e i ann d = Inl f"
    by (cases "c_decoder_put sess s e i ann d") auto
  from put_fault [OF this] Put show ?thesis by simp
qed (auto split: prod.splits)

interpretation out: faulty_op_system "output_call sess" outputs_ok may_fault
  by unfold_locales (auto dest: output_call_grows output_call_fault)

text \<open>The type of the callbacks a kind of data is meant for.\<close>

fun payload_type :: "proto_payload \<Rightarrow> int" where
  "payload_type (AnnData a) = SRD_OUTPUT_ANN"
| "payload_type (BinaryData c n d) = SRD_OUTPUT_BINARY"
| "payload_type (LogicData m n v) = SRD_OUTPUT_LOGIC"
| "payload_type (MetaData k v) = SRD_OUTPUT_META"
| "payload_type (RawAnnotation a) = SRD_OUTPUT_META"

text \<open>
  A callback is well typed: it is the first one registered for the kind of data it gets, it is
  passed an output of the instance, and, metadata numbers apart, an output of that type.
\<close>

definition well_typed_call :: "srd_pd_callback list option \<Rightarrow> srd_decoder_inst option \<Rightarrow> cb_call \<Rightarrow> bool" where
  "well_typed_call sess d cd = (case cd of (c, data) \<Rightarrow>
     srd_pd_output_callback_find_c sess (payload_type (payload data)) = Some c
     \<and> cb_output_type c = payload_type (payload data)
     \<and> (\<exists>di. d = Some di \<and> slist_nth (pd_output di) (pdo_id (pdo data)) = Some (pdo data))
     \<and> (case payload data of MetaData k v \<Rightarrow> k = pdo_id (pdo data)
        | _ \<Rightarrow> output_type (pdo data) = payload_type (payload data)))"

lemma find_callback_type:
  "srd_pd_output_callback_find_c sess ty = Some c \<Longrightarrow> cb_output_type c = ty"
  by (cases sess) (auto simp: find_Some_iff)

lemma slist_nth_id:
  "outputs_ok (Some di) \<Longrightarrow> slist_nth (pd_output di) i = Some p \<Longrightarrow> pdo_id p = i"
  by (auto simp: outputs_ok_def slist_nth_def split: if_splits)

lemma put_frame_call:
  assumes "outputs_ok d" "cd \<in> set (snd (put_frame sess ty chk s e i data d))"
  obtains di p c where "d = Some di" "slist_nth (pd_output di) (pdo_id p) = Some p"
    "srd_pd_output_callback_find_c sess ty = Some c" "cb_output_type c = ty"
    "chk \<longrightarrow> output_type p = ty"
    "cd = (c, \<lparr>pd_start_sample = s, pd_end_sample = e, pdo = p, payload = data p\<rparr>)"
  using assms
  by (auto simp: put_frame_def dest: find_callback_type slist_nth_id split: option.splits if_splits)

lemma put_typed:
  "outputs_ok d \<Longrightarrow> c_decoder_put sess s e i ann d = Inr (r, calls) \<Longrightarrow>
   \<forall>cd \<in> set calls. well_typed_call sess d cd"
  by (auto simp: c_decoder_put_def well_typed_call_def dest: find_callback_type slist_nth_id
      split: option.splits if_splits)

lemma frame_typed:
  "outputs_ok d \<Longrightarrow> cd \<in> set (snd (c_decoder_put_binary sess s e i c n data d)) \<Longrightarrow> well_typed_call sess d cd"
  "outputs_ok d \<Longrightarrow> cd \<in> set (snd (c_decoder_put_logic sess s e i m vs k d)) \<Longrightarrow> well_typed_call sess d cd"
  "outputs_ok d \<Longrightarrow> cd \<in> set (snd (c_decoder_put_meta_int sess s e i v d)) \<Longrightarrow> well_typed_call sess d cd"
  "outputs_ok d \<Longrightarrow> cd \<in> set (snd (c_decoder_put_meta_double sess s e i v d)) \<Longrightarrow> well_typed_call sess d cd"
  unfolding c_decoder_put_binary_def c_decoder_put_logic_def c_decoder_put_meta_int_def
    c_decoder_put_meta_double_def
  by (erule (1) put_frame_call; simp add: well_typed_call_def)+

lemma output_call_typed:
  "outputs_ok d \<Longrightarrow> output_call sess c d = Inr (r, d') \<Longrightarrow> \<forall>cd \<in> set (snd r). well_typed_call sess d' cd"
  by (cases c) (auto simp: ebind_eq_Inr dest: frame_typed put_typed split: prod.splits)

lemma well_typed_grow:
  "outputs_grow d d' \<Longrightarrow> well_typed_call sess d cd \<Longrightarrow> well_typed_call sess d' cd"
  by (cases d) (auto simp: well_typed_call_def outputs_grow_def slist_nth_def nth_append
      split: if_splits)


section \<open>Messages to stacked decoders\<close>

lemma collect_fields_take:
  "C_END \<notin> set fs \<Longrightarrow> collect_fields room (fs @ C_END # rest) = Inr (take room fs)"
proof (induction fs arbitrary: room)
  case Nil
  then show ?case by (cases room) auto
next
  case (Cons f fs)
  then show ?case by (cases "(room, f # fs @ C_END # rest)" rule: collect_fields.cases) auto
qed

lemma dispatch_upper_map:
  "\<forall>q \<in> set qs. h q \<noteq> None \<Longrightarrow> dispatch_upper has_upper h s e cmd fs qs =
     Inr (map (\<lambda>q. \<lparr>upper_di = q, upper_start = s, upper_end = e, upper_cmd = cmd, upper_fields = fs\<rparr>)
       (filter (\<lambda>q. is_c_inst (the (h q)) \<and> has_upper (the (h q))) qs))"
  by (induction qs) auto

text \<open>C37: A message put on a protocol output reaches exactly the instances stacked on the sender
  that are C decoders with a \<open>decode_upper\<close>, each once and in stacking order, with the same
  range and command and the fields before the sentinel, of which at most 64 are passed.\<close>

theorem c_proto_delivers:
  assumes "\<forall>q \<in> set (next_di di). h q \<noteq> None" "C_END \<notin> set fs"
    "slist_nth (pd_output di) i = Some p" "output_type p = SRD_OUTPUT_PROTO"
  shows "c_proto has_upper h s e i cmd (fs @ C_END # rest) (Some di) = Inr (SRD_OK,
    map (\<lambda>q. \<lparr>upper_di = q, upper_start = s, upper_end = e, upper_cmd = cmd, upper_fields = take 64 fs\<rparr>)
      (filter (\<lambda>q. is_c_inst (the (h q)) \<and> has_upper (the (h q))) (next_di di)))"
  using assms by (simp add: c_proto_def collect_fields_take dispatch_upper_map)

section \<open>Numeric options\<close>

text \<open>The fields of a bit pattern built from a sign, an exponent and a significand.\<close>

lemma double_fields:
  assumes "sg \<le> 1" "e < 2 ^ 11" "m < 2 ^ 52"
  defines "n \<equiv> sg * 2 ^ 63 + e * 2 ^ 52 + m :: nat"
  shows "unat (word_of_nat n :: u64) = n" "2 ^ 63 \<le> n \<longleftrightarrow> sg = 1" "n div 2 ^ 52 mod 2 ^ 11 = e" "n mod 2 ^ 52 = m"
proof -
  have "n < 2 ^ 64" unfolding n_def using assms(1-3) by simp
  then show "unat (word_of_nat n :: u64) = n" by (simp add: unsigned_of_nat take_bit_nat_eq_self_iff)
  show "2 ^ 63 \<le> n \<longleftrightarrow> sg = 1" unfolding n_def using assms(1-3) by auto
  have n: "n = (sg * 2 ^ 11 + e) * 2 ^ 52 + m" unfolding n_def by simp
  have "n div 2 ^ 52 = sg * 2 ^ 11 + e" using assms(3) unfolding n by simp
  then show "n div 2 ^ 52 mod 2 ^ 11 = e" using assms(2) by simp
  show "n mod 2 ^ 52 = m" using assms(3) unfolding n by (simp only: mod_mult_self3 mod_less)
qed

text \<open>The significand and the exponent of a number of at most 54 bits that is a double.\<close>

lemma exact_significand:
  assumes "0 < a" "a \<le> 2 ^ 53"
  defines "k \<equiv> floorlog 2 a - 1"
  defines "m \<equiv> (if k \<le> 52 then a * 2 ^ (52 - k) else round_bits (k - 52) a)"
  shows "k \<le> 53" "2 ^ 52 \<le> m" "m < 2 ^ 53"
    "(if 1075 \<le> k + 1023 then int m * 2 ^ (k + 1023 - 1075) else int m div 2 ^ (1075 - (k + 1023))) = int a"
proof -
  have kb: "2 ^ k \<le> a" "a < 2 ^ (k + 1)"
    using floorlog_bounds [of a 2] assms(1) by (auto simp: k_def floorlog_def)
  show k: "k \<le> 53"
  proof (rule ccontr)
    assume "\<not> k \<le> 53"
    then have "(2 :: nat) ^ 54 \<le> 2 ^ k" by (intro power_increasing) auto
    with kb assms(2) show False by simp
  qed
  have "2 ^ 52 \<le> m \<and> m < 2 ^ 53 \<and>
    (if 1075 \<le> k + 1023 then int m * 2 ^ (k + 1023 - 1075) else int m div 2 ^ (1075 - (k + 1023))) = int a"
  proof (cases "k \<le> 52")
    case True
    then have m: "m = a * 2 ^ (52 - k)" by (simp add: m_def)
    have "2 ^ k * 2 ^ (52 - k) \<le> m" "m < 2 ^ (k + 1) * 2 ^ (52 - k)"
      unfolding m using kb by (auto intro: mult_right_mono mult_strict_right_mono)
    then have "2 ^ 52 \<le> m" "m < 2 ^ 53"
      using True by (simp_all only: power_add [symmetric]) auto
    moreover have "int m div 2 ^ (1075 - (k + 1023)) = int a" if "k < 52"
      using that by (simp add: m diff_diff_eq2 [symmetric])
    ultimately show ?thesis using True by (cases "k = 52") (auto simp: m)
  next
    case False
    with k have "k = 53" by simp
    with kb assms(2) have "a = 2 ^ 53" by simp
    with \<open>k = 53\<close> show ?thesis by (simp add: m_def round_bits_def)
  qed
  then show "2 ^ 52 \<le> m" "m < 2 ^ 53"
    "(if 1075 \<le> k + 1023 then int m * 2 ^ (k + 1023 - 1075) else int m div 2 ^ (1075 - (k + 1023))) = int a"
    by auto
qed

lemma double_of_int_exact:
  assumes "\<bar>v\<bar> \<le> 2 ^ 53"
  shows "double_to_int64 (int_to_double v) = Inr (word_of_int v)"
proof (cases "v = 0")
  case True
  then show ?thesis by (simp add: int_to_double_def double_to_int64_def)
next
  case False
  define a where "a = nat \<bar>v\<bar>"
  define k where "k = floorlog 2 a - 1"
  define m where "m = (if k \<le> 52 then a * 2 ^ (52 - k) else round_bits (k - 52) a)"
  define sg where "sg = (if v < 0 then 1 else 0 :: nat)"
  have a: "0 < a" "a \<le> 2 ^ 53" using assms False by (auto simp: a_def)
  note sig = exact_significand [OF a, folded k_def, folded m_def]
  have x: "int_to_double v = word_of_nat (sg * 2 ^ 63 + (k + 1023) * 2 ^ 52 + (m - 2 ^ 52))"
  proof -
    have "(k + 1022) * 2 ^ 52 + m = (k + 1023) * 2 ^ 52 + (m - 2 ^ 52)" using sig(2) by simp
    then show ?thesis
      using False unfolding int_to_double_def Let_def sg_def k_def m_def a_def
      by (simp add: add.assoc)
  qed
  have le: "sg \<le> 1" "k + 1023 < 2 ^ 11" "m - 2 ^ 52 < 2 ^ 52"
    using sig by (auto simp: sg_def)
  note f = double_fields [OF le]
  have mag: "(2 :: int) ^ 52 + int (m - 2 ^ 52) = int m" using sig(2) by simp
  have va: "(if sg = 1 then - 1 else 1) * int a = v" using False by (auto simp: sg_def a_def)
  have e: "k + 1023 \<noteq> 0" "k + 1023 \<noteq> 0x7FF" using sig(1) by auto
  have range: "\<not> v < - (2 ^ 63)" "\<not> 2 ^ 63 \<le> v" using assms by auto
  show ?thesis
    unfolding double_to_int64_def x Let_def f mag
    using e range sig(4) va by (simp only: if_False not_False_eq_True simp_thms)
qed


section \<open>Witnesses\<close>

definition demo_inst :: srd_decoder_inst where
  "demo_inst = (new_c_inst demo_decoder ''i2c-1'')\<lparr>
     pd_output := [\<lparr>pdo_id = 0, output_type = SRD_OUTPUT_ANN, proto_id = ''i2c'', meta_type = None,
                     meta_name = None, meta_descr = None\<rparr>,
                   \<lparr>pdo_id = 1, output_type = SRD_OUTPUT_PROTO, proto_id = ''i2c'', meta_type = None,
                     meta_name = None, meta_descr = None\<rparr>],
     next_di := [1, 0],
     c_options := Some [(''baudrate'', GV_Int64 115200), (''format'', GV_String ''hex'')]\<rparr>"

definition demo_conditions :: "srd_term list list" where
  "demo_conditions = [[plain_term SRD_TERM_RISING_EDGE 0], [],
     [plain_term SRD_TERM_HIGH 0, plain_term SRD_TERM_FALLING_EDGE 1], [skip_term 12]]"

lemma c_wait_macros_witness:
  "c_wait (wait_args demo_conditions) (Some demo_inst) = c_decoder_wait_impl
     [[plain_term SRD_TERM_RISING_EDGE 0],
      [plain_term SRD_TERM_HIGH 0, plain_term SRD_TERM_FALLING_EDGE 1], [skip_term 12]] (Some demo_inst)"
  using c_wait_macros [of demo_conditions demo_inst]
  by (simp add: demo_conditions_def macro_term_def plain_term_def skip_term_def demo_inst_def
      new_c_inst_def Let_def)

definition demo_callbacks :: "srd_pd_callback list" where
  "demo_callbacks = [\<lparr>cb_output_type = SRD_OUTPUT_ANN, cb = 7, cb_data = None\<rparr>,
     \<lparr>cb_output_type = SRD_OUTPUT_META, cb = 8, cb_data = None\<rparr>]"

definition demo_annotation :: srd_c_annotation where
  "demo_annotation = \<lparr>c_ann_class = 2, c_ann_type = 0, c_ann_text = [''Stop'', ''P''],
     c_str_number_hex = [], c_numberic_value = 0\<rparr>"

definition demo_output_calls :: "output_op list" where
  "demo_output_calls = [RegisterOutput SRD_OUTPUT_META None, Put 10 12 0 (Some demo_annotation),
     PutMetaInt 10 12 2 99, Put 0 0 1 None, PutBinary 0 0 5 0 0 []]"

lemma demo_inst_outputs: "outputs_ok (Some demo_inst)"
  by (auto simp: outputs_ok_def demo_inst_def less_Suc_eq)


definition demo_stack :: inst_store where
  "demo_stack = (\<lambda>p. None)(0 \<mapsto> demo_inst, 1 \<mapsto> new_c_inst demo_decoder ''eeprom-1'')"

lemma c_proto_delivers_witness:
  "c_proto (\<lambda>di. inst_id di = ''eeprom-1'') demo_stack 5 9 1 ''DATA WRITE'' [C_U8 0x42, C_END] (Some demo_inst)
   = Inr (SRD_OK, [\<lparr>upper_di = 1, upper_start = 5, upper_end = 9, upper_cmd = ''DATA WRITE'',
       upper_fields = [C_U8 0x42]\<rparr>])"
  using c_proto_delivers [of demo_inst demo_stack "[C_U8 0x42]" 1 "pd_output demo_inst ! 1"
      "\<lambda>di. inst_id di = ''eeprom-1''" 5 9 "''DATA WRITE''" "[]"]
  by (simp add: demo_stack_def demo_inst_def new_c_inst_def Let_def slist_nth_def)


section \<open>Observations\<close>

text \<open>
  On a metadata output \<open>c_decoder_put\<close> hands the callback the annotation it was given, where
  every other path gives it a \<open>srd_proto_data_meta\<close>.
\<close>

lemma put_meta_passes_annotation:
  "output_type p = SRD_OUTPUT_META \<Longrightarrow> slist_nth (pd_output di) i = Some p \<Longrightarrow>
   srd_pd_output_callback_find_c sess SRD_OUTPUT_META = Some c \<Longrightarrow>
   \<exists>data. c_decoder_put sess s e i ann (Some di) = Inr (SRD_OK, [(c, data)])
     \<and> payload data = RawAnnotation ann"
  by (simp add: c_decoder_put_def)

text \<open>The two functions for metadata do not look at the type of the output.\<close>

lemma put_meta_on_any_output:
  "slist_nth (pd_output di) i = Some p \<Longrightarrow> fst (c_decoder_put_meta_int sess s e i v (Some di)) = SRD_OK"
  by (simp add: c_decoder_put_meta_int_def put_frame_def)

end
