(* ===== verification/Decoder_Stack.thy ===== *)
theory Decoder_Stack
  imports Decoder_Calls Srd_Api_Props
begin

text \<open>
  Decoders on top of decoders: the protocol messages among the calls of one decoder go through
  \<open>c_proto\<close> to the \<open>decode_upper\<close> of the next. Its contract, the locale
  \<open>stacked_decoder\<close>, says that where in the capture a message stands only matters for the
  positions it reports and that it ignores the messages for single bits; then a run over the
  calls is a run over the messages alone.
\<close>

section \<open>From calls to calls\<close>

text \<open>
  What \<open>c_proto\<close> makes of the calls of the instance \<open>di\<close>; the sentinel is added by
  the caller of the macro. The outputs and the stacked instances do not change in a run.
\<close>

fun stack_calls :: "(srd_decoder_inst \<Rightarrow> bool) \<Rightarrow> inst_store \<Rightarrow> srd_decoder_inst \<Rightarrow> out_call list \<Rightarrow>
    fault + upper_call list" where
  "stack_calls has_upper h di [] = Inr []"
| "stack_calls has_upper h di (CProto start_s end_s out cmd fs # cs) =
     ebind (c_proto has_upper h start_s end_s out cmd (fs @ [C_END]) (Some di)) (\<lambda>(ret, calls).
     ebind (stack_calls has_upper h di cs) (\<lambda>calls'. Inr (calls @ calls')))"
| "stack_calls has_upper h di (c # cs) = stack_calls has_upper h di cs"

text \<open>A run of an upper decoder over the calls it gets.\<close>

fun feed :: "(u64 \<Rightarrow> u64 \<Rightarrow> string \<Rightarrow> c_field list \<Rightarrow> 's \<Rightarrow> out_call list \<times> 's) \<Rightarrow> upper_call list \<Rightarrow> 's \<Rightarrow>
    out_call list \<times> 's" where
  "feed recv [] s = ([], s)"
| "feed recv (c # cs) s =
     (let (outs, s1) = recv (upper_start c) (upper_end c) (upper_cmd c) (upper_fields c) s;
          (outs', s2) = feed recv cs s1
      in (outs @ outs', s2))"

text \<open>A run over messages, as if all stood at sample 0.\<close>

fun on_messages :: "(u64 \<Rightarrow> u64 \<Rightarrow> string \<Rightarrow> c_field list \<Rightarrow> 's \<Rightarrow> out_call list \<times> 's) \<Rightarrow> message list \<Rightarrow> 's \<Rightarrow>
    out_call list \<times> 's" where
  "on_messages recv [] s = ([], s)"
| "on_messages recv (m # ms) s =
     (let (outs, s1) = recv 0 0 (fst m) (snd m) s; (outs', s2) = on_messages recv ms s1
      in (outs @ outs', s2))"

text \<open>A sender whose messages all go to the protocol output \<open>i\<close>, with fields that fit.\<close>

fun sends_on :: "int \<Rightarrow> out_call \<Rightarrow> bool" where
  "sends_on i (CProto start_s end_s out cmd fs) \<longleftrightarrow> out = i \<and> C_END \<notin> set fs \<and> length fs \<le> 64"
| "sends_on i c \<longleftrightarrow> True"

lemma sends_on_put [simp]: "sends_on i (c_put a e out cls txts)" "sends_on i (c_put_v a e out cls v txts)"
  by (simp_all add: c_put_def c_put_v_def)

fun upper_of :: "nat \<Rightarrow> out_call \<Rightarrow> upper_call option" where
  "upper_of q (CProto start_s end_s out cmd fs) =
     Some \<lparr>upper_di = q, upper_start = start_s, upper_end = end_s, upper_cmd = cmd, upper_fields = fs\<rparr>"
| "upper_of q c = None"

text \<open>One C decoder stacked on the sender, at \<open>q\<close>.\<close>

definition stacked_one :: "(srd_decoder_inst \<Rightarrow> bool) \<Rightarrow> inst_store \<Rightarrow> srd_decoder_inst \<Rightarrow> int \<Rightarrow> nat \<Rightarrow> bool" where
  "stacked_one has_upper h di i q \<longleftrightarrow> next_di di = [q]
     \<and> (case h q of None \<Rightarrow> False | Some upper \<Rightarrow> is_c_inst upper \<and> has_upper upper)
     \<and> (case slist_nth (pd_output di) i of None \<Rightarrow> False | Some p \<Rightarrow> output_type p = SRD_OUTPUT_PROTO)"

lemma stack_calls_one:
  assumes "stacked_one has_upper h di i q" "\<forall>c \<in> set outs. sends_on i c"
  shows "stack_calls has_upper h di outs = Inr (List.map_filter (upper_of q) outs)"
  using assms(2)
proof (induction outs)
  case Nil
  then show ?case by (simp add: map_filter_simps)
next
  case (Cons c outs)
  obtain upper p where q: "next_di di = [q]" "h q = Some upper" "is_c_inst upper" "has_upper upper"
    "slist_nth (pd_output di) i = Some p" "output_type p = SRD_OUTPUT_PROTO"
    using assms(1) by (auto simp: stacked_one_def split: option.splits)
  show ?case
  proof (cases c)
    case (CProto start_s end_s out cmd fs)
    then have "c_proto has_upper h start_s end_s out cmd (fs @ [C_END]) (Some di)
        = Inr (SRD_OK, [\<lparr>upper_di = q, upper_start = start_s, upper_end = end_s, upper_cmd = cmd,
            upper_fields = fs\<rparr>])"
      using Cons.prems q by (simp add: c_proto_def collect_fields_take)
    then show ?thesis using Cons CProto by (simp add: map_filter_simps)
  qed (use Cons in \<open>simp_all add: map_filter_simps\<close>)
qed

section \<open>The contract\<close>

locale stacked_decoder =
  fixes recv :: "u64 \<Rightarrow> u64 \<Rightarrow> string \<Rightarrow> c_field list \<Rightarrow> 's \<Rightarrow> out_call list \<times> 's"
    and core :: "'s \<Rightarrow> 's"
    and seen :: "out_call list \<Rightarrow> 'r list"
  assumes seen_append: "seen (xs @ ys) = seen xs @ seen ys"
    and core_recv: "core (snd (recv start_s end_s cmd fs s)) = core (snd (recv 0 0 cmd fs (core s)))"
    and seen_recv: "seen (fst (recv start_s end_s cmd fs s)) = seen (fst (recv 0 0 cmd fs (core s)))"
    and core_bits: "core (snd (recv start_s end_s ''BITS'' fs s)) = core s"
    and seen_bits: "seen (fst (recv start_s end_s ''BITS'' fs s)) = []"
begin

lemma seen_nil: "seen [] = []"
  using seen_append [of "[]" "[]"] by simp

lemma recv_core:
  assumes "core s = core s'"
  shows "core (snd (recv a b cmd fs s)) = core (snd (recv a' b' cmd fs s'))"
    "seen (fst (recv a b cmd fs s)) = seen (fst (recv a' b' cmd fs s'))"
  using core_recv [of a b cmd fs s] core_recv [of a' b' cmd fs s']
    seen_recv [of a b cmd fs s] seen_recv [of a' b' cmd fs s'] assms by simp_all

lemma feed_messages:
  "core s = core s' \<Longrightarrow>
   seen (fst (feed recv (List.map_filter (upper_of q) outs) s)) = seen (fst (on_messages recv (messages outs) s'))
   \<and> core (snd (feed recv (List.map_filter (upper_of q) outs) s)) = core (snd (on_messages recv (messages outs) s'))"
proof (induction outs arbitrary: s s')
  case Nil
  then show ?case by (simp add: map_filter_simps)
next
  case (Cons c outs)
  show ?case
  proof (cases c)
    case (CProto start_s end_s out cmd fs)
    show ?thesis
    proof (cases "cmd = ''BITS''")
      case True
      have "core (snd (recv start_s end_s cmd fs s)) = core s'"
        unfolding True using core_bits Cons.prems by simp
      then show ?thesis
        using Cons.IH [of "snd (recv start_s end_s cmd fs s)" s'] seen_bits [of start_s end_s fs s]
        by (simp add: map_filter_simps CProto True seen_append split_beta)
    next
      case False
      then show ?thesis
        using Cons.IH [OF recv_core(1) [OF Cons.prems, of start_s end_s cmd fs 0 0]]
          recv_core(2) [OF Cons.prems, of start_s end_s cmd fs 0 0]
        by (simp add: map_filter_simps CProto seen_append split_beta)
    qed
  qed (use Cons in \<open>simp_all add: map_filter_simps\<close>)
qed

end

end
