(* ===== verification/Ds1307_Decoder.thy ===== *)
theory Ds1307_Decoder
  imports Decoder_Calls
begin

text \<open>
  The decoder for the DS1307 clock (\<open>libsigrokdecode/c_decoders/ds1307_c.c\<close>), stacked on the
  I2C decoder: a state machine over the messages that \<open>c_proto\<close> hands to its
  \<open>decode_upper\<close>. Registers are numbers in binary coded decimal.
\<close>

section \<open>State\<close>

datatype ds1307_ann =
    ANN_REG_SECONDS | ANN_REG_MINUTES | ANN_REG_HOURS | ANN_REG_DAY | ANN_REG_DATE | ANN_REG_MONTH
  | ANN_REG_YEAR | ANN_REG_CONTROL | ANN_REG_RAM
  | ANN_BIT_CLOCK_HALT | ANN_BIT_SECONDS | ANN_BIT_RESERVED | ANN_BIT_MINUTES | ANN_BIT_12_24_HOURS
  | ANN_BIT_AM_PM | ANN_BIT_HOURS | ANN_BIT_DAY | ANN_BIT_DATE | ANN_BIT_MONTH | ANN_BIT_YEAR
  | ANN_BIT_OUT | ANN_BIT_SQWE | ANN_BIT_RS | ANN_BIT_RAM
  | ANN_READ_DATE_TIME | ANN_WRITE_DATE_TIME | ANN_READ_REG | ANN_WRITE_REG | ANN_WARNING

primrec ds1307_class :: "ds1307_ann \<Rightarrow> int" where
  "ds1307_class ANN_REG_SECONDS = 0"
| "ds1307_class ANN_REG_MINUTES = 1"
| "ds1307_class ANN_REG_HOURS = 2"
| "ds1307_class ANN_REG_DAY = 3"
| "ds1307_class ANN_REG_DATE = 4"
| "ds1307_class ANN_REG_MONTH = 5"
| "ds1307_class ANN_REG_YEAR = 6"
| "ds1307_class ANN_REG_CONTROL = 7"
| "ds1307_class ANN_REG_RAM = 8"
| "ds1307_class ANN_BIT_CLOCK_HALT = 9"
| "ds1307_class ANN_BIT_SECONDS = 10"
| "ds1307_class ANN_BIT_RESERVED = 11"
| "ds1307_class ANN_BIT_MINUTES = 12"
| "ds1307_class ANN_BIT_12_24_HOURS = 13"
| "ds1307_class ANN_BIT_AM_PM = 14"
| "ds1307_class ANN_BIT_HOURS = 15"
| "ds1307_class ANN_BIT_DAY = 16"
| "ds1307_class ANN_BIT_DATE = 17"
| "ds1307_class ANN_BIT_MONTH = 18"
| "ds1307_class ANN_BIT_YEAR = 19"
| "ds1307_class ANN_BIT_OUT = 20"
| "ds1307_class ANN_BIT_SQWE = 21"
| "ds1307_class ANN_BIT_RS = 22"
| "ds1307_class ANN_BIT_RAM = 23"
| "ds1307_class ANN_READ_DATE_TIME = 24"
| "ds1307_class ANN_WRITE_DATE_TIME = 25"
| "ds1307_class ANN_READ_REG = 26"
| "ds1307_class ANN_WRITE_REG = 27"
| "ds1307_class ANN_WARNING = 28"

definition days_of_week :: "string list" where
  "days_of_week = [''Sunday'', ''Monday'', ''Tuesday'', ''Wednesday'', ''Thursday'', ''Friday'', ''Saturday'']"

definition bcd2int :: "u8 \<Rightarrow> int" where
  "bcd2int b = uint (drop_bit 4 b AND 0x0f) * 10 + uint (b AND 0x0f)"

datatype ds1307_mode =
    STATE_IDLE | STATE_GET_SLAVE_ADDR | STATE_GET_REG_ADDR | STATE_WRITE_RTC_REGS
  | STATE_READ_RTC_REGS | STATE_READ_RTC_REGS2

record ds1307_state =
  clk_out :: int
  mode :: ds1307_mode
  hours :: int
  minutes :: int
  seconds :: int
  days :: int
  date :: int
  months :: int
  years :: int
  reg :: nat
  ss_block :: u64
  ss :: u64
  es :: u64

definition DS1307_I2C_ADDRESS :: u8 where
  "DS1307_I2C_ADDRESS = 0x68"

section \<open>Texts\<close>

text \<open>\<open>%d\<close>, \<open>%02d\<close> and \<open>%4d\<close> of an \<open>int\<close>.\<close>

definition fmt_d :: "int \<Rightarrow> string" where
  "fmt_d i = (if i < 0 then CHR ''-'' # dec_string (nat (- i)) else dec_string (nat i))"

definition fmt_02d :: "int \<Rightarrow> string" where
  "fmt_02d i = (if 0 \<le> i \<and> i < 10 then CHR ''0'' # fmt_d i else fmt_d i)"

definition fmt_4d :: "int \<Rightarrow> string" where
  "fmt_4d i = (let t = fmt_d i in replicate (4 - length t) CHR '' '' @ t)"

abbreviation (input) ds_put :: "u64 \<Rightarrow> u64 \<Rightarrow> ds1307_state \<Rightarrow> ds1307_ann \<Rightarrow> string list \<Rightarrow> out_call" where
  "ds_put start_s end_s s cls txts \<equiv> c_put start_s end_s (clk_out s) (ds1307_class cls) txts"

text \<open>The date and the time, once every register has been seen.\<close>

definition ds1307_output_datetime :: "ds1307_state \<Rightarrow> ds1307_ann \<Rightarrow> string \<Rightarrow> out_call list" where
  "ds1307_output_datetime s cls rw =
     (if days s < 1 \<or> date s < 0 \<or> months s < 0 \<or> years s < 0 \<or> hours s < 0 \<or> minutes s < 0 \<or> seconds s < 0
      then []
      else let ws = days_of_week ! nat ((days s - 1) mod 7) in
        [ds_put (ss_block s) (es s) s cls [snprintf_buf 128 (rw @ '' date/time: '' @ ws @ '', ''
           @ fmt_02d (date s) @ ''.'' @ fmt_02d (months s) @ ''.'' @ fmt_4d (years s) @ '' ''
           @ fmt_02d (hours s) @ '':'' @ fmt_02d (minutes s) @ '':'' @ fmt_02d (seconds s))]])"

section \<open>Registers\<close>

definition reserved :: "u64 \<Rightarrow> u64 \<Rightarrow> ds1307_state \<Rightarrow> out_call" where
  "reserved start_s end_s s = ds_put start_s end_s s ANN_BIT_RESERVED [''Reserved'', ''Rsvd'', ''R'']"

definition reg_seconds :: "u8 \<Rightarrow> u64 \<Rightarrow> u64 \<Rightarrow> ds1307_state \<Rightarrow> out_call list \<times> ds1307_state" where
  "reg_seconds b start_s end_s s0 =
     (let s = s0\<lparr>seconds := bcd2int (b AND 0x7f)\<rparr> in
      ([ds_put start_s end_s s ANN_REG_SECONDS [''Seconds'', ''Sec'', ''S''],
        ds_put start_s end_s s ANN_BIT_CLOCK_HALT
          [snprintf_buf 32 (''Clock halt: '' @ fmt_d (if bit b 7 then 1 else 0))],
        ds_put start_s end_s s ANN_BIT_SECONDS [snprintf_buf 32 (''Second: '' @ fmt_d (seconds s))]], s))"

definition reg_minutes :: "u8 \<Rightarrow> u64 \<Rightarrow> u64 \<Rightarrow> ds1307_state \<Rightarrow> out_call list \<times> ds1307_state" where
  "reg_minutes b start_s end_s s0 =
     (let s = s0\<lparr>minutes := bcd2int (b AND 0x7f)\<rparr> in
      ([ds_put start_s end_s s ANN_REG_MINUTES [''Minutes'', ''Min'', ''M''], reserved start_s end_s s,
        ds_put start_s end_s s ANN_BIT_MINUTES [snprintf_buf 32 (''Minute: '' @ fmt_d (minutes s))]], s))"

definition reg_hours :: "u8 \<Rightarrow> u64 \<Rightarrow> u64 \<Rightarrow> ds1307_state \<Rightarrow> out_call list \<times> ds1307_state" where
  "reg_hours b start_s end_s s0 =
     (let s = s0\<lparr>hours := bcd2int (if bit b 6 then b AND 0x1f else b AND 0x3f)\<rparr> in
      ([ds_put start_s end_s s ANN_REG_HOURS [''Hours'', ''H''], reserved start_s end_s s]
       @ (if bit b 6 then
            [ds_put start_s end_s s ANN_BIT_12_24_HOURS [''12-hour mode'', ''12h mode'', ''12h''],
             ds_put start_s end_s s ANN_BIT_AM_PM [if bit b 5 then ''PM'' else ''AM'']]
          else [ds_put start_s end_s s ANN_BIT_12_24_HOURS [''24-hour mode'', ''24h mode'', ''24h'']])
       @ [ds_put start_s end_s s ANN_BIT_HOURS [snprintf_buf 32 (''Hour: '' @ fmt_d (hours s))]], s))"

definition reg_day :: "u8 \<Rightarrow> u64 \<Rightarrow> u64 \<Rightarrow> ds1307_state \<Rightarrow> out_call list \<times> ds1307_state" where
  "reg_day b start_s end_s s0 =
     (let s = s0\<lparr>days := bcd2int (b AND 0x07)\<rparr> in
      ([ds_put start_s end_s s ANN_REG_DAY [''Day of week'', ''Day'', ''D''], reserved start_s end_s s]
       @ (if 1 \<le> days s \<and> days s \<le> 7 then
            [ds_put start_s end_s s ANN_BIT_DAY
              [snprintf_buf 64 (''Weekday: '' @ days_of_week ! nat (days s - 1))]]
          else []), s))"

definition reg_date :: "u8 \<Rightarrow> u64 \<Rightarrow> u64 \<Rightarrow> ds1307_state \<Rightarrow> out_call list \<times> ds1307_state" where
  "reg_date b start_s end_s s0 =
     (let s = s0\<lparr>date := bcd2int (b AND 0x3f)\<rparr> in
      ([ds_put start_s end_s s ANN_REG_DATE [''Date'', ''D''], reserved start_s end_s s,
        ds_put start_s end_s s ANN_BIT_DATE [snprintf_buf 32 (''Date: '' @ fmt_d (date s))]], s))"

definition reg_month :: "u8 \<Rightarrow> u64 \<Rightarrow> u64 \<Rightarrow> ds1307_state \<Rightarrow> out_call list \<times> ds1307_state" where
  "reg_month b start_s end_s s0 =
     (let s = s0\<lparr>months := bcd2int (b AND 0x1f)\<rparr> in
      ([ds_put start_s end_s s ANN_REG_MONTH [''Month'', ''Mon'', ''M''], reserved start_s end_s s,
        ds_put start_s end_s s ANN_BIT_MONTH [snprintf_buf 32 (''Month: '' @ fmt_d (months s))]], s))"

definition reg_year :: "u8 \<Rightarrow> u64 \<Rightarrow> u64 \<Rightarrow> ds1307_state \<Rightarrow> out_call list \<times> ds1307_state" where
  "reg_year b start_s end_s s0 =
     (let s = s0\<lparr>years := bcd2int (b AND 0xff) + 2000\<rparr> in
      ([ds_put start_s end_s s ANN_REG_YEAR [''Year'', ''Y''],
        ds_put start_s end_s s ANN_BIT_YEAR [snprintf_buf 32 (''Year: '' @ fmt_d (years s))]], s))"

definition reg_control :: "u8 \<Rightarrow> u64 \<Rightarrow> u64 \<Rightarrow> ds1307_state \<Rightarrow> out_call list \<times> ds1307_state" where
  "reg_control b start_s end_s s =
     ([ds_put start_s end_s s ANN_REG_CONTROL [''Control'', ''Ctrl'', ''C''], reserved start_s end_s s,
       ds_put start_s end_s s ANN_BIT_OUT
         [snprintf_buf 64 (''Output control: '' @ fmt_d (if bit b 7 then 1 else 0))],
       ds_put start_s end_s s ANN_BIT_SQWE
         [snprintf_buf 64 (''Square wave output: '' @ (if bit b 4 then ''en'' else ''dis'') @ ''abled'')],
       ds_put start_s end_s s ANN_BIT_RS [snprintf_buf 64 (''Square wave output rate: ''
         @ [''1Hz'', ''4096Hz'', ''8192Hz'', ''32768Hz''] ! unat (b AND 0x03))]], s)"

definition reg_ram :: "u8 \<Rightarrow> u64 \<Rightarrow> u64 \<Rightarrow> ds1307_state \<Rightarrow> out_call list \<times> ds1307_state" where
  "reg_ram b start_s end_s s =
     ([ds_put start_s end_s s ANN_REG_RAM [''RAM'', ''R''],
       ds_put start_s end_s s ANN_BIT_RAM [snprintf_buf 32 (''SRAM: 0x'' @ fmt_02X b)]], s)"

text \<open>One register byte; the address moves on and wraps around after \<open>0x3f\<close>.\<close>

definition ds1307_handle_reg :: "ds1307_state \<Rightarrow> u8 \<Rightarrow> u64 \<Rightarrow> u64 \<Rightarrow> out_call list \<times> ds1307_state" where
  "ds1307_handle_reg s b start_s end_s =
     (let (outs, s1) =
        (if reg s = 0 then reg_seconds b start_s end_s s
         else if reg s = 1 then reg_minutes b start_s end_s s
         else if reg s = 2 then reg_hours b start_s end_s s
         else if reg s = 3 then reg_day b start_s end_s s
         else if reg s = 4 then reg_date b start_s end_s s
         else if reg s = 5 then reg_month b start_s end_s s
         else if reg s = 6 then reg_year b start_s end_s s
         else if reg s = 7 then reg_control b start_s end_s s
         else reg_ram b start_s end_s s)
      in (outs, s1\<lparr>reg := if 0x3f < Suc (reg s1) then 0 else Suc (reg s1)\<rparr>))"

section \<open>The state machine\<close>

text \<open>The test for the address of the chip: another one ends the transfer, with a warning.\<close>

definition check_chip :: "u8 \<Rightarrow> ds1307_mode \<Rightarrow> ds1307_state \<Rightarrow> out_call list \<times> ds1307_state" where
  "check_chip databyte next_mode s =
     (if databyte \<noteq> DS1307_I2C_ADDRESS then
        (if databyte \<noteq> 0x7F then
           [ds_put (ss_block s) (es s) s ANN_WARNING
              [snprintf_buf 64 (''Ignoring non-DS1307 data (slave 0x'' @ fmt_02X databyte @ '')'')]]
         else [], s\<lparr>mode := STATE_IDLE\<rparr>)
      else ([], s\<lparr>mode := next_mode\<rparr>))"

text \<open>A data byte for a register, with the annotation that names the direction.\<close>

definition data_byte :: "ds1307_ann \<Rightarrow> string \<Rightarrow> u8 \<Rightarrow> ds1307_state \<Rightarrow> out_call list \<times> ds1307_state" where
  "data_byte cls what databyte s =
     (let (outs, s1) = ds1307_handle_reg s databyte (ss s) (es s)
      in (outs @ [ds_put (ss s) (es s) s cls [what]], s1))"

definition ds1307_recv_proto :: "(c_field \<Rightarrow> u8) \<Rightarrow> u64 \<Rightarrow> u64 \<Rightarrow> string \<Rightarrow> c_field list \<Rightarrow>
    ds1307_state \<Rightarrow> out_call list \<times> ds1307_state" where
  "ds1307_recv_proto other start_s end_s cmd flds s0 =
     (let s = s0\<lparr>ss := start_s, es := end_s\<rparr>;
          databyte = (case flds of [] \<Rightarrow> 0 | f # fs \<Rightarrow> field_u8 other f);
          (outs, s1) =
            (if cmd = ''START'' then ([], s\<lparr>mode := STATE_GET_SLAVE_ADDR, ss_block := start_s\<rparr>)
             else if cmd = ''START REPEAT'' then
               (if mode s = STATE_WRITE_RTC_REGS then ([], s\<lparr>mode := STATE_READ_RTC_REGS\<rparr>)
                else ([], s\<lparr>mode := STATE_GET_SLAVE_ADDR, ss_block := start_s\<rparr>))
             else if mode s = STATE_GET_SLAVE_ADDR then
               (if cmd = ''ADDRESS WRITE'' then check_chip databyte STATE_GET_REG_ADDR s
                else if cmd = ''ADDRESS READ'' then check_chip databyte STATE_READ_RTC_REGS s
                else ([], s))
             else if mode s = STATE_GET_REG_ADDR then
               (if cmd = ''DATA WRITE'' then ([], s\<lparr>reg := unat databyte, mode := STATE_WRITE_RTC_REGS\<rparr>)
                else ([], s))
             else if mode s = STATE_WRITE_RTC_REGS then
               (if cmd = ''DATA WRITE'' then data_byte ANN_WRITE_REG ''Register write'' databyte s
                else if cmd = ''STOP'' then
                  (ds1307_output_datetime s ANN_WRITE_DATE_TIME ''Written'', s\<lparr>mode := STATE_IDLE\<rparr>)
                else ([], s))
             else if mode s = STATE_READ_RTC_REGS then
               (if cmd = ''ADDRESS READ'' then check_chip databyte STATE_READ_RTC_REGS2 s else ([], s))
             else if mode s = STATE_READ_RTC_REGS2 then
               (if cmd = ''DATA READ'' then data_byte ANN_READ_REG ''Register read'' databyte s
                else if cmd = ''STOP'' then
                  (ds1307_output_datetime s ANN_READ_DATE_TIME ''Read'', s\<lparr>mode := STATE_IDLE\<rparr>)
                else ([], s))
             else ([], s))
      in (outs, if cmd = ''STOP'' then s1\<lparr>mode := STATE_IDLE\<rparr> else s1))"

definition ds1307_reset :: ds1307_state where
  "ds1307_reset = \<lparr>clk_out = 0, mode = STATE_IDLE, hours = - 1, minutes = - 1, seconds = - 1, days = - 1,
     date = - 1, months = - 1, years = - 1, reg = 0, ss_block = 0, ss = 0, es = 0\<rparr>"

definition ds1307_start :: "ds1307_state \<Rightarrow> srd_decoder_inst option \<Rightarrow> ds1307_state \<times> srd_decoder_inst option" where
  "ds1307_start s di =
     (let (ann, di') = c_decoder_register_output SRD_OUTPUT_ANN (Some ''ds1307'') di
      in (s\<lparr>clk_out := ann\<rparr>, di'))"

end
