(* ===== verification/Decoder_Run.thy ===== *)
theory Decoder_Run
  imports Srd_Api_Props
begin

text \<open>
  A decoder written in C is a loop around \<open>c_wait\<close>. This theory relates such a loop, running
  on the matching engine over the buffers of a chunk, to a plain walk over the samples of the
  chunk that looks at each pair of neighbouring samples once: the two give the same outputs. A
  decoder offers the walk its conditions and what it does after a match; the contract is the
  locale \<open>c_decoder\<close>.
\<close>

section \<open>The walk over the samples\<close>

definition cond_holds :: "(nat \<Rightarrow> u8) \<Rightarrow> (nat \<Rightarrow> u8) \<Rightarrow> srd_term list \<Rightarrow> bool" where
  "cond_holds old new cond \<longleftrightarrow> cond \<noteq> []
     \<and> (\<forall>t \<in> set cond. term_holds (old (nat (channel t))) (new (nat (channel t))) t)"

definition matched_bits :: "srd_term list list \<Rightarrow> (nat \<Rightarrow> u8) \<Rightarrow> (nat \<Rightarrow> u8) \<Rightarrow> u64" where
  "matched_bits conds old new = horner_sum of_bool 2 (map (cond_holds old new) conds)"

lemma bit_matched_bits:
  "length conds \<le> 64 \<Longrightarrow>
   bit (matched_bits conds old new) k \<longleftrightarrow> k < length conds \<and> cond_holds old new (conds ! k)"
  by (auto simp: matched_bits_def bit_horner_sum_bit_word_iff)

lemma matched_bits_zero:
  "length conds \<le> 64 \<Longrightarrow> matched_bits conds old new = 0 \<longleftrightarrow> (\<forall>c \<in> set conds. \<not> cond_holds old new c)"
  unfolding all_set_conv_all_nth by (auto simp: bit_eq_iff bit_matched_bits)

lemma word_zero_bits: "(w :: u64) = 0 \<longleftrightarrow> {k. bit w k} = {}"
  by (auto intro: bit_word_eqI)

lemma word_same_bits: "{k. bit (v :: u64) k} = {k. bit w k} \<Longrightarrow> v = w"
  by (auto intro: bit_word_eqI)

text \<open>
  \<open>sig ch n\<close> is channel \<open>ch\<close> at sample \<open>n\<close>; the walk covers the samples from \<open>n\<close> on, for
  the given count, and \<open>old\<close> are the pins before the first.
\<close>

fun decoder_scan :: "('s \<Rightarrow> srd_term list list) \<Rightarrow>
    (u64 \<Rightarrow> u64 \<Rightarrow> (nat \<Rightarrow> fault + u8) \<Rightarrow> 's \<Rightarrow> fault + 'o list \<times> 's) \<Rightarrow> (nat \<Rightarrow> nat \<Rightarrow> u8) \<Rightarrow>
    (nat \<Rightarrow> u8) \<Rightarrow> nat \<Rightarrow> nat \<Rightarrow> 's \<Rightarrow> fault + 'o list \<times> 's" where
  "decoder_scan conds resume sig old n 0 s = Inr ([], s)"
| "decoder_scan conds resume sig old n (Suc len) s =
     (let new = (\<lambda>ch. sig ch n); m = matched_bits (conds s) old new in
      if m = 0 then decoder_scan conds resume sig new (Suc n) len s
      else ebind (resume (word_of_nat n) m (\<lambda>ch. Inr (new ch)) s) (\<lambda>(outs, s').
           ebind (decoder_scan conds resume sig new (Suc n) len s') (\<lambda>(outs', s'').
           Inr (outs @ outs', s''))))"

text \<open>What holds of all outputs of the steps, for a state that keeps some part of itself, holds of the walk.\<close>

lemma scan_outputs:
  assumes "\<And>n m p s outs s'. key s = k \<Longrightarrow> resume n m p s = Inr (outs, s') \<Longrightarrow> (\<forall>c \<in> set outs. P c) \<and> key s' = k"
    and "key s = k" "decoder_scan conds resume sig old n len s = Inr (outs, s')"
  shows "\<forall>c \<in> set outs. P c"
  using assms(2,3)
proof (induction len arbitrary: old n s outs)
  case (Suc len)
  let ?new = "\<lambda>ch. sig ch n"
  let ?m = "matched_bits (conds s) old ?new"
  show ?case
  proof (cases "?m = 0")
    case True
    then show ?thesis using Suc by (simp add: Let_def)
  next
    case False
    with Suc.prems(2) obtain outs1 s1 outs2 where r: "resume (word_of_nat n) ?m (\<lambda>ch. Inr (?new ch)) s = Inr (outs1, s1)"
      "decoder_scan conds resume sig ?new (Suc n) len s1 = Inr (outs2, s')" "outs = outs1 @ outs2"
      by (auto simp: Let_def ebind_eq_Inr)
    then show ?thesis using assms(1) [OF Suc.prems(1) r(1)] Suc.IH [of s1 ?new "Suc n" outs2] by auto
  qed
qed simp

text \<open>How a run of a decoder's loop ends.\<close>

datatype loop_end = Returned int | Sleeping | OutOfFuel

section \<open>The contract\<close>

text \<open>A term without a counter whose verdict hangs on levels or edges, not on their absence.\<close>

definition signal_term :: "srd_term \<Rightarrow> bool" where
  "signal_term t \<longleftrightarrow> term_type t \<noteq> SRD_TERM_SKIP \<and> term_type t \<noteq> SRD_TERM_NO_EDGE \<and> 0 \<le> channel t"

text \<open>An instance that has a chunk to work on, its first \<open>nchan\<close> channels connected.\<close>

definition running :: "nat \<Rightarrow> int list \<Rightarrow> u8 list \<Rightarrow> srd_decoder_inst \<Rightarrow> bool" where
  "running nchan chmap pins di \<longleftrightarrow> is_c_inst di \<and> got_new_samples di \<and> \<not> want_wait_terminate di
     \<and> scan_ready di pins \<and> len_ok di \<and> abs_cur_samplenum di < abs_end_samplenum di
     \<and> nchan \<le> dec_num_channels di \<and> dec_channelmap di = Some chmap \<and> (\<forall>ch < nchan. 0 \<le> chmap ! ch)"

locale c_decoder =
  fixes conds :: "'s \<Rightarrow> srd_term list list"
    and resume :: "u64 \<Rightarrow> u64 \<Rightarrow> (nat \<Rightarrow> fault + u8) \<Rightarrow> 's \<Rightarrow> fault + 'o list \<times> 's"
    and nchan :: nat
    and loop :: "nat \<Rightarrow> srd_decoder_inst \<Rightarrow> 's \<Rightarrow>
      fault + loop_end \<times> 'o list \<times> srd_decoder_inst option \<times> 's"
  assumes some_conds: "conds s \<noteq> []" and few_conds: "length (conds s) \<le> 31"
    and plain_conds: "c \<in> set (conds s) \<Longrightarrow> c \<noteq> []
      \<and> (\<forall>t \<in> set c. signal_term t \<and> nat (channel t) < nchan)"
    and resume_pins: "(\<And>ch. ch < nchan \<Longrightarrow> p ch = q ch) \<Longrightarrow> resume n m p s = resume n m q s"
    and loop_step: "is_c_inst di \<Longrightarrow> loop (Suc fuel) di s =
      ebind (c_decoder_wait_impl (conds s) (Some di)) (\<lambda>(st, di').
      case st of
        WaitAgain \<Rightarrow> Inr (Sleeping, [], di', s)
      | WaitDone ret res \<Rightarrow>
          if ret \<noteq> SRD_OK then Inr (Returned ret, [], di', s)
          else (case di' of
            None \<Rightarrow> Inl NullDeref
          | Some d \<Rightarrow>
              ebind (resume (abs_cur_samplenum d) (match_array d) (\<lambda>ch. c_pin (int ch) (Some d)) s)
                (\<lambda>(outs, s').
              ebind (loop fuel d s') (\<lambda>(e, outs', d', s'').
              Inr (e, outs @ outs', d', s'')))))"
begin

lemma matched_cong:
  assumes "\<And>ch. ch < nchan \<Longrightarrow> old ch = old' ch" "\<And>ch. ch < nchan \<Longrightarrow> new ch = new' ch"
  shows "matched_bits (conds s) old new = matched_bits (conds s) old' new'"
proof -
  have "cond_holds old new c = cond_holds old' new' c" if "c \<in> set (conds s)" for c
    using plain_conds [OF that] assms by (auto simp: cond_holds_def)
  then show ?thesis by (simp add: matched_bits_def cong: map_cong)
qed

text \<open>Samples at which nothing matches are passed over.\<close>

lemma scan_pass:
  assumes "\<And>m. n \<le> m \<Longrightarrow> m < n + k \<Longrightarrow>
    matched_bits (conds s) (if m = n then old else (\<lambda>ch. sig ch (m - 1))) (\<lambda>ch. sig ch m) = 0"
  shows "decoder_scan conds resume sig old n (k + len) s =
    decoder_scan conds resume sig (if k = 0 then old else (\<lambda>ch. sig ch (n + k - 1))) (n + k) len s"
  using assms
proof (induction k arbitrary: n old)
  case 0
  then show ?case by simp
next
  case (Suc k)
  have "matched_bits (conds s) old (\<lambda>ch. sig ch n) = 0" using Suc.prems [of n] by simp
  then have "decoder_scan conds resume sig old n (Suc k + len) s
      = decoder_scan conds resume sig (\<lambda>ch. sig ch n) (Suc n) (k + len) s" by (simp add: Let_def)
  also have "\<dots> = decoder_scan conds resume sig (if k = 0 then (\<lambda>ch. sig ch n)
      else (\<lambda>ch. sig ch (Suc n + k - 1))) (Suc n + k) len s"
  proof (rule Suc.IH)
    fix m assume "Suc n \<le> m" "m < Suc n + k"
    then show "matched_bits (conds s) (if m = Suc n then (\<lambda>ch. sig ch n) else (\<lambda>ch. sig ch (m - 1)))
        (\<lambda>ch. sig ch m) = 0"
      using Suc.prems [of m] by (cases "m = Suc n") simp_all
  qed
  finally show ?case by simp
qed

lemma install_conds:
  "install_conditions (conds s) di = di\<lparr>condition_list := conds s\<rparr>"
  using some_conds by (simp add: install_conditions_def condition_list_free_def)

lemma running_wait:
  assumes "running nchan chmap pins di"
  shows "wait_ready (conds s) pins di"
proof -
  have "term_ok di t" if "c \<in> set (conds s)" "t \<in> set c" for c t
    using plain_conds [OF that(1)] that(2) assms by (auto simp: term_ok_def signal_term_def running_def)
  moreover obtain c where "c \<in> set (conds s)" using some_conds [of s] by (cases "conds s") auto
  ultimately show ?thesis
    using assms few_conds [of s] plain_conds
    by (auto simp: wait_ready_def running_def install_conds conds_ok_def have_non_null_conds_def)
qed

text \<open>What holds at a sample for the engine is what the walk computes.\<close>

lemma hits_matched:
  assumes "\<And>ch. ch < nchan \<Longrightarrow> old ch = pins ! ch"
  shows "hits (install_conditions (conds s) di) pins c m =
    {k. bit (matched_bits (conds s) (if m = c then old else (\<lambda>ch. pin_at di ch (m - 1)))
      (\<lambda>ch. pin_at di ch m)) k}"
proof -
  let ?old = "if m = c then old else (\<lambda>ch. pin_at di ch (m - 1))"
  have "cond_at (install_conditions (conds s) di) pins c m x
      \<longleftrightarrow> cond_holds ?old (\<lambda>ch. pin_at di ch m) x" if "x \<in> set (conds s)" for x
    using plain_conds [OF that] assms
    by (auto simp: cond_at_def cond_holds_def old_at_def install_conds)
  then show ?thesis
    using few_conds [of s] by (auto simp: hits_def install_conds bit_matched_bits)
qed

lemma after_match:
  assumes run: "running nchan chmap pins di" and fixed: "fixed_part di1 = fixed_part di"
    and out: "scan_outcome (install_conditions (conds s) di) ps c (unat (abs_end_samplenum di)) True di1"
    and lower: "unat (abs_start_samplenum di) \<le> c"
  defines "d \<equiv> with_pins (di1\<lparr>first_pos := False\<rparr>) chmap"
  shows "running nchan chmap (pins_at di (unat (abs_cur_samplenum d))) d" "\<not> first_pos d" "abs_cur_matched d"
    "pin_at d = pin_at di" "abs_end_samplenum d = abs_end_samplenum di"
    "abs_cur_samplenum d = abs_cur_samplenum di1" "match_array d = match_array di1"
    "\<And>ch. ch < nchan \<Longrightarrow> c_pin (int ch) (Some d) = Inr (pin_at di ch (unat (abs_cur_samplenum d)))"
proof -
  have "fixed_part (di1\<lparr>first_pos := False\<rparr>) = fixed_part di" using fixed by simp
  note f = fixed_signal [OF this] fixed_fields [OF this]
  show simps: "\<not> first_pos d" "abs_cur_samplenum d = abs_cur_samplenum di1" "match_array d = match_array di1"
    "abs_end_samplenum d = abs_end_samplenum di"
    using f(4) by (simp_all add: d_def with_pins_def)
  show "abs_cur_matched d" using out by (simp add: d_def with_pins_def scan_outcome_def)
  have chan: "channel_buffer d = channel_buffer di" "const_at d = const_at di"
    "dec_num_channels d = dec_num_channels di" "dec_channelmap d = dec_channelmap di"
    "inbuf d = inbuf di" "inbuf_const d = inbuf_const di" "abs_start_samplenum d = abs_start_samplenum di"
    using fixed by (simp_all add: d_def with_pins_def channel_buffer_def const_at_def fixed_part_def fun_eq_iff)
  then show pin: "pin_at d = pin_at di"
    by (intro ext) (simp add: pin_at_def cong: option.case_cong)
  have "chunk_ok d" using chan simps(4) run
    by (simp add: running_def scan_ready_def chunk_ok_def cong: option.case_cong)
  moreover have "len_ok d"
    using run f unfolding running_def len_ok_def
    by (auto simp: d_def with_pins_def split: option.splits)
  moreover have "unat (abs_cur_samplenum d) < unat (abs_end_samplenum di)" "c \<le> unat (abs_cur_samplenum d)"
    using out simps(2) by (simp_all add: scan_outcome_def first_hit_def)
  moreover have "old_pins_array d = Some (pins_at di (unat (abs_cur_samplenum d)))" "\<not> skip_zero d"
    using out simps(2) by (simp_all add: d_def with_pins_def scan_outcome_def install_conds)
      (simp add: pins_at_def)
  moreover have "got_new_samples d" "\<not> want_wait_terminate d"
    using run f by (simp_all add: d_def with_pins_def running_def)
  moreover have "is_c_inst d"
    using run fixed by (cases di; cases di1) (simp add: d_def with_pins_def running_def fixed_part_def)
  ultimately show "running nchan chmap (pins_at di (unat (abs_cur_samplenum d))) d"
    using run lower chan simps(4)
    by (simp add: running_def scan_ready_def pins_at_def word_le_nat_alt word_less_nat_alt)
  show "c_pin (int ch) (Some d) = Inr (pin_at di ch (unat (abs_cur_samplenum d)))" if "ch < nchan" for ch
    using that run f chan(3,4) pin
    by (auto simp: d_def with_pins_def c_pin_def rd_int_def running_def len_ok_def seen_pin_def)
qed

text \<open>
  The bits that hold at a sample, for a walk from \<open>c\<close> on with the pins \<open>old\<close> before it.
\<close>

definition bits_from :: "srd_decoder_inst \<Rightarrow> (nat \<Rightarrow> u8) \<Rightarrow> nat \<Rightarrow> 's \<Rightarrow> nat \<Rightarrow> u64" where
  "bits_from di old c s m = matched_bits (conds s)
     (if m = c then old else (\<lambda>ch. pin_at di ch (m - 1))) (\<lambda>ch. pin_at di ch m)"

text \<open>One wait: nothing in the rest of the chunk matches, or it stops at the next match.\<close>

lemma next_wait:
  fixes di :: srd_decoder_inst
  assumes run: "running nchan chmap pins di" and old: "\<And>ch. ch < nchan \<Longrightarrow> old ch = wait_pins di pins ! ch"
  defines "c \<equiv> wait_from di" and "e \<equiv> unat (abs_end_samplenum di)"
  obtains (quiet) d where "\<And>m. c \<le> m \<Longrightarrow> m < e \<Longrightarrow> bits_from di old c s m = 0"
      "c_decoder_wait_impl (conds s) (Some di) = Inr (WaitAgain, Some d)"
      "inbuf d = None" "handled_all_samples d"
  | (hit) d n where "c_decoder_wait_impl (conds s) (Some di)
        = Inr (WaitDone SRD_OK (Some (abs_cur_samplenum d, match_array d)), Some d)"
      "n = unat (abs_cur_samplenum d)" "c \<le> n" "n < e" "match_array d = bits_from di old c s n"
      "bits_from di old c s n \<noteq> 0" "\<And>m. c \<le> m \<Longrightarrow> m < n \<Longrightarrow> bits_from di old c s m = 0"
      "running nchan chmap (pins_at di n) d" "\<not> first_pos d" "abs_cur_matched d" "pin_at d = pin_at di"
      "abs_end_samplenum d = abs_end_samplenum di"
      "\<And>ch. ch < nchan \<Longrightarrow> c_pin (int ch) (Some d) = Inr (pin_at di ch n)"
proof -
  let ?di0 = "install_conditions (conds s) di"
  have w: "wait_from ?di0 = c" "wait_pins ?di0 pins = wait_pins di pins"
    by (simp_all add: wait_from_def c_def wait_pins_def install_conds refreshed_def)
  have hits: "hits ?di0 (wait_pins di pins) c m = {k. bit (bits_from di old c s m) k}" for m
    unfolding bits_from_def using hits_matched [of old "wait_pins di pins" s di c m] old by simp
  have zero: "bits_from di old c s m = 0 \<longleftrightarrow> hits ?di0 (wait_pins di pins) c m = {}" for m
    unfolding hits by (rule word_zero_bits)
  obtain found di1 where o: "scan_outcome ?di0 (wait_pins di pins) c e found di1"
    "fixed_part di1 = fixed_part di"
    "c_decoder_wait_impl (conds s) (Some di) =
      (if found then Inr (WaitDone SRD_OK (Some (abs_cur_samplenum di1, match_array di1)),
         Some (with_pins (di1\<lparr>first_pos := False\<rparr>) chmap))
       else Inr (WaitAgain, Some (drop_chunk di1)))"
    using wait_impl_outcome [OF running_wait [OF run], of chmap s] run w
    by (auto simp: e_def running_def)
  show ?thesis
  proof (cases found)
    case False
    show ?thesis
      by (rule quiet [where d = "drop_chunk di1"])
        (use o False zero in \<open>simp_all add: scan_outcome_def no_hit_def drop_chunk_def\<close>)
  next
    case True
    have low: "unat (abs_start_samplenum di) \<le> c"
      using run by (simp add: c_def wait_from_def running_def scan_ready_def word_le_nat_alt)
    define d where "d = with_pins (di1\<lparr>first_pos := False\<rparr>) chmap"
    have out: "scan_outcome ?di0 (wait_pins di pins) c (unat (abs_end_samplenum di)) True di1"
      using o(1) True by (simp add: e_def)
    note a = after_match [OF run o(2) out low, folded d_def]
    have fh: "first_hit ?di0 (wait_pins di pins) c e (unat (abs_cur_samplenum d))"
      "{k. bit (match_array d) k} = hits ?di0 (wait_pins di pins) c (unat (abs_cur_samplenum d))"
      using o(1) True a(6,7) by (simp_all add: scan_outcome_def)
    show ?thesis
    proof (rule hit [of d])
      show "match_array d = bits_from di old c s (unat (abs_cur_samplenum d))"
        using fh(2) unfolding hits by (rule word_same_bits)
    qed (use o(3) True a fh(1) zero in \<open>simp_all add: first_hit_def d_def [symmetric]\<close>)
  qed
qed

text \<open>The walk over the same samples, up to the next match and beyond it.\<close>

lemma scan_quiet:
  assumes "\<And>m. c \<le> m \<Longrightarrow> m < e \<Longrightarrow> bits_from di old c s m = 0"
  shows "decoder_scan conds resume (pin_at di) old c (e - c) s = Inr ([], s)"
  using scan_pass [of c "e - c" s old "pin_at di" 0] assms by (simp add: bits_from_def)

lemma scan_hit:
  assumes "c \<le> n" "n < e" "bits_from di old c s n \<noteq> 0"
    "\<And>m. c \<le> m \<Longrightarrow> m < n \<Longrightarrow> bits_from di old c s m = 0"
  shows "decoder_scan conds resume (pin_at di) old c (e - c) s =
    ebind (resume (word_of_nat n) (bits_from di old c s n) (\<lambda>ch. Inr (pin_at di ch n)) s) (\<lambda>(outs, s').
    ebind (decoder_scan conds resume (pin_at di) (\<lambda>ch. pin_at di ch n) (Suc n) (e - Suc n) s')
      (\<lambda>(outs', s''). Inr (outs @ outs', s'')))"
proof -
  let ?scan = "decoder_scan conds resume (pin_at di)"
  let ?old = "if n = c then old else (\<lambda>ch. pin_at di ch (n - 1))"
  have len: "e - c = (n - c) + Suc (e - Suc n)" and n': "c + (n - c) = n" "n - c = 0 \<longleftrightarrow> n = c"
    using assms(1,2) by auto
  have "?scan old c ((n - c) + Suc (e - Suc n)) s =
      ?scan (if n - c = 0 then old else (\<lambda>ch. pin_at di ch (c + (n - c) - 1))) (c + (n - c)) (Suc (e - Suc n)) s"
    by (rule scan_pass) (use assms(4) n' in \<open>simp add: bits_from_def\<close>)
  then have "?scan old c (e - c) s = ?scan ?old n (Suc (e - Suc n)) s"
    by (simp only: len n')
  then show ?thesis
    using assms(3) unfolding bits_from_def by (simp add: Let_def)
qed

text \<open>
  Running the loop on a chunk: it makes the outputs of the walk over the samples of the chunk,
  ends with a sleeping wait, and has given the buffers back.
\<close>

lemma run_chunk:
  assumes "running nchan chmap pins di" "\<And>ch. ch < nchan \<Longrightarrow> old ch = wait_pins di pins ! ch"
    "unat (abs_end_samplenum di) - wait_from di < fuel"
  shows "case decoder_scan conds resume (pin_at di) old (wait_from di)
        (unat (abs_end_samplenum di) - wait_from di) s of
      Inl f \<Rightarrow> loop fuel di s = Inl f
    | Inr (outs, s') \<Rightarrow> \<exists>d. loop fuel di s = Inr (Sleeping, outs, Some d, s')
        \<and> inbuf d = None \<and> handled_all_samples d"
  using assms
proof (induction fuel arbitrary: pins di old s)
  case 0
  then show ?case by simp
next
  case (Suc fuel)
  define c where "c = wait_from di"
  define e where "e = unat (abs_end_samplenum di)"
  let ?scan = "decoder_scan conds resume (pin_at di)"
  have run: "running nchan chmap pins di" by (rule Suc.prems(1))
  show ?case
  proof (cases rule: next_wait [OF run Suc.prems(2), where s = s, case_names 1 quiet hit])
    case (quiet d)
    then show ?thesis
      using scan_quiet [of c e di old s] run by (auto simp: loop_step running_def c_def e_def)
  next
    case (hit d n)
    let ?new = "\<lambda>ch. pin_at di ch n"
    let ?resume = "resume (abs_cur_samplenum d) (match_array d) (\<lambda>ch. c_pin (int ch) (Some d)) s"
    have "?resume = resume (word_of_nat n) (bits_from di old c s n) (\<lambda>ch. Inr (?new ch)) s"
    proof -
      have "?resume = resume (abs_cur_samplenum d) (match_array d) (\<lambda>ch. Inr (?new ch)) s"
        by (rule resume_pins) (rule hit(13))
      then show ?thesis using hit(2,5) by (simp add: c_def)
    qed
    then have scan: "?scan old c (e - c) s = ebind ?resume (\<lambda>(outs, s').
        ebind (?scan ?new (Suc n) (e - Suc n) s') (\<lambda>(outs', s''). Inr (outs @ outs', s'')))"
      using scan_hit [of c n e di old s] hit(3-7) by (simp add: c_def e_def)
    have from_d: "wait_from d = Suc n" "wait_pins d (pins_at di n) = pins_at di n"
      using hit(2,9,10) by (simp_all add: wait_from_def wait_pins_def)
    have IH: "case ?scan ?new (Suc n) (e - Suc n) s' of Inl f \<Rightarrow> loop fuel d s' = Inl f
      | Inr (outs, s'') \<Rightarrow> \<exists>d'. loop fuel d s' = Inr (Sleeping, outs, Some d', s'')
          \<and> inbuf d' = None \<and> handled_all_samples d'" for s'
    proof -
      have "?new ch = wait_pins d (pins_at di n) ! ch" if "ch < nchan" for ch
        using that run unfolding from_d(2) by (simp add: pins_at_def running_def)
      moreover have "e - Suc n < fuel" using Suc.prems(3) hit(3,4) by (simp add: e_def)
      ultimately show ?thesis
        using Suc.IH [OF hit(8), of ?new s'] hit(11,12) from_d(1) by (simp add: e_def)
    qed
    have step: "loop (Suc fuel) di s = ebind ?resume (\<lambda>(outs, s').
        ebind (loop fuel d s') (\<lambda>(e, outs', d', s''). Inr (e, outs @ outs', d', s'')))"
      using hit(1) run by (simp add: loop_step running_def)
    show ?thesis
    proof (cases ?resume)
      case (Inl f)
      then show ?thesis using scan step by (simp add: c_def e_def)
    next
      case (Inr x)
      obtain outs s' where x: "x = (outs, s')" by force
      show ?thesis
        using IH [of s'] scan step Inr x
        by (cases "?scan ?new (Suc n) (e - Suc n) s'") (auto simp: c_def e_def split: prod.splits)
    qed
  qed
qed

end

end
