(* ===== verification/Bit_Rate.thy ===== *)
theory Bit_Rate
  imports Decoder_Calls
begin

text \<open>
  The bit rate that decoders report is computed in \<open>double\<close>, by the same expressions in each
  of them: the error of a rounding is bounded, and for the sample rates of the hardware the result
  fits an \<open>int\<close>.
\<close>

section \<open>The computation\<close>

text \<open>
  A non-negative rational rounded to 53 significant bits, ties to even: what an operation on
  \<open>double\<close> does to its exact result. All values here are between \<open>2 ^ - 130\<close> and
  \<open>2 ^ 130\<close>, far from the ends of the exponent. \<open>round_scale\<close> is the exponent that brings
  a number between \<open>2 ^ 52\<close> and \<open>2 ^ 53\<close>.
\<close>

definition round_scale :: "rat \<Rightarrow> int" where
  "round_scale x =
     (let (p, q) = quotient_of x;
          e = int (floorlog 2 (nat p)) - int (floorlog 2 (nat q)) - 53
      in if x * 2 powi (- e) < 2 ^ 53 then e else e + 1)"

definition round_double :: "rat \<Rightarrow> rat" where
  "round_double x =
     (if x \<le> 0 then 0
      else let e = round_scale x; y = x * 2 powi (- e); m = \<lfloor>y\<rfloor>; r = y - of_int m
           in of_int (if 1 / 2 < r \<or> (r = 1 / 2 \<and> odd m) then m + 1 else m) * 2 powi e)"

text \<open>The bits per second of a transfer, as an \<open>int\<close>; a larger one is undefined.\<close>

definition bit_rate :: "u64 \<Rightarrow> u64 \<Rightarrow> nat \<Rightarrow> fault + u64" where
  "bit_rate rate len nbits =
     (let elapsed = round_double (round_double (1 / round_double (of_nat (unat rate)))
                      * round_double (of_nat (unat len)));
          v = round_double (round_double (1 / elapsed) * of_nat nbits)
      in if elapsed = 0 then Inl BadConversion
         else if 2 ^ 31 \<le> \<lfloor>v\<rfloor> then Inl BadConversion else Inr (word_of_int \<lfloor>v\<rfloor>))"

section \<open>Rounding\<close>

lemma floorlog_2_bounds: "0 < a \<Longrightarrow> 2 ^ (floorlog 2 a - 1) \<le> a \<and> a < 2 ^ floorlog 2 a \<and> 0 < floorlog 2 a"
  using floorlog_bounds [of a 2] by (auto simp: floorlog_def)

lemma round_scale_bounds:
  assumes "0 < x"
  shows "2 ^ 52 \<le> x * 2 powi (- round_scale x)"
proof -
  obtain p q where pq: "quotient_of x = (p, q)" by force
  have q: "0 < q" using pq by (rule quotient_of_denom_pos)
  have x: "x = of_int p / of_int q" using pq by (rule quotient_of_div)
  then have p: "0 < p" using assms q by (simp add: zero_less_divide_iff)
  define a b where "a = nat p" and "b = nat q"
  define k l where "k = floorlog 2 a - 1" and "l = floorlog 2 b"
  have ab: "0 < a" "0 < b" "x = of_nat a / of_nat b" using p q x by (simp_all add: a_def b_def)
  have k: "2 ^ k \<le> a" "floorlog 2 a = Suc k" and l: "b < 2 ^ l"
    using floorlog_2_bounds [OF ab(1)] floorlog_2_bounds [OF ab(2)] by (simp_all add: k_def l_def)
  define e where "e = int k - int l - 52"
  have scale: "round_scale x = (if x * 2 powi (- e) < 2 ^ 53 then e else e + 1)"
  proof -
    have "int (floorlog 2 a) - int (floorlog 2 b) - 53 = e" using k(2) by (simp add: e_def l_def)
    then show ?thesis
      by (simp only: round_scale_def pq Let_def prod.case a_def [symmetric] b_def [symmetric])
  qed
  have "(2 :: rat) powi (int k - int l) \<le> x"
  proof -
    have "(2 :: rat) ^ k * of_nat b \<le> of_nat a * 2 ^ l"
      using mult_mono [of "(2 :: rat) ^ k" "of_nat a" "of_nat b" "2 ^ l"] k(1) l
      by (metis less_imp_le of_nat_0_le_iff of_nat_le_iff of_nat_numeral of_nat_power)
    then have "(2 :: rat) ^ k / 2 ^ l \<le> x"
      using ab(2) by (simp add: ab(3) divide_simps)
    then show ?thesis by (simp add: power_int_diff)
  qed
  then have "2 powi (int k - int l) * 2 powi (- e) \<le> x * 2 powi (- e)"
    by (rule mult_right_mono) simp
  moreover have "(2 :: rat) powi (int k - int l) * 2 powi (- e) = 2 ^ 52"
    by (simp add: e_def flip: power_int_add)
  ultimately have low: "2 ^ 52 \<le> x * 2 powi (- e)" by simp
  have "2 * (2 :: rat) powi (- (e + 1)) = 2 powi (1 + - (e + 1))"
    by (subst power_int_add) simp_all
  then have half: "2 * (x * 2 powi (- (e + 1))) = x * 2 powi (- e)" by simp
  show ?thesis
  proof (cases "x * 2 powi (- e) < 2 ^ 53")
    case True
    with low scale show ?thesis by simp
  next
    case False
    then have "2 * 2 ^ 52 \<le> 2 * (x * 2 powi (- (e + 1)))" unfolding half by simp
    with False scale show ?thesis by simp
  qed
qed

lemma round_double_bounds:
  assumes "0 \<le> x"
  shows "x * (15 / 16) \<le> round_double x" "round_double x \<le> x * (17 / 16)"
proof -
  have "x * (15 / 16) \<le> round_double x \<and> round_double x \<le> x * (17 / 16)"
  proof (cases "x = 0")
    case True
    then show ?thesis by (simp add: round_double_def)
  next
    case False
    with assms have x: "0 < x" by simp
    define e where "e = round_scale x"
    define y where "y = x * 2 powi (- e)"
    define m where "m = \<lfloor>y\<rfloor>"
    define m' where "m' = (if 1 / 2 < y - of_int m \<or> (y - of_int m = 1 / 2 \<and> odd m) then m + 1 else m)"
    have y: "2 ^ 52 \<le> y" using round_scale_bounds [OF x] by (simp add: y_def e_def)
    have xy: "x = y * 2 powi e" by (simp add: y_def flip: power_int_add)
    have r: "round_double x = of_int m' * 2 powi e"
      using x by (simp add: round_double_def Let_def m'_def m_def y_def e_def)
    have "of_int m \<le> y" "y < of_int m + 1" using floor_correct [of y] by (simp_all add: m_def)
    then have "y - 1 \<le> of_int m'" "of_int m' \<le> y + 1" by (simp_all add: m'_def)
    with y have "y * (15 / 16) \<le> of_int m'" "of_int m' \<le> y * (17 / 16)" by simp_all
    then have "y * (15 / 16) * 2 powi e \<le> of_int m' * 2 powi e" "of_int m' * 2 powi e \<le> y * (17 / 16) * 2 powi e"
      by (simp_all add: mult_right_mono)
    moreover have "y * c * 2 powi e = x * c" for c using xy by (simp add: mult_ac)
    ultimately show ?thesis unfolding r by simp
  qed
  then show "x * (15 / 16) \<le> round_double x" "round_double x \<le> x * (17 / 16)" by simp_all
qed

section \<open>The bit rate fits\<close>

text \<open>The exact rate must be at most half of what an \<open>int\<close> holds.\<close>

lemma bit_rate_fits:
  assumes "0 < unat rate" "0 < unat len" "unat rate * nbits \<le> 2 ^ 30 * unat len"
  shows "\<exists>v. bit_rate rate len nbits = Inr v"
proof -
  define a b where "a = unat rate" and "b = unat len"
  define r :: rat where "r = of_nat a"
  define l :: rat where "l = of_nat b"
  define i where "i = round_double (1 / round_double r)"
  define el where "el = round_double (i * round_double l)"
  define q where "q = round_double (1 / el)"
  define v where "v = round_double (q * of_nat nbits)"
  have r: "0 < r" and l: "0 < l"
    using assms(1,2) by (simp_all add: r_def l_def a_def [symmetric] b_def [symmetric])
  have rate: "r * of_nat nbits \<le> 2 ^ 30 * l"
    using assms(3) unfolding r_def l_def a_def [symmetric] b_def [symmetric]
    by (metis of_nat_le_iff of_nat_mult of_nat_numeral of_nat_power)
  have R: "0 < round_double r" "round_double r \<le> r * (17 / 16)"
    using round_double_bounds [of r] r by simp_all
  have i: "15 / (17 * r) \<le> i"
  proof -
    have "1 / (r * (17 / 16)) \<le> 1 / round_double r" using R r by (intro divide_left_mono) simp_all
    then have "1 / (r * (17 / 16)) * (15 / 16) \<le> 1 / round_double r * (15 / 16)" by simp
    also have "\<dots> \<le> i" using round_double_bounds(1) [of "1 / round_double r"] R by (simp add: i_def)
    finally show ?thesis using r by (simp add: field_simps)
  qed
  have i0: "0 \<le> i" using r by (intro order_trans [OF _ i]) simp
  have L0: "0 \<le> round_double l" using round_double_bounds(1) [of l] l by simp
  have el: "3375 / 4352 * (l / r) \<le> el"
  proof -
    have "15 / (17 * r) * (l * (15 / 16)) \<le> i * round_double l"
      using i i0 round_double_bounds(1) [of l] l r by (intro mult_mono) simp_all
    then have "15 / (17 * r) * (l * (15 / 16)) * (15 / 16) \<le> i * round_double l * (15 / 16)" by simp
    also have "\<dots> \<le> el"
      using round_double_bounds(1) [of "i * round_double l"] i0 L0 by (simp add: el_def)
    finally show ?thesis using r by (simp add: field_simps)
  qed
  have pos: "0 < 3375 / 4352 * (l / r)" using l r by simp
  then have el0: "0 < el" using el by linarith
  have "1 / el \<le> 1 / (3375 / 4352 * (l / r))" using el el0 pos by (intro divide_left_mono mult_pos_pos) auto
  also have "\<dots> = 4352 / 3375 * (r / l)" using r l by (simp add: field_simps)
  finally have "1 / el * (17 / 16) \<le> 4352 / 3375 * (r / l) * (17 / 16)" by (rule mult_right_mono) simp
  moreover have "q \<le> 1 / el * (17 / 16)"
    using round_double_bounds(2) [of "1 / el"] el0 by (simp add: q_def)
  ultimately have q: "q \<le> 4352 / 3375 * (r / l) * (17 / 16)" by linarith
  have "0 \<le> 1 / el * (15 / 16)" using el0 by simp
  also have "\<dots> \<le> q" using round_double_bounds(1) [of "1 / el"] el0 by (simp add: q_def)
  finally have "0 \<le> q" .
  then have "v \<le> q * of_nat nbits * (17 / 16)"
    using round_double_bounds(2) [of "q * of_nat nbits"] by (simp add: v_def)
  also have "\<dots> \<le> 4352 / 3375 * (r / l) * (17 / 16) * of_nat nbits * (17 / 16)"
    using q by (intro mult_right_mono) simp_all
  also have "\<dots> = 4352 / 3375 * (17 / 16) * (17 / 16) * (r * of_nat nbits / l)" by simp
  also have "\<dots> \<le> 4352 / 3375 * (17 / 16) * (17 / 16) * 2 ^ 30"
    using rate l by (intro mult_left_mono) (simp_all add: divide_le_eq)
  also have "\<dots> < 2 ^ 31" by simp
  finally have "v < 2 ^ 31" .
  then have "\<lfloor>v\<rfloor> < 2 ^ 31" by (simp add: floor_less_iff)
  then show ?thesis
    using el0 unfolding bit_rate_def Let_def a_def [symmetric] b_def [symmetric] r_def [symmetric] l_def [symmetric] i_def [symmetric]
      el_def [symmetric] q_def [symmetric] v_def [symmetric] by simp
qed

text \<open>The samples from one to another, both counted.\<close>

lemma unat_range_length:
  assumes "unat w \<le> n" "n + 1 < 2 ^ 64"
  shows "unat (word_of_nat n - w + 1 :: u64) = n - unat w + 1"
proof -
  define m where "m = (word_of_nat n :: u64)"
  have m: "unat m = n" using assms(2) by (simp add: m_def unat_of_nat take_bit_nat_eq_self)
  have "unat (m - w) = n - unat w" using assms(1) m by (subst unat_sub) (simp_all add: word_le_nat_alt)
  then show ?thesis using assms(2) by (simp add: unat_word_ariths(1) m_def [symmetric])
qed

end
