(* ===== verification/I2C_Decoder.thy ===== *)
theory I2C_Decoder
  imports Decoder_Run Bit_Rate
begin

text \<open>
  The I2C decoder (\<open>libsigrokdecode/c_decoders/i2c_c.c\<close>). Its state is a record; what it
  puts on its outputs is the list of the calls it makes, in order. The endless loop of
  \<open>i2c_decode\<close> is cut at its waits: \<open>i2c_wait_args\<close> is what it waits for in a state and
  \<open>i2c_resume\<close> what it does when the wait has returned.
\<close>

section \<open>State\<close>

datatype i2c_state = STATE_FIND_START | STATE_FIND_ADDRESS | STATE_FIND_DATA | STATE_FIND_ACK

record i2c_bit_entry =
  bit_sda :: u8
  bit_ss :: u64
  bit_es :: u64

record i2c_s =
  state :: i2c_state
  bitcount :: nat
  databyte :: u8
  ss_byte :: u64
  wr :: int
  is_repeat_start :: bool
  bitwidth :: u64
  pdu_start :: u64
  pdu_bits :: nat
  packet_ss :: u64
  packet_es :: u64
  packet_part_ss :: u64
  address :: u8
  packet_data :: "u8 list option"
  packet_str :: string
  packet_str_short :: string
  bits :: "i2c_bit_entry list"
  out_ann :: int
  out_binary :: int
  out_python :: int
  out_bitrate :: int
  address_shifted :: bool
  show_data_point :: bool
  packets_format :: nat
  i2c_samplerate :: u64

datatype i2c_ann =
    ANN_START | ANN_REPEAT_START | ANN_STOP | ANN_ACK | ANN_NACK | ANN_BIT
  | ANN_ADDRESS_READ | ANN_ADDRESS_WRITE | ANN_DATA_READ | ANN_DATA_WRITE
  | ANN_PACKET | ANN_ATK_DATA | ANN_ATK_RISE

primrec ann_index :: "i2c_ann \<Rightarrow> int" where
  "ann_index ANN_START = 0"
| "ann_index ANN_REPEAT_START = 1"
| "ann_index ANN_STOP = 2"
| "ann_index ANN_ACK = 3"
| "ann_index ANN_NACK = 4"
| "ann_index ANN_BIT = 5"
| "ann_index ANN_ADDRESS_READ = 6"
| "ann_index ANN_ADDRESS_WRITE = 7"
| "ann_index ANN_DATA_READ = 8"
| "ann_index ANN_DATA_WRITE = 9"
| "ann_index ANN_PACKET = 10"
| "ann_index ANN_ATK_DATA = 11"
| "ann_index ANN_ATK_RISE = 12"

section \<open>Texts\<close>

definition fmt_binary :: "u8 \<Rightarrow> nat \<Rightarrow> string" where
  "fmt_binary val bufsize =
     (if bufsize < 9 then [] else map (\<lambda>i. if bit val (7 - i) then CHR ''1'' else CHR ''0'') [0..<8])"

definition i2c_format_data_value :: "u8 \<Rightarrow> nat \<Rightarrow> string" where
  "i2c_format_data_value v out_size = snprintf_buf out_size
     (if 32 \<le> v \<and> v \<le> 126 then [char_of (unat v)] else ''['' @ fmt_02X v @ '']'')"

text \<open>One byte in the format the user chose, as both the packet text and the data rows print it.\<close>

definition format_byte :: "nat \<Rightarrow> u8 \<Rightarrow> string" where
  "format_byte fmt v =
     (if fmt = 5 then fmt_03o v
      else if fmt = 4 then fmt_binary v 16
      else if fmt = 3 then dec_string (unat v)
      else if fmt = 2 then i2c_format_data_value v 16
      else fmt_02X v)"

text \<open>
  The loop of \<open>i2c_data_array_to_str\<close> over the bytes from index \<open>i\<close>, with the text
  written so far: it stops close to the end of the buffer.
\<close>

fun data_array_loop :: "nat \<Rightarrow> nat \<Rightarrow> nat \<Rightarrow> u8 list \<Rightarrow> string \<Rightarrow> string" where
  "data_array_loop fmt out_size i [] out = out"
| "data_array_loop fmt out_size i (v # vs) out =
     (if length out + 8 < out_size then
        let out1 = (if 0 < i \<and> length out + 2 < out_size then out @ '' '' else out);
            tmp = format_byte fmt v
        in if out_size \<le> length out1 + length tmp then out1
           else data_array_loop fmt out_size (Suc i) vs (out1 @ tmp)
      else out)"

definition i2c_data_array_to_str :: "nat \<Rightarrow> u8 list \<Rightarrow> nat \<Rightarrow> string" where
  "i2c_data_array_to_str fmt data out_size = data_array_loop fmt out_size 0 data []"

text \<open>The two texts of a packet, the second without the leading \<open>0x\<close>.\<close>

definition i2c_format_packet :: "i2c_s \<Rightarrow> u8 list \<Rightarrow> string \<times> string" where
  "i2c_format_packet s data =
     (let pkt_str = snprintf_buf 4096 (''0x'' @ fmt_02X (address s) @ '' ''
            @ (if wr s = 0 then ''RD'' else ''WR'') @ '': ''
            @ i2c_data_array_to_str (packets_format s) data 128);
          pkt_short = snprintf_buf 4096 (drop 2 pkt_str)
      in if packet_str s \<noteq> [] then
           (snprintf_buf 4096 (snprintf_buf 4096 (packet_str s @ '' [SR] '' @ pkt_str)),
            snprintf_buf 4096 (snprintf_buf 4096 (packet_str_short s @ '' [SR] '' @ pkt_short)))
         else (pkt_str, pkt_short))"

section \<open>Calls\<close>

definition i2c_put :: "u64 \<Rightarrow> u64 \<Rightarrow> int \<Rightarrow> i2c_ann \<Rightarrow> string list \<Rightarrow> out_call" where
  "i2c_put ss es out cls txts = c_put ss es out (ann_index cls) txts"

definition i2c_put_v :: "u64 \<Rightarrow> u64 \<Rightarrow> int \<Rightarrow> i2c_ann \<Rightarrow> u8 \<Rightarrow> string list \<Rightarrow> out_call" where
  "i2c_put_v ss es out cls val txts = c_put_v ss es out (ann_index cls) val txts"

section \<open>Packets\<close>

definition i2c_reset_packet :: "i2c_s \<Rightarrow> i2c_s" where
  "i2c_reset_packet s = s\<lparr>packet_data := map_option (\<lambda>d. []) (packet_data s), packet_str := [],
     packet_str_short := [], packet_ss := 0, packet_es := 0, packet_part_ss := 0, address := 0\<rparr>"

definition i2c_handle_packet :: "i2c_s \<Rightarrow> bool \<Rightarrow> fault + out_call list \<times> i2c_s" where
  "i2c_handle_packet s is_start_repeat =
     (if packets_format s = 0 then Inr ([], s)
      else case packet_data s of
        None \<Rightarrow> Inl NullDeref
      | Some data \<Rightarrow>
          if data = [] then Inr ([], if \<not> is_start_repeat then i2c_reset_packet s else s)
          else let (pkt_str, pkt_short) = i2c_format_packet s data in
            if is_start_repeat then
              Inr ([], s\<lparr>packet_data := Some [], packet_str := snprintf_buf 2048 pkt_str,
                packet_str_short := snprintf_buf 2048 pkt_short\<rparr>)
            else Inr ([i2c_put (packet_ss s) (packet_es s) (out_ann s) ANN_PACKET [pkt_str, pkt_short]],
              i2c_reset_packet s))"

section \<open>Conditions on the bus\<close>

text \<open>\<open>n\<close> is the sample the decoder stands at, \<open>sda\<close> what \<open>c_pin\<close> reads there.\<close>

definition i2c_handle_start :: "u64 \<Rightarrow> i2c_s \<Rightarrow> fault + out_call list \<times> i2c_s" where
  "i2c_handle_start n s0 =
     (let s = s0\<lparr>pdu_start := n, pdu_bits := 0\<rparr> in
      ebind (if is_repeat_start s then
               ebind (i2c_handle_packet s True) (\<lambda>(outs, s1).
               Inr (i2c_put n n (out_ann s) ANN_REPEAT_START [''Start repeat'', ''Sr'']
                    # CProto n n (out_python s) ''START REPEAT'' [] # outs, s1))
             else
               ebind (i2c_handle_packet s False) (\<lambda>(outs, s1).
               Inr (i2c_put n n (out_ann s) ANN_START [''Start'', ''S'']
                    # CProto n n (out_python s) ''START'' [] # outs, s1\<lparr>packet_ss := n\<rparr>)))
        (\<lambda>(outs, s1).
        Inr (outs, s1\<lparr>packet_part_ss := n, state := STATE_FIND_ADDRESS, bitcount := 0, databyte := 0,
          is_repeat_start := True, wr := - 1\<rparr>)))"

text \<open>
  The new bit goes to the front of the eight, the end of the one before is set, and the eighth
  also fixes the width of a bit.
\<close>

definition store_bit :: "u64 \<Rightarrow> u8 \<Rightarrow> i2c_s \<Rightarrow> i2c_s" where
  "store_bit n sda s =
     (let b0 = \<lparr>bit_sda = sda, bit_ss = n, bit_es = n\<rparr> # butlast (bits s);
          b1 = (if 0 < bitcount s then b0[1 := (b0 ! 1)\<lparr>bit_es := n\<rparr>] else b0)
      in if bitcount s = 7 then
           let w = bit_es (b1 ! 1) - bit_es (b1 ! 2)
           in s\<lparr>bitwidth := w, bits := b1[0 := (b1 ! 0)\<lparr>bit_es := bit_es (b1 ! 0) + w\<rparr>]\<rparr>
         else s\<lparr>bits := b1\<rparr>)"

definition bit_bytes :: "i2c_bit_entry \<Rightarrow> u8 list" where
  "bit_bytes e = bit_sda e # le_bytes (bit_ss e) @ le_bytes (bit_es e)"

fun put_bits :: "i2c_bit_entry list \<Rightarrow> u8 list \<Rightarrow> u8 list" where
  "put_bits [] out = out"
| "put_bits (e # es) out = (if length out + 17 \<le> 144 then put_bits es (out @ bit_bytes e) else out)"

text \<open>The message \<open>BITS\<close>: a header, then the bits in wire order.\<close>

definition bits_data :: "i2c_s \<Rightarrow> u8 list" where
  "bits_data s = put_bits (rev (bits s)) [0x02, 0, 0x00, 8]"

definition bit_annotations :: "i2c_s \<Rightarrow> out_call list" where
  "bit_annotations s = concat (map (\<lambda>e.
     i2c_put (bit_ss e) (bit_es e) (out_ann s) ANN_BIT [snprintf_buf 16 (dec_string (unat (bit_sda e)))]
     # (if show_data_point s then
          [i2c_put (bit_ss e) (bit_ss e) (out_ann s) ANN_ATK_DATA [''1''],
           i2c_put (bit_ss e) (bit_ss e) (out_ann s) ANN_ATK_RISE [''0'']]
        else [])) (bits s))"

text \<open>The class of the annotation and of the binary output of a byte.\<close>

definition byte_classes :: "i2c_s \<Rightarrow> (i2c_ann \<times> int) option" where
  "byte_classes s =
     (if state s = STATE_FIND_ADDRESS \<and> wr s = 1 then Some (ANN_ADDRESS_WRITE, 1)
      else if state s = STATE_FIND_ADDRESS \<and> wr s = 0 then Some (ANN_ADDRESS_READ, 0)
      else if state s = STATE_FIND_DATA then
        (if wr s = 1 then Some (ANN_DATA_WRITE, 3) else Some (ANN_DATA_READ, 2))
      else None)"

definition byte_message :: "i2c_s \<Rightarrow> u64 \<Rightarrow> u8 \<Rightarrow> out_call list" where
  "byte_message s byte_end d =
     (if state s = STATE_FIND_ADDRESS then
        [CProto (ss_byte s) byte_end (out_python s)
          (if wr s \<noteq> 0 then ''ADDRESS WRITE'' else ''ADDRESS READ'') [C_U8 d]]
      else if state s = STATE_FIND_DATA then
        [CProto (ss_byte s) byte_end (out_python s)
          (if wr s \<noteq> 0 then ''DATA WRITE'' else ''DATA READ'') [C_U8 d]]
      else [])"

definition address_annotations :: "i2c_s \<Rightarrow> u64 \<Rightarrow> u64 \<Rightarrow> i2c_ann \<Rightarrow> u8 \<Rightarrow> out_call list" where
  "address_annotations s n byte_end cls d =
     (let val_str = snprintf_buf 16 (fmt_02X d);
          is_write = (cls = ANN_ADDRESS_WRITE)
      in i2c_put n byte_end (out_ann s) cls
           (if wr s \<noteq> 0 then [''Write'', ''Wr'', ''W''] else [''Read'', ''Rd'', ''R''])
         # (if show_data_point s then
              [i2c_put n n (out_ann s) ANN_ATK_DATA [''1''], i2c_put n n (out_ann s) ANN_ATK_RISE [''0'']]
            else [])
         @ [i2c_put_v (ss_byte s) n (out_ann s) cls d
              [snprintf_buf 64 ((if is_write then ''Address write'' else ''Address read'') @ '': '' @ val_str),
               snprintf_buf 64 ((if is_write then ''AW'' else ''AR'') @ '': '' @ val_str), val_str]])"

definition data_annotations :: "i2c_s \<Rightarrow> u64 \<Rightarrow> i2c_ann \<Rightarrow> u8 \<Rightarrow> out_call list" where
  "data_annotations s byte_end cls d =
     (let val_str = snprintf_buf 16 (format_byte (packets_format s) d);
          is_write = (cls = ANN_DATA_WRITE)
      in [i2c_put_v (ss_byte s) byte_end (out_ann s) cls d
            [snprintf_buf 64 ((if is_write then ''Data write'' else ''Data read'') @ '': '' @ val_str),
             snprintf_buf 64 ((if is_write then ''DW'' else ''DR'') @ '': '' @ val_str), val_str]])"

text \<open>The calls for a whole byte \<open>d\<close>, in order.\<close>

definition byte_calls :: "i2c_s \<Rightarrow> u64 \<Rightarrow> u64 \<Rightarrow> u8 \<Rightarrow> out_call list" where
  "byte_calls s n byte_end d =
     CProto (ss_byte s) byte_end (out_python s) ''BITS'' [C_BYTES (bits_data s)]
     # byte_message s byte_end d
     @ (case byte_classes s of None \<Rightarrow> []
        | Some (cls, bin) \<Rightarrow> [CPutBin (ss_byte s) byte_end (out_binary s) bin 1 [d]])
     @ bit_annotations s
     @ (case byte_classes s of None \<Rightarrow> []
        | Some (cls, bin) \<Rightarrow>
            if cls = ANN_ADDRESS_WRITE \<or> cls = ANN_ADDRESS_READ then address_annotations s n byte_end cls d
            else data_annotations s byte_end cls d)"

text \<open>The part of \<open>i2c_handle_address_or_data\<close> after the eighth bit.\<close>

definition i2c_whole_byte :: "u64 \<Rightarrow> i2c_s \<Rightarrow> fault + out_call list \<times> i2c_s" where
  "i2c_whole_byte n s0 =
     (let d0 = databyte s0;
          s1 = (if state s0 = STATE_FIND_ADDRESS then s0\<lparr>wr := if d0 AND 1 \<noteq> 0 then 0 else 1\<rparr> else s0);
          d = (if state s0 = STATE_FIND_ADDRESS \<and> address_shifted s0 then drop_bit 1 d0 else d0);
          byte_end = n + bitwidth s1
      in ebind (if state s1 = STATE_FIND_DATA then
                  (case packet_data s1 of
                     None \<Rightarrow> Inl NullDeref
                   | Some data \<Rightarrow> Inr (s1\<lparr>packet_data := Some (data @ [d])\<rparr>))
                else Inr s1)
        (\<lambda>s2.
        let s3 = s2\<lparr>packet_es := byte_end\<rparr>;
            s4 = (case byte_classes s3 of
                    Some (cls, bin) \<Rightarrow> if cls = ANN_ADDRESS_WRITE \<or> cls = ANN_ADDRESS_READ
                      then s3\<lparr>address := d\<rparr> else s3
                  | None \<Rightarrow> s3)
        in Inr (byte_calls s3 n byte_end d, s4\<lparr>bitcount := 0, databyte := 0, state := STATE_FIND_ACK\<rparr>)))"

definition i2c_handle_address_or_data :: "u64 \<Rightarrow> u8 \<Rightarrow> i2c_s \<Rightarrow> fault + out_call list \<times> i2c_s" where
  "i2c_handle_address_or_data n sda s0 =
     (let s1 = s0\<lparr>pdu_bits := Suc (pdu_bits s0), databyte := push_bit 1 (databyte s0) OR sda\<rparr>;
          s2 = (if bitcount s1 = 0 then s1\<lparr>ss_byte := n\<rparr> else s1);
          s3 = store_bit n sda s2
      in if bitcount s3 < 7 then Inr ([], s3\<lparr>bitcount := Suc (bitcount s3)\<rparr>)
         else i2c_whole_byte n s3)"

definition i2c_get_ack :: "u64 \<Rightarrow> u8 \<Rightarrow> i2c_s \<Rightarrow> out_call list \<times> i2c_s" where
  "i2c_get_ack n sda s0 =
     (let ack_end = n + bitwidth s0; s = s0\<lparr>packet_es := ack_end\<rparr>
      in (if sda = 0 then [i2c_put n ack_end (out_ann s) ANN_ACK [''ACK'', ''A''],
                           CProto n ack_end (out_python s) ''ACK'' []]
          else [i2c_put n ack_end (out_ann s) ANN_NACK [''NACK'', ''N''],
                CProto n ack_end (out_python s) ''NACK'' []],
          s\<lparr>state := STATE_FIND_DATA\<rparr>))"

section \<open>Stop\<close>

definition i2c_handle_stop :: "u64 \<Rightarrow> i2c_s \<Rightarrow> fault + out_call list \<times> i2c_s" where
  "i2c_handle_stop n s0 =
     ebind (if i2c_samplerate s0 \<noteq> 0 then
              ebind (bit_rate (i2c_samplerate s0) (n - pdu_start s0 + 1) (pdu_bits s0)) (\<lambda>bitrate.
              Inr [CPutMetaInt (ss_byte s0) n (out_bitrate s0) bitrate])
            else Inr []) (\<lambda>meta.
     ebind (i2c_handle_packet (s0\<lparr>packet_es := n\<rparr>) False) (\<lambda>(outs, s).
     Inr (meta @ outs @ [i2c_put n n (out_ann s) ANN_STOP [''Stop'', ''P''],
            CProto n n (out_python s) ''STOP'' []],
          s\<lparr>state := STATE_FIND_START, is_repeat_start := False, wr := - 1\<rparr>)))"

section \<open>The decoder\<close>

abbreviation (input) SCL :: u32 where "SCL \<equiv> 0"
abbreviation (input) SDA :: u32 where "SDA \<equiv> 1"

text \<open>What the loop waits for in each state.\<close>

fun i2c_wait_args :: "i2c_state \<Rightarrow> c_arg list" where
  "i2c_wait_args STATE_FIND_START = [ArgInt (CW_ENC 0 SCL), ArgInt (CW_ENC 3 SDA), ArgInt CW_END]"
| "i2c_wait_args STATE_FIND_ADDRESS = [ArgInt (CW_ENC 2 SCL), ArgInt CW_END]"
| "i2c_wait_args STATE_FIND_DATA =
     [ArgInt (CW_ENC 2 SCL), ArgInt CW_OR, ArgInt (CW_ENC 0 SCL), ArgInt (CW_ENC 3 SDA),
      ArgInt CW_OR, ArgInt (CW_ENC 0 SCL), ArgInt (CW_ENC 2 SDA), ArgInt CW_END]"
| "i2c_wait_args STATE_FIND_ACK = [ArgInt (CW_ENC 2 SCL), ArgInt CW_END]"

text \<open>
  What it does after a wait that returned SRD_OK; \<open>pin\<close> is the result of
  \<open>c_pin(di, SDA)\<close>, read where the code reads it.
\<close>

definition i2c_resume :: "u64 \<Rightarrow> u64 \<Rightarrow> fault + u8 \<Rightarrow> i2c_s \<Rightarrow> fault + out_call list \<times> i2c_s" where
  "i2c_resume n matched pin s =
     (case state s of
        STATE_FIND_START \<Rightarrow> i2c_handle_start n s
      | STATE_FIND_ADDRESS \<Rightarrow> ebind pin (\<lambda>sda. i2c_handle_address_or_data n sda s)
      | STATE_FIND_DATA \<Rightarrow>
          if bit matched 0 then ebind pin (\<lambda>sda. i2c_handle_address_or_data n sda s)
          else if bit matched 1 then i2c_handle_start n s
          else if bit matched 2 then i2c_handle_stop n s
          else Inr ([], s)
      | STATE_FIND_ACK \<Rightarrow> ebind pin (\<lambda>sda. Inr (i2c_get_ack n sda s)))"

text \<open>
  The loop of \<open>i2c_decode\<close> on an instance, with fuel for its iterations: it ends when a wait
  returns an error, and stops at a wait that sleeps because the samples are used up.
\<close>

fun i2c_loop :: "nat \<Rightarrow> srd_decoder_inst \<Rightarrow> i2c_s \<Rightarrow>
    fault + loop_end \<times> out_call list \<times> srd_decoder_inst option \<times> i2c_s" where
  "i2c_loop 0 di s = Inr (OutOfFuel, [], Some di, s)"
| "i2c_loop (Suc fuel) di s =
     ebind (c_wait (i2c_wait_args (state s)) (Some di)) (\<lambda>(st, di').
     case st of
       WaitAgain \<Rightarrow> Inr (Sleeping, [], di', s)
     | WaitDone ret res \<Rightarrow>
         if ret \<noteq> SRD_OK then Inr (Returned ret, [], di', s)
         else (case di' of
           None \<Rightarrow> Inl NullDeref
         | Some d \<Rightarrow>
             ebind (i2c_resume (abs_cur_samplenum d) (match_array d) (c_pin 1 (Some d)) s) (\<lambda>(outs, s').
             ebind (i2c_loop fuel d s') (\<lambda>(e, outs', d', s'').
             Inr (e, outs @ outs', d', s'')))))"

text \<open>The colours of two rows, put before the loop at sample \<open>(uint64_t)-1\<close>.\<close>

definition i2c_prologue :: "i2c_s \<Rightarrow> out_call list" where
  "i2c_prologue s = [i2c_put (- 1) (- 1) (out_ann s) ANN_ATK_DATA [''color:#4edc44''],
     i2c_put (- 1) (- 1) (out_ann s) ANN_ATK_RISE [''color:#4edc44'']]"

definition i2c_decode :: "nat \<Rightarrow> srd_decoder_inst \<Rightarrow> i2c_s \<Rightarrow>
    fault + loop_end \<times> out_call list \<times> srd_decoder_inst option \<times> i2c_s" where
  "i2c_decode fuel di s =
     ebind (i2c_loop fuel di s) (\<lambda>(e, outs, d, s'). Inr (e, i2c_prologue s @ outs, d, s'))"

section \<open>Reset, start, metadata\<close>

text \<open>\<open>calloc\<close> leaves every field zero.\<close>

definition i2c_reset_impl :: i2c_s where
  "i2c_reset_impl = \<lparr>state = STATE_FIND_START, bitcount = 0, databyte = 0, ss_byte = 0, wr = 0,
     is_repeat_start = False, bitwidth = 0, pdu_start = 0, pdu_bits = 0, packet_ss = 0,
     packet_es = 0, packet_part_ss = 0, address = 0, packet_data = None, packet_str = [],
     packet_str_short = [], bits = replicate 8 \<lparr>bit_sda = 0, bit_ss = 0, bit_es = 0\<rparr>,
     out_ann = 0, out_binary = 0, out_python = 0, out_bitrate = 0, address_shifted = False,
     show_data_point = False, packets_format = 0, i2c_samplerate = 0\<rparr>"

definition packets_format_of :: "string option \<Rightarrow> nat" where
  "packets_format_of fmt =
     (if fmt = Some ''none'' then 0 else if fmt = Some ''hex'' then 1
      else if fmt = Some ''ascii'' then 2 else if fmt = Some ''dec'' then 3
      else if fmt = Some ''bin'' then 4 else if fmt = Some ''oct'' then 5 else 1)"

definition i2c_start :: "i2c_s \<Rightarrow> srd_decoder_inst option \<Rightarrow> i2c_s \<times> srd_decoder_inst option" where
  "i2c_start s di0 =
     (let (ann, di1) = c_decoder_register_output SRD_OUTPUT_ANN (Some ''i2c'') di0;
          (bin, di2) = c_decoder_register_output SRD_OUTPUT_BINARY (Some ''i2c'') di1;
          (pro, di3) = c_decoder_register_output SRD_OUTPUT_PROTO (Some ''i2c'') di2;
          (rate, di4) = c_decoder_register_output SRD_OUTPUT_META (Some ''i2c'') di3
      in (s\<lparr>out_ann := ann, out_binary := bin, out_python := pro, out_bitrate := rate,
            address_shifted := (c_decoder_get_option_string (Some ''address_format'')
              (Some ''shifted'') di4 = Some ''shifted''),
            show_data_point := (c_opt_bool (Some ''show_data_point'') 1 di4 \<noteq> 0),
            packets_format := packets_format_of (c_decoder_get_option_string
              (Some ''packets_format'') (Some ''hex'') di4),
            packet_data := (case packet_data s of None \<Rightarrow> Some [] | Some d \<Rightarrow> Some d),
            wr := - 1, i2c_samplerate := c_decoder_get_samplerate di4\<rparr>, di4))"

definition i2c_metadata :: "int \<Rightarrow> u64 \<Rightarrow> i2c_s \<Rightarrow> i2c_s" where
  "i2c_metadata key value s = (if key = 10000 then s\<lparr>i2c_samplerate := value\<rparr> else s)"

end
