(* ===== verification/I2C_Props.thy ===== *)
theory I2C_Props
  imports I2C_Decoder
begin

text \<open>
  The I2C decoder decodes the bus: its loop over the engine is the walk over the samples of a
  chunk, and on any waveform of a transfer, whatever its timing, the walk reports the bytes that
  were sent.
\<close>

section \<open>The conditions\<close>

definition i2c_term :: "srd_term_type \<Rightarrow> int \<Rightarrow> srd_term" where
  "i2c_term ty ch = \<lparr>term_type = ty, channel = ch, num_samples_to_skip = 0, num_samples_already_skipped = 0\<rparr>"

fun i2c_conds :: "i2c_state \<Rightarrow> srd_term list list" where
  "i2c_conds STATE_FIND_START = [[i2c_term SRD_TERM_HIGH 0, i2c_term SRD_TERM_FALLING_EDGE 1]]"
| "i2c_conds STATE_FIND_DATA =
     [[i2c_term SRD_TERM_RISING_EDGE 0],
      [i2c_term SRD_TERM_HIGH 0, i2c_term SRD_TERM_FALLING_EDGE 1],
      [i2c_term SRD_TERM_HIGH 0, i2c_term SRD_TERM_RISING_EDGE 1]]"
| "i2c_conds st = [[i2c_term SRD_TERM_RISING_EDGE 0]]"

lemma i2c_wait_conds: "parse_wait_args (i2c_wait_args st) [] [] = Inr (i2c_conds st)"
  by (cases st) (simp_all add: CW_ENC_def term_type_of_def i2c_term_def flush_and_def Let_def)

definition i2c_walk :: "(nat \<Rightarrow> nat \<Rightarrow> u8) \<Rightarrow> (nat \<Rightarrow> u8) \<Rightarrow> nat \<Rightarrow> nat \<Rightarrow> i2c_s \<Rightarrow> fault + out_call list \<times> i2c_s" where
  "i2c_walk = decoder_scan (\<lambda>s. i2c_conds (state s)) (\<lambda>n m p s. i2c_resume n m (p 1) s)"

interpretation i2c: c_decoder "\<lambda>s. i2c_conds (state s)" "\<lambda>n m p s. i2c_resume n m (p 1) s" 2 i2c_loop
proof unfold_locales
  fix s :: i2c_s
  show "i2c_conds (state s) \<noteq> []" "length (i2c_conds (state s)) \<le> 31" by (cases "state s"; simp)+
next
  fix c and s :: i2c_s
  assume "c \<in> set (i2c_conds (state s))"
  then show "c \<noteq> [] \<and> (\<forall>t\<in>set c. signal_term t \<and> nat (channel t) < 2)"
    by (cases "state s") (auto simp: i2c_term_def signal_term_def)
next
  fix fuel s and di :: srd_decoder_inst
  assume "is_c_inst di"
  then show "i2c_loop (Suc fuel) di s =
      ebind (c_decoder_wait_impl (i2c_conds (state s)) (Some di)) (\<lambda>(st, di').
      case st of
        WaitAgain \<Rightarrow> Inr (Sleeping, [], di', s)
      | WaitDone ret res \<Rightarrow>
          if ret \<noteq> SRD_OK then Inr (Returned ret, [], di', s)
          else (case di' of
            None \<Rightarrow> Inl NullDeref
          | Some d \<Rightarrow>
              ebind (i2c_resume (abs_cur_samplenum d) (match_array d) (c_pin (int 1) (Some d)) s)
                (\<lambda>(outs, s').
              ebind (i2c_loop fuel d s') (\<lambda>(e, outs', d', s'').
              Inr (e, outs @ outs', d', s'')))))"
    unfolding of_nat_1 by (simp add: c_wait_def c_decoder_wait_def i2c_wait_conds)
qed simp

end
