(* ===== verification/Demo_Chunk.thy ===== *)
theory Demo_Chunk
  imports Decoder_Run
begin

text \<open>
  For the witnesses of the decoders: an instance that has just been given a chunk with the
  samples of some channels, packed into bytes the way a device delivers them.
\<close>

definition pack_bits :: "bool list \<Rightarrow> u8 list" where
  "pack_bits xs = map (\<lambda>i. horner_sum of_bool 2 (take 8 (drop (8 * i) xs))) [0..<(length xs + 7) div 8]"

lemma pack_bits_bit:
  assumes "i < length xs"
  shows "bit (pack_bits xs ! (i div 8)) (i mod 8) = xs ! i"
proof -
  have "i div 8 < (length xs + 7) div 8" using assms by linarith
  then have "pack_bits xs ! (i div 8) = horner_sum of_bool 2 (take 8 (drop (8 * (i div 8)) xs))"
    by (simp add: pack_bits_def)
  moreover have e: "8 * (i div 8) + i mod 8 = i" "i mod 8 < 8" by simp_all
  moreover have "i mod 8 < length xs - 8 * (i div 8)" using assms e(1) by linarith
  ultimately show ?thesis
    by (simp add: bit_horner_sum_bit_word_iff)
qed

text \<open>The channels are numbered as they come; all carry the same number of samples.\<close>

definition chunk_inst :: "srd_decoder \<Rightarrow> bool list list \<Rightarrow> srd_decoder_inst" where
  "chunk_inst dec chans = (new_c_inst dec (dec_id dec))\<lparr>inbuf := Some (map (Some \<circ> pack_bits) chans),
     inbuf_const := Some (map (\<lambda>c. 0) chans), abs_end_samplenum := of_nat (length (hd chans)),
     inbuflen := of_nat (length (hd chans)), first_pos := True, got_new_samples := True, thread_handle := True\<rparr>"

lemma chunk_inst_running:
  assumes "length (dec_channels dec) + length (dec_opt_channels dec) = length chans" "chans \<noteq> []"
    "\<forall>c \<in> set chans. length c = len" "0 < len" "len < 2 ^ 63"
  shows "running (length chans) (map int [0..<length chans]) (replicate (length chans) 2) (chunk_inst dec chans)"
    "wait_from (chunk_inst dec chans) = 0" "unat (abs_end_samplenum (chunk_inst dec chans)) = len"
    "ch < length chans \<Longrightarrow> n < len \<Longrightarrow> pin_at (chunk_inst dec chans) ch n = of_bool (chans ! ch ! n)"
    "ch < length chans \<Longrightarrow> wait_pins (chunk_inst dec chans) (replicate (length chans) 2) ! ch = of_bool (chans ! ch ! 0)"
proof -
  have hd: "length (hd chans) = len" using assms(2,3) by simp
  show "wait_from (chunk_inst dec chans) = 0"
    by (simp add: wait_from_def chunk_inst_def new_c_inst_def Let_def)
  show e: "unat (abs_end_samplenum (chunk_inst dec chans)) = len"
    using assms(5) hd by (simp add: chunk_inst_def unat_of_nat take_bit_nat_eq_self)
  have seven: "unat (word_of_nat len + 7 :: u64) = len + 7"
    using assms(5) by (simp add: unat_word_ariths(1) unat_of_nat take_bit_nat_eq_self)
  show pin: "pin_at (chunk_inst dec chans) ch n = of_bool (chans ! ch ! n)" if "ch < length chans" "n < len" for ch n
    using that assms(3) pack_bits_bit [of n "chans ! ch"]
    by (simp add: pin_at_def channel_buffer_def chunk_inst_def new_c_inst_def Let_def)
  show "running (length chans) (map int [0..<length chans]) (replicate (length chans) 2) (chunk_inst dec chans)"
    using assms e seven unfolding running_def scan_ready_def chunk_ok_def len_ok_def
    by (auto simp: chunk_inst_def new_c_inst_def Let_def channel_buffer_def pack_bits_def word_less_nat_alt word_le_nat_alt)
  show "wait_pins (chunk_inst dec chans) (replicate (length chans) 2) ! ch = of_bool (chans ! ch ! 0)"
    if "ch < length chans" for ch
    using pin [OF that assms(4)] that
    by (simp add: wait_pins_def refreshed_def) (simp add: chunk_inst_def new_c_inst_def Let_def)
qed

text \<open>What is stacked on the instance, and its outputs, do not matter for the buffers.\<close>

lemma outputs_matter_not:
  fixes di :: srd_decoder_inst and outs :: "srd_pd_output list" and uppers :: "nat list"
  defines "di' \<equiv> di\<lparr>pd_output := outs, next_di := uppers\<rparr>"
  shows "running n m ps di' = running n m ps di" "pin_at di' = pin_at di" "wait_from di' = wait_from di"
    "wait_pins di' ps = wait_pins di ps" "abs_end_samplenum di' = abs_end_samplenum di"
proof -
  have same: "channel_buffer di' = channel_buffer di" "const_at di' = const_at di"
    "abs_start_samplenum di' = abs_start_samplenum di" "dec_num_channels di' = dec_num_channels di"
    "abs_end_samplenum di' = abs_end_samplenum di"
    by (simp_all add: di'_def channel_buffer_def const_at_def fun_eq_iff)
  show pin: "pin_at di' = pin_at di"
    by (intro ext) (simp only: pin_at_def same)
  have "chunk_ok di' = chunk_ok di"
    unfolding chunk_ok_def same by (simp add: di'_def)
  then show "running n m ps di' = running n m ps di"
    by (simp add: running_def scan_ready_def) (simp add: len_ok_def di'_def cong: option.case_cong)
  show "wait_from di' = wait_from di" "abs_end_samplenum di' = abs_end_samplenum di"
    by (simp_all add: di'_def wait_from_def)
  show "wait_pins di' ps = wait_pins di ps"
    unfolding wait_pins_def refreshed_def pin by (simp add: di'_def)
qed

end
