(* ===== verification/I2C_Bus.thy ===== *)
theory I2C_Bus
  imports I2C_Props Demo_Chunk
begin

text \<open>
  Transfers on the bus and what the decoder makes of them. A waveform is a list of the levels of
  SCL and SDA, one pair for a sample; the predicates below say which waveforms carry which
  bytes, with every phase of the clock as long as the sender likes and SDA free to change while
  SCL is low.
\<close>

section \<open>Waveforms\<close>

type_synonym levels = "bool \<times> bool"

text \<open>One clock: SCL low for at least a sample, then high with a bit on SDA.\<close>

type_synonym clock = "bool list \<times> bool \<times> nat"

fun clock_bit :: "clock \<Rightarrow> bool" where
  "clock_bit (low, b, h) = b"

fun clock_wave :: "clock \<Rightarrow> levels list" where
  "clock_wave (low, b, h) = map (Pair False) low @ replicate (Suc h) (True, b)"

definition clock_ok :: "clock \<Rightarrow> bool" where
  "clock_ok c \<longleftrightarrow> fst c \<noteq> []"

definition byte_bits :: "u8 \<Rightarrow> bool list" where
  "byte_bits v = map (\<lambda>i. bit v (7 - i)) [0..<8]"

text \<open>Bytes, most significant bit first, each with its acknowledge bit.\<close>

inductive bytes_wave :: "(u8 \<times> bool) list \<Rightarrow> levels list \<Rightarrow> bool" where
  no_bytes: "bytes_wave [] []"
| next_byte: "\<forall>c \<in> set cs. clock_ok c \<Longrightarrow> map clock_bit cs = byte_bits v @ [nack] \<Longrightarrow>
    bytes_wave bs w \<Longrightarrow> bytes_wave ((v, nack) # bs) (concat (map clock_wave cs) @ w)"

text \<open>What follows the first message of a transfer: messages after a repeated start, and the stop.\<close>

inductive rest_wave :: "(u8 \<times> bool) list list \<Rightarrow> levels list \<Rightarrow> bool" where
  stop_wave: "low \<noteq> [] \<Longrightarrow> rest_wave [] (clock_wave (low, False, g) @ replicate (Suc h) (True, True))"
| restart_wave: "low \<noteq> [] \<Longrightarrow> bs \<noteq> [] \<Longrightarrow> bytes_wave bs w \<Longrightarrow> rest_wave ms w' \<Longrightarrow>
    rest_wave (bs # ms) (clock_wave (low, True, g) @ replicate (Suc h) (True, False) @ w @ w')"

text \<open>Transfers between stretches of an idle bus.\<close>

inductive bus_wave :: "(u8 \<times> bool) list list list \<Rightarrow> levels list \<Rightarrow> bool" where
  idle_wave: "bus_wave [] (replicate g (True, True))"
| transfer_wave: "bs \<noteq> [] \<Longrightarrow> bytes_wave bs w \<Longrightarrow> rest_wave ms w' \<Longrightarrow> bus_wave ts w'' \<Longrightarrow>
    bus_wave ((bs # ms) # ts)
      (replicate (Suc g) (True, True) @ replicate (Suc h) (True, False) @ w @ w' @ w'')"

section \<open>The messages of a transfer\<close>

definition ack_message :: "bool \<Rightarrow> message" where
  "ack_message nack = (if nack then ''NACK'' else ''ACK'', [])"

definition address_message :: "bool \<Rightarrow> u8 \<Rightarrow> message" where
  "address_message shifted v = (if bit v 0 then ''ADDRESS READ'' else ''ADDRESS WRITE'',
     [C_U8 (if shifted then drop_bit 1 v else v)])"

definition data_message :: "bool \<Rightarrow> u8 \<Rightarrow> message" where
  "data_message is_read v = (if is_read then ''DATA READ'' else ''DATA WRITE'', [C_U8 v])"

fun data_messages :: "bool \<Rightarrow> (u8 \<times> bool) list \<Rightarrow> message list" where
  "data_messages is_read [] = []"
| "data_messages is_read ((v, nack) # bs) =
     data_message is_read v # ack_message nack # data_messages is_read bs"

fun byte_messages :: "bool \<Rightarrow> (u8 \<times> bool) list \<Rightarrow> message list" where
  "byte_messages shifted [] = []"
| "byte_messages shifted ((v, nack) # bs) =
     address_message shifted v # ack_message nack # data_messages (bit v 0) bs"

fun rest_messages :: "bool \<Rightarrow> (u8 \<times> bool) list list \<Rightarrow> message list" where
  "rest_messages shifted [] = [(''STOP'', [])]"
| "rest_messages shifted (bs # ms) =
     (''START REPEAT'', []) # byte_messages shifted bs @ rest_messages shifted ms"

fun bus_messages :: "bool \<Rightarrow> (u8 \<times> bool) list list list \<Rightarrow> message list" where
  "bus_messages shifted [] = []"
| "bus_messages shifted ([] # ts) = bus_messages shifted ts"
| "bus_messages shifted ((bs # ms) # ts) =
     (''START'', []) # byte_messages shifted bs @ rest_messages shifted ms @ bus_messages shifted ts"

section \<open>Walking over a waveform\<close>

fun pins :: "levels \<Rightarrow> nat \<Rightarrow> u8" where
  "pins (c, d) ch = (if ch = 0 then of_bool c else of_bool d)"

definition i2c_sample :: "nat \<Rightarrow> levels \<Rightarrow> levels \<Rightarrow> i2c_s \<Rightarrow> fault + out_call list \<times> i2c_s" where
  "i2c_sample n old new s =
     (let m = matched_bits (i2c_conds (state s)) (pins old) (pins new) in
      if m = 0 then Inr ([], s) else i2c_resume (word_of_nat n) m (Inr (pins new 1)) s)"

fun i2c_samples :: "levels \<Rightarrow> nat \<Rightarrow> levels list \<Rightarrow> i2c_s \<Rightarrow> fault + out_call list \<times> i2c_s" where
  "i2c_samples old n [] s = Inr ([], s)"
| "i2c_samples old n (p # ps) s =
     ebind (i2c_sample n old p s) (\<lambda>(outs, s').
     ebind (i2c_samples p (Suc n) ps s') (\<lambda>(outs', s''). Inr (outs @ outs', s'')))"

lemma i2c_samples_append:
  "i2c_samples old n (ps @ qs) s =
     ebind (i2c_samples old n ps s) (\<lambda>(outs, s').
     ebind (i2c_samples (last (old # ps)) (n + length ps) qs s') (\<lambda>(outs', s'').
     Inr (outs @ outs', s'')))"
proof (induction ps arbitrary: old n s)
  case Nil
  then show ?case by (cases "i2c_samples old n qs s") (auto split: prod.splits)
next
  case (Cons p ps)
  then show ?case
    by (cases "i2c_sample n old p s") (auto simp: ebind_def split: sum.splits prod.splits)
qed

lemma samples_comp:
  "i2c_samples old n ps s = Inr (outs, s') \<Longrightarrow> i2c_samples p n' qs s' = Inr (outs', s'') \<Longrightarrow>
   p = last (old # ps) \<Longrightarrow> n' = n + length ps \<Longrightarrow> i2c_samples old n (ps @ qs) s = Inr (outs @ outs', s'')"
  by (simp add: i2c_samples_append del: last.simps)

lemma last_hold: "last (old # replicate (Suc h) p) = p"
  by simp

text \<open>Nothing matches while SCL is low, nor while both lines keep their level.\<close>

lemma no_match:
  "matched_bits (i2c_conds st) (pins old) (pins (False, d)) = 0"
  "matched_bits (i2c_conds st) (pins (c, d)) (pins (c, d)) = 0"
  by (cases st; simp add: matched_bits_zero cond_holds_def i2c_term_def term_holds_def sample_matches_def)+

lemma samples_low: "i2c_samples old n (map (Pair False) low) s = Inr ([], s)"
  by (induction low arbitrary: old n) (simp_all add: i2c_sample_def no_match)

lemma samples_hold: "i2c_samples p n (replicate h p) s = Inr ([], s)"
proof (induction h arbitrary: n)
  case (Suc h)
  then show ?case by (cases p) (simp add: i2c_sample_def no_match)
qed simp

lemma samples_idle:
  "state s = STATE_FIND_START \<Longrightarrow> i2c_samples old n (replicate h (True, True)) s = Inr ([], s)"
proof (cases h)
  case (Suc k)
  assume "state s = STATE_FIND_START"
  then have "i2c_sample n old (True, True) s = Inr ([], s)"
    by (cases old) (simp add: i2c_sample_def matched_bits_zero cond_holds_def i2c_term_def term_holds_def
      sample_matches_def)
  then show ?thesis using samples_hold [of "(True, True)" "Suc n" k s] by (simp add: Suc)
qed simp

lemma samples_change:
  "i2c_samples old n (replicate (Suc h) p) s = i2c_sample n old p s"
  using samples_hold [of p "Suc n" h] by (cases "i2c_sample n old p s") (auto split: prod.splits)

text \<open>
  A clock hands its bit to the handler of the state, once, at its rising edge; what SDA does
  while SCL is high goes to the start and the stop handler.
\<close>

lemmas matching = i2c_term_def term_holds_def sample_matches_def cond_holds_def

lemma rising_clock:
  "state s \<noteq> STATE_FIND_START \<Longrightarrow> i2c_sample n (False, d) (True, b) s =
     (if state s = STATE_FIND_ACK then Inr (i2c_get_ack (word_of_nat n) (of_bool b) s)
      else i2c_handle_address_or_data (word_of_nat n) (of_bool b) s)"
  by (cases "state s") (simp_all add: i2c_sample_def i2c_resume_def Let_def matched_bits_def matching)

lemma samples_clock:
  fixes n :: nat
  assumes "clock_ok c" "state s \<noteq> STATE_FIND_START"
  defines "m \<equiv> word_of_nat (n + length (fst c))"
  shows "i2c_samples old n (clock_wave c) s =
    (if state s = STATE_FIND_ACK then Inr (i2c_get_ack m (of_bool (clock_bit c)) s)
     else i2c_handle_address_or_data m (of_bool (clock_bit c)) s)"
proof -
  obtain low b h where c: "c = (low, b, h)" by (cases c)
  have last: "last (old # map (Pair False) low) = (False, last low)"
    using assms(1) by (simp add: c clock_ok_def last_map)
  show ?thesis
    unfolding c clock_wave.simps i2c_samples_append samples_low length_map last ebind_simps prod.case
      samples_change rising_clock [OF assms(2)]
    by (auto simp: m_def c ebind_def split: sum.splits prod.splits)
qed

lemma clock_length: "clock_ok c \<Longrightarrow> 2 \<le> length (clock_wave c)"
  "last (p # clock_wave c) = (True, clock_bit c)"
  by (cases c; simp add: clock_ok_def Suc_le_eq flip: length_greater_0_conv)+

lemma falling_data:
  "state s \<in> {STATE_FIND_START, STATE_FIND_DATA} \<Longrightarrow>
   i2c_sample n (True, True) (True, False) s = i2c_handle_start (word_of_nat n) s"
  by (auto simp: i2c_sample_def i2c_resume_def Let_def matched_bits_def matching bit_1_iff)

lemma rising_data:
  "state s = STATE_FIND_DATA \<Longrightarrow>
   i2c_sample n (True, False) (True, True) s = i2c_handle_stop (word_of_nat n) s"
  by (auto simp: i2c_sample_def i2c_resume_def Let_def matched_bits_def matching bit_1_iff)

section \<open>A transfer in the decoder\<close>

text \<open>
  Between two bits: \<open>n\<close> is the next sample, \<open>k\<close> the bits of the byte seen so far and \<open>d\<close>
  their value, \<open>w\<close> the direction. A bit takes at least two samples, which keeps the bit rate
  in range.
\<close>

definition in_transfer :: "bool \<Rightarrow> nat \<Rightarrow> i2c_state \<Rightarrow> nat \<Rightarrow> u8 \<Rightarrow> int \<Rightarrow> i2c_s \<Rightarrow> bool" where
  "in_transfer sh n st k d w s \<longleftrightarrow> state s = st \<and> bitcount s = k \<and> databyte s = d \<and> wr s = w
     \<and> address_shifted s = sh \<and> packet_data s \<noteq> None \<and> is_repeat_start s
     \<and> unat (i2c_samplerate s) < 2 ^ 31 \<and> unat (pdu_start s) + 2 * pdu_bits s < n"

lemma in_transfer_state: "in_transfer sh n st k d w s \<Longrightarrow> state s = st"
  by (simp add: in_transfer_def)

lemma bit_in_byte:
  assumes "in_transfer sh n st k d w s" "k < 7" "n + 2 \<le> n'"
  shows "\<exists>s'. i2c_handle_address_or_data m sda s = Inr ([], s')
    \<and> in_transfer sh n' st (Suc k) (push_bit 1 d OR sda) w s'"
  using assms by (simp add: i2c_handle_address_or_data_def store_bit_def Let_def in_transfer_def)

lemma no_messages [simp]:
  "messages (bit_annotations s) = []"
  "messages (address_annotations s m byte_end cls v) = []"
  "messages (data_annotations s byte_end cls v) = []"
  by (auto simp: bit_annotations_def address_annotations_def data_annotations_def messages_concat i2c_put_def i2c_put_v_def Let_def)

lemma messages_byte [simp]: "messages (byte_calls s m byte_end v) = messages (byte_message s byte_end v)"
  by (simp add: byte_calls_def split: option.split)

lemma last_bit:
  assumes "in_transfer sh n st 7 d w s"
  obtains s3 where "i2c_handle_address_or_data m sda s = i2c_whole_byte m s3"
    "in_transfer sh (n + 2) st 7 (push_bit 1 d OR sda) w s3"
  using assms by (simp add: i2c_handle_address_or_data_def store_bit_def Let_def in_transfer_def)

lemma whole_address:
  assumes "in_transfer sh n STATE_FIND_ADDRESS 7 v w s"
  shows "\<exists>outs s'. i2c_whole_byte m s = Inr (outs, s') \<and> messages outs = [address_message sh v]
    \<and> in_transfer sh n STATE_FIND_ACK 0 0 (if bit v 0 then 0 else 1) s'"
  using assms
  by (simp add: i2c_whole_byte_def Let_def in_transfer_def byte_classes_def byte_message_def
    address_message_def and_one_eq bit_0 flip: even_iff_mod_2_eq_zero odd_iff_mod_2_eq_one)

lemma whole_data:
  assumes "in_transfer sh n STATE_FIND_DATA 7 v w s" "w \<in> {0, 1}"
  shows "\<exists>outs s'. i2c_whole_byte m s = Inr (outs, s') \<and> messages outs = [data_message (w = 0) v]
    \<and> in_transfer sh n STATE_FIND_ACK 0 0 w s'"
  using assms
  by (auto simp: i2c_whole_byte_def Let_def in_transfer_def byte_classes_def byte_message_def data_message_def)

text \<open>The clocks of a byte, then its acknowledge.\<close>

definition bits_value :: "u8 \<Rightarrow> bool list \<Rightarrow> u8" where
  "bits_value = foldl (\<lambda>d b. push_bit 1 d OR of_bool b)"

lemma bit_bits_value:
  "k < 8 \<Longrightarrow> bit (bits_value d bs) k \<longleftrightarrow>
     (if k < length bs then bs ! (length bs - Suc k) else bit d (k - length bs))"
proof (induction bs arbitrary: k rule: rev_induct)
  case Nil
  then show ?case by (simp add: bits_value_def)
next
  case (snoc b bs)
  have "bits_value d (bs @ [b]) = push_bit 1 (bits_value d bs) OR of_bool b" by (simp add: bits_value_def)
  then have "bit (bits_value d (bs @ [b])) k \<longleftrightarrow> (if k = 0 then b else bit (bits_value d bs) (k - 1))"
    using snoc.prems by (simp only:) (auto simp: bit_push_bit_iff bit_or_iff bit_of_bool_iff simp del: push_bit_Suc One_nat_def push_bit_numeral)
  then show ?case
    using snoc by (cases k) (auto simp: nth_append)
qed

lemma bits_value_byte: "bits_value 0 (byte_bits v) = v"
proof (rule bit_word_eqI)
  fix k assume "k < LENGTH(8)"
  then show "bit (bits_value 0 (byte_bits v)) k = bit v k"
    using nth_upt [of 0 "7 - k" 8] by (simp add: bit_bits_value byte_bits_def)
qed

lemma some_bits:
  assumes "in_transfer sh n st k d w s" "k + length cs \<le> 7" "\<forall>c \<in> set cs. clock_ok c"
    "st \<noteq> STATE_FIND_START" "st \<noteq> STATE_FIND_ACK"
  shows "\<exists>s'. i2c_samples old n (concat (map clock_wave cs)) s = Inr ([], s')
    \<and> in_transfer sh (n + length (concat (map clock_wave cs))) st (k + length cs)
        (bits_value d (map clock_bit cs)) w s'"
  using assms
proof (induction cs arbitrary: old n k d s)
  case Nil
  then show ?case by (simp add: bits_value_def)
next
  case (Cons c cs)
  have c: "clock_ok c" and k: "k < 7" and st: "state s = st"
    using Cons.prems in_transfer_state by auto
  obtain s1 where s1: "i2c_samples old n (clock_wave c) s = Inr ([], s1)"
    "in_transfer sh (n + length (clock_wave c)) st (Suc k) (push_bit 1 d OR of_bool (clock_bit c)) w s1"
    using bit_in_byte [OF Cons.prems(1) k, of "n + length (clock_wave c)"] clock_length(1) [OF c]
      Cons.prems(4,5) by (metis add_le_mono le_refl samples_clock [OF c] st)
  show ?case
    using Cons.IH [OF s1(2), of "last (old # clock_wave c)"] Cons.prems s1(1)
    by (auto simp: i2c_samples_append bits_value_def ac_simps)
qed

lemma acknowledge:
  assumes "in_transfer sh n STATE_FIND_ACK 0 0 w s" "clock_ok c"
  shows "\<exists>outs s'. i2c_samples old n (clock_wave c) s = Inr (outs, s')
    \<and> messages outs = [ack_message (clock_bit c)]
    \<and> in_transfer sh (n + length (clock_wave c)) STATE_FIND_DATA 0 0 w s'"
  using assms clock_length(1) [OF assms(2)]
  by (auto simp: samples_clock in_transfer_def i2c_get_ack_def i2c_put_def Let_def ack_message_def)

lemma nine_clocks:
  assumes "map clock_bit cs = byte_bits v @ [nack]"
  obtains cs' c8 c9 where "cs = cs' @ [c8, c9]" "length cs' = 7" "clock_bit c9 = nack"
    "push_bit 1 (bits_value 0 (map clock_bit cs')) OR of_bool (clock_bit c8) = v"
proof -
  obtain cs8 c9 where 1: "cs = cs8 @ [c9]" "map clock_bit cs8 = byte_bits v" "clock_bit c9 = nack"
    using assms by (auto simp: map_eq_append_conv)
  have "length cs8 = 8" using arg_cong [OF 1(2), of length] by (simp add: byte_bits_def)
  then obtain cs' c8 where 2: "cs8 = cs' @ [c8]" "length cs' = 7"
    by (cases cs8 rule: rev_cases) auto
  have "bits_value 0 (map clock_bit cs8) = v" using 1(2) by (simp add: bits_value_byte)
  then show thesis using that [OF _ 2(2) 1(3)] 1(1) 2(1) by (simp add: bits_value_def)
qed

lemma one_byte:
  assumes s: "in_transfer sh n st 0 0 w s" "st \<noteq> STATE_FIND_START" "st \<noteq> STATE_FIND_ACK"
    and cs: "map clock_bit cs = byte_bits v @ [nack]" "\<forall>c \<in> set cs. clock_ok c"
    and byte: "\<And>n m s. in_transfer sh n st 7 v w s \<Longrightarrow> \<exists>outs s'. i2c_whole_byte m s = Inr (outs, s')
      \<and> messages outs = [msg] \<and> in_transfer sh n STATE_FIND_ACK 0 0 w' s'"
  shows "\<exists>outs s'. i2c_samples old n (concat (map clock_wave cs)) s = Inr (outs, s')
    \<and> messages outs = [msg, ack_message nack]
    \<and> in_transfer sh (n + length (concat (map clock_wave cs))) STATE_FIND_DATA 0 0 w' s'"
proof -
  obtain cs' c8 c9 where c: "cs = cs' @ [c8, c9]" "length cs' = 7" "clock_bit c9 = nack"
    "push_bit 1 (bits_value 0 (map clock_bit cs')) OR of_bool (clock_bit c8) = v"
    by (rule nine_clocks [OF cs(1)])
  have ok: "\<forall>c \<in> set cs'. clock_ok c" "clock_ok c8" "clock_ok c9" using cs(2) c(1) by simp_all
  obtain s1 where s1: "i2c_samples old n (concat (map clock_wave cs')) s = Inr ([], s1)"
    "in_transfer sh (n + length (concat (map clock_wave cs'))) st 7 (bits_value 0 (map clock_bit cs')) w s1"
    using some_bits [OF s(1) _ ok(1) s(2,3), of old] c(2) by auto
  define n1 where "n1 = n + length (concat (map clock_wave cs'))"
  define old1 where "old1 = last (old # concat (map clock_wave cs'))"
  define n2 where "n2 = n1 + length (clock_wave c8)"
  obtain s2 where s2: "i2c_handle_address_or_data (word_of_nat (n1 + length (fst c8))) (of_bool (clock_bit c8)) s1
      = i2c_whole_byte (word_of_nat (n1 + length (fst c8))) s2" "in_transfer sh (n1 + 2) st 7 v w s2"
    using last_bit [OF s1(2)] c(4) unfolding n1_def by metis
  have "in_transfer sh n2 st 7 v w s2"
    using s2(2) clock_length(1) [OF ok(2)] by (simp add: in_transfer_def n2_def)
  from byte [OF this] obtain outs3 s3 where s3: "messages outs3 = [msg]" "in_transfer sh n2 STATE_FIND_ACK 0 0 w' s3"
    "i2c_whole_byte (word_of_nat (n1 + length (fst c8))) s2 = Inr (outs3, s3)" by blast
  have w3: "i2c_samples old1 n1 (clock_wave c8) s1 = Inr (outs3, s3)"
    using s2(1) s3(3) s(2,3) in_transfer_state [OF s1(2)] by (simp add: samples_clock [OF ok(2)])
  obtain outs4 s4 where s4: "i2c_samples (last (old1 # clock_wave c8)) n2 (clock_wave c9) s3 = Inr (outs4, s4)"
    "messages outs4 = [ack_message nack]" "in_transfer sh (n2 + length (clock_wave c9)) STATE_FIND_DATA 0 0 w' s4"
    using acknowledge [OF s3(2) ok(3)] c(3) by blast
  have "i2c_samples old n (concat (map clock_wave cs)) s = Inr (outs3 @ outs4, s4)"
    using s1(1) w3 s4(1)
    by (simp add: c(1) i2c_samples_append n1_def [symmetric] n2_def [symmetric] old1_def [symmetric] del: last.simps)
  then show ?thesis
    using s3(1) s4(2,3) by (simp add: c(1) n1_def n2_def ac_simps)
qed

text \<open>The bytes of a message: the first is an address, the others are data.\<close>

lemma data_bytes:
  assumes "bytes_wave bs ws" "in_transfer sh n STATE_FIND_DATA 0 0 w s" "w \<in> {0, 1}"
  shows "\<exists>outs s'. i2c_samples old n ws s = Inr (outs, s') \<and> messages outs = data_messages (w = 0) bs
    \<and> in_transfer sh (n + length ws) STATE_FIND_DATA 0 0 w s'"
  using assms
proof (induction arbitrary: old n s rule: bytes_wave.induct)
  case no_bytes
  then show ?case by auto
next
  case (next_byte cs v nack bs ws)
  let ?c = "concat (map clock_wave cs)"
  obtain outs1 s1 where s1: "i2c_samples old n ?c s = Inr (outs1, s1)"
    "messages outs1 = [data_message (w = 0) v, ack_message nack]"
    "in_transfer sh (n + length ?c) STATE_FIND_DATA 0 0 w s1"
    using one_byte [OF next_byte.prems(1) _ _ next_byte.hyps(2,1) whole_data, where old = old] next_byte.prems(2) by blast
  obtain outs2 s2 where "i2c_samples (last (old # ?c)) (n + length ?c) ws s1 = Inr (outs2, s2)"
    "messages outs2 = data_messages (w = 0) bs"
    "in_transfer sh (n + length ?c + length ws) STATE_FIND_DATA 0 0 w s2"
    using next_byte.IH [OF s1(3) next_byte.prems(2)] by blast
  then show ?case using s1 by (simp add: i2c_samples_append ac_simps)
qed

lemma message_bytes:
  assumes "bytes_wave bs ws" "bs \<noteq> []" "in_transfer sh n STATE_FIND_ADDRESS 0 0 w s"
  shows "\<exists>outs s' w'. i2c_samples old n ws s = Inr (outs, s') \<and> messages outs = byte_messages sh bs
    \<and> in_transfer sh (n + length ws) STATE_FIND_DATA 0 0 w' s' \<and> w' \<in> {0, 1}"
  using assms(1)
proof cases
  case (next_byte cs v nack bs' ws')
  let ?c = "concat (map clock_wave cs)"
  obtain outs1 s1 where s1: "i2c_samples old n ?c s = Inr (outs1, s1)"
    "messages outs1 = [address_message sh v, ack_message nack]"
    "in_transfer sh (n + length ?c) STATE_FIND_DATA 0 0 (if bit v 0 then 0 else 1) s1"
    using one_byte [OF assms(3) _ _ next_byte(4,3) whole_address [where w = w and v = v], where old = old] by auto
  obtain outs2 s2 where "i2c_samples (last (old # ?c)) (n + length ?c) ws' s1 = Inr (outs2, s2)"
    "messages outs2 = data_messages (bit v 0) bs'"
    "in_transfer sh (n + length ?c + length ws') STATE_FIND_DATA 0 0 (if bit v 0 then 0 else 1) s2"
    using data_bytes [OF next_byte(5) s1(3), of "last (old # ?c)"] by (cases "bit v 0") auto
  then show ?thesis
    using s1 next_byte(1,2) by (cases "bit v 0") (auto simp: i2c_samples_append ac_simps)
qed (use assms(2) in simp)

section \<open>Start and stop\<close>

definition bus_ready :: "bool \<Rightarrow> i2c_s \<Rightarrow> bool" where
  "bus_ready sh s \<longleftrightarrow> address_shifted s = sh \<and> packet_data s \<noteq> None \<and> unat (i2c_samplerate s) < 2 ^ 31"

lemma handle_packet_ok:
  assumes "bus_ready sh s"
  shows "\<exists>outs s'. i2c_handle_packet s r = Inr (outs, s') \<and> messages outs = [] \<and> bus_ready sh s'
    \<and> pdu_start s' = pdu_start s \<and> pdu_bits s' = pdu_bits s \<and> is_repeat_start s' = is_repeat_start s"
proof -
  obtain data where data: "packet_data s = Some data" using assms by (auto simp: bus_ready_def)
  obtain long short where "i2c_format_packet s data = (long, short)" by force
  with data assms show ?thesis
    by (cases r; cases "data = []") (simp_all add: i2c_put_def i2c_handle_packet_def i2c_reset_packet_def bus_ready_def)
qed

lemma start_on_bus:
  assumes "bus_ready sh s" "n < 2 ^ 64"
  shows "\<exists>outs s'. i2c_handle_start (word_of_nat n) s = Inr (outs, s')
    \<and> messages outs = [(if is_repeat_start s then ''START REPEAT'' else ''START'', [])]
    \<and> in_transfer sh (Suc n) STATE_FIND_ADDRESS 0 0 (- 1) s'"
proof -
  let ?s = "s\<lparr>pdu_start := word_of_nat n, pdu_bits := 0\<rparr>"
  have "bus_ready sh ?s" using assms(1) by (simp add: bus_ready_def)
  then obtain outs s' where "i2c_handle_packet ?s (is_repeat_start s) = Inr (outs, s')" "messages outs = []"
    "bus_ready sh s'" "pdu_start s' = word_of_nat n" "pdu_bits s' = 0"
    using handle_packet_ok [of sh ?s "is_repeat_start s"] by auto
  then show ?thesis
    using assms(2) by (auto simp: i2c_handle_start_def i2c_put_def Let_def in_transfer_def bus_ready_def unat_of_nat take_bit_nat_eq_self)
qed

lemma stop_on_bus:
  assumes "in_transfer sh n st k d w s" "n + 1 < 2 ^ 64"
  shows "\<exists>outs s'. i2c_handle_stop (word_of_nat n) s = Inr (outs, s') \<and> messages outs = [(''STOP'', [])]
    \<and> bus_ready sh s' \<and> state s' = STATE_FIND_START \<and> \<not> is_repeat_start s'"
proof -
  have "\<exists>meta. (if i2c_samplerate s \<noteq> 0 then
        ebind (bit_rate (i2c_samplerate s) (word_of_nat n - pdu_start s + 1) (pdu_bits s)) (\<lambda>v.
        Inr [CPutMetaInt (ss_byte s) (word_of_nat n) (out_bitrate s) v])
      else Inr []) = Inr meta \<and> messages meta = []"
  proof (cases "i2c_samplerate s = 0")
    case False
    have s: "unat (pdu_start s) \<le> n" "2 * pdu_bits s \<le> n - unat (pdu_start s) + 1" "unat (i2c_samplerate s) \<le> 2 ^ 31"
      using assms(1) by (auto simp: in_transfer_def)
    have "unat (i2c_samplerate s) * pdu_bits s \<le> 2 ^ 31 * pdu_bits s" using s(3) by (rule mult_le_mono1)
    also have "\<dots> \<le> 2 ^ 30 * (n - unat (pdu_start s) + 1)" using s(2) by simp
    finally have "\<exists>v. bit_rate (i2c_samplerate s) (word_of_nat n - pdu_start s + 1) (pdu_bits s) = Inr v"
      using False unat_range_length [OF s(1) assms(2)] by (intro bit_rate_fits) (simp_all add: unat_gt_0)
    then show ?thesis using False by auto
  qed simp
  moreover have "bus_ready sh (s\<lparr>packet_es := word_of_nat n\<rparr>)"
    using assms(1) by (simp add: bus_ready_def in_transfer_def)
  then obtain outs s' where "i2c_handle_packet (s\<lparr>packet_es := word_of_nat n\<rparr>) False = Inr (outs, s')"
    "messages outs = []" "bus_ready sh s'"
    using handle_packet_ok [of sh "s\<lparr>packet_es := word_of_nat n\<rparr>" False] by blast
  ultimately show ?thesis by (auto simp: i2c_handle_stop_def i2c_put_def bus_ready_def)
qed

section \<open>Transfers\<close>

lemma in_transfer_ready: "in_transfer sh n st k d w s \<Longrightarrow> bus_ready sh s \<and> is_repeat_start s"
  by (simp add: in_transfer_def bus_ready_def)

text \<open>The rising clock before a repeated start or a stop is a bit of a byte that never comes.\<close>

lemma stray_bit:
  assumes "in_transfer sh n STATE_FIND_DATA 0 0 w s" "clock_ok c"
  obtains s' where "i2c_samples old n (clock_wave c) s = Inr ([], s')"
    "in_transfer sh (n + length (clock_wave c)) STATE_FIND_DATA 1 (of_bool (clock_bit c)) w s'"
  using some_bits [OF assms(1), of "[c]" old] assms(2) by (auto simp: bits_value_def)

lemma rest_of_transfer:
  assumes "rest_wave ms ws" "in_transfer sh n STATE_FIND_DATA 0 0 w s" "n + length ws < 2 ^ 64"
  shows "\<exists>outs s'. i2c_samples old n ws s = Inr (outs, s') \<and> messages outs = rest_messages sh ms
    \<and> bus_ready sh s' \<and> state s' = STATE_FIND_START \<and> \<not> is_repeat_start s'"
  using assms
proof (induction arbitrary: old n w s rule: rest_wave.induct)
  case (stop_wave low g h)
  define c where "c = (low, False, g)"
  have c: "clock_ok c" "clock_bit c = False" using stop_wave.hyps by (simp_all add: c_def clock_ok_def)
  obtain s1 where s1: "i2c_samples old n (clock_wave c) s = Inr ([], s1)"
    "in_transfer sh (n + length (clock_wave c)) STATE_FIND_DATA 1 0 w s1"
    using stray_bit [OF stop_wave.prems(1) c(1), of old] c(2) by auto
  have "n + length (clock_wave c) + 1 < 2 ^ 64" using stop_wave.prems(2) by (simp add: c_def)
  from stop_on_bus [OF s1(2) this] show ?case
    using s1(1) in_transfer_state [OF s1(2)] c(2)
    unfolding c_def [symmetric] i2c_samples_append samples_change clock_length(2)
    by (auto simp: rising_data)
next
  case (restart_wave low bs ws ms ws' g h)
  define c where "c = (low, True, g)"
  have c: "clock_ok c" "clock_bit c = True" using restart_wave.hyps(1) by (simp_all add: c_def clock_ok_def)
  define n1 where "n1 = n + length (clock_wave c)"
  define n2 where "n2 = n1 + Suc h"
  obtain s1 where s1: "i2c_samples old n (clock_wave c) s = Inr ([], s1)"
    "in_transfer sh n1 STATE_FIND_DATA 1 1 w s1"
    using stray_bit [OF restart_wave.prems(1) c(1), of old] c(2) by (auto simp: n1_def)
  have "n1 < 2 ^ 64" "n2 + length ws + length ws' < 2 ^ 64"
    using restart_wave.prems(2) by (simp_all add: n1_def n2_def c_def)
  then obtain outs2 s2 where s2: "i2c_handle_start (word_of_nat n1) s1 = Inr (outs2, s2)"
    "messages outs2 = [(''START REPEAT'', [])]" "in_transfer sh (Suc n1) STATE_FIND_ADDRESS 0 0 (- 1) s2"
    using start_on_bus [of sh s1 n1] in_transfer_ready [OF s1(2)] by auto
  have "in_transfer sh n2 STATE_FIND_ADDRESS 0 0 (- 1) s2"
    using s2(3) by (simp add: in_transfer_def n2_def)
  from message_bytes [OF restart_wave.hyps(3,2) this, of "(True, False)"]
  obtain outs3 s3 w3 where s3: "i2c_samples (True, False) n2 ws s2 = Inr (outs3, s3)"
    "messages outs3 = byte_messages sh bs" "in_transfer sh (n2 + length ws) STATE_FIND_DATA 0 0 w3 s3"
    by blast
  obtain outs4 s4 where s4: "i2c_samples (last ((True, False) # ws)) (n2 + length ws) ws' s3 = Inr (outs4, s4)"
    "messages outs4 = rest_messages sh ms" "bus_ready sh s4" "state s4 = STATE_FIND_START" "\<not> is_repeat_start s4"
    using restart_wave.IH [OF s3(3) \<open>n2 + length ws + length ws' < 2 ^ 64\<close>] by blast
  have start: "i2c_samples (True, True) n1 (replicate (Suc h) (True, False)) s1 = Inr (outs2, s2)"
    unfolding samples_change using falling_data [of s1 n1] in_transfer_state [OF s1(2)] s2(1) by simp
  note samples_comp [OF s1(1) samples_comp [OF start samples_comp [OF s3(1) s4(1) refl refl] last_hold [symmetric]]]
  then have "i2c_samples old n (clock_wave c @ replicate (Suc h) (True, False) @ ws @ ws') s
      = Inr ([] @ outs2 @ outs3 @ outs4, s4)"
    by (simp add: clock_length(2) c(2) n1_def n2_def del: last.simps replicate.simps)
  then show ?case using s2(2) s3(2) s4(2-5) unfolding c_def by simp
qed

lemma samples_bus:
  assumes "bus_wave ts ws" "bus_ready sh s" "state s = STATE_FIND_START" "\<not> is_repeat_start s"
    "n + length ws < 2 ^ 64"
  shows "\<exists>outs s'. i2c_samples old n ws s = Inr (outs, s') \<and> messages outs = bus_messages sh ts
    \<and> bus_ready sh s' \<and> state s' = STATE_FIND_START \<and> \<not> is_repeat_start s'"
  using assms
proof (induction arbitrary: old n s rule: bus_wave.induct)
  case (idle_wave g)
  then show ?case by (simp add: samples_idle)
next
  case (transfer_wave bs ws ms ws' ts ws'' g h)
  define n1 where "n1 = n + Suc g"
  define n2 where "n2 = n1 + Suc h"
  have idle: "i2c_samples old n (replicate (Suc g) (True, True)) s = Inr ([], s)"
    by (rule samples_idle) (rule transfer_wave.prems(2))
  have len: "n1 < 2 ^ 64" "n2 + length ws + length ws' + length ws'' < 2 ^ 64"
    "n2 + length ws + length ws' < 2 ^ 64"
    using transfer_wave.prems(4) by (simp_all add: n1_def n2_def)
  obtain outs2 s2 where s2: "i2c_handle_start (word_of_nat n1) s = Inr (outs2, s2)"
    "messages outs2 = [(''START'', [])]" "in_transfer sh (Suc n1) STATE_FIND_ADDRESS 0 0 (- 1) s2"
    using start_on_bus [OF transfer_wave.prems(1) len(1)] transfer_wave.prems(3) by auto
  have start: "i2c_samples (True, True) n1 (replicate (Suc h) (True, False)) s = Inr (outs2, s2)"
    unfolding samples_change using falling_data [of s n1] transfer_wave.prems(2) s2(1) by simp
  have "in_transfer sh n2 STATE_FIND_ADDRESS 0 0 (- 1) s2"
    using s2(3) by (simp add: in_transfer_def n2_def)
  from message_bytes [OF transfer_wave.hyps(2,1) this, of "(True, False)"]
  obtain outs3 s3 w3 where s3: "i2c_samples (True, False) n2 ws s2 = Inr (outs3, s3)"
    "messages outs3 = byte_messages sh bs" "in_transfer sh (n2 + length ws) STATE_FIND_DATA 0 0 w3 s3"
    by blast
  obtain outs4 s4 where s4: "i2c_samples (last ((True, False) # ws)) (n2 + length ws) ws' s3 = Inr (outs4, s4)"
    "messages outs4 = rest_messages sh ms" "bus_ready sh s4" "state s4 = STATE_FIND_START" "\<not> is_repeat_start s4"
    using rest_of_transfer [OF transfer_wave.hyps(3) s3(3) len(3)] by blast
  obtain outs5 s5 where s5: "i2c_samples (last (last ((True, False) # ws) # ws'))
      (n2 + length ws + length ws') ws'' s4 = Inr (outs5, s5)"
    "messages outs5 = bus_messages sh ts" "bus_ready sh s5" "state s5 = STATE_FIND_START" "\<not> is_repeat_start s5"
    using transfer_wave.IH [OF s4(3-5) len(2)] by blast
  note samples_comp [OF idle samples_comp [OF start samples_comp [OF s3(1) samples_comp [OF s4(1) s5(1) refl refl]
    refl refl] last_hold [symmetric]] last_hold [symmetric]]
  then have "i2c_samples old n (replicate (Suc g) (True, True) @ replicate (Suc h) (True, False) @ ws @ ws' @ ws'') s
      = Inr ([] @ outs2 @ outs3 @ outs4 @ outs5, s5)"
    by (simp add: n1_def n2_def del: last.simps replicate.simps)
  moreover have "bs \<noteq> []" by (rule transfer_wave.hyps(1))
  ultimately show ?case using s2(2) s3(2) s4(2) s5(2-5) by (simp del: replicate.simps)
qed

section \<open>On the engine\<close>

text \<open>The walk of the contract, on channels that carry a waveform, is the walk over the waveform.\<close>

fun level_pair :: "levels \<Rightarrow> u8 \<times> u8" where
  "level_pair (c, d) = (of_bool c, of_bool d)"

lemma walk_samples:
  assumes "map (\<lambda>m. (sig 0 m, sig 1 m)) [n..<n + length ws] = map level_pair ws"
    "\<And>ch. ch < 2 \<Longrightarrow> old ch = pins p ch"
  shows "i2c_walk sig old n (length ws) s = i2c_samples p n ws s"
  using assms
proof (induction ws arbitrary: old p n s)
  case Nil
  then show ?case by (simp add: i2c_walk_def)
next
  case (Cons q ws)
  have "[n..<n + length (q # ws)] = n # [Suc n..<Suc n + length ws]"
    using upt_conv_Cons [of n "n + length (q # ws)"] by simp
  with Cons.prems(1) have q: "(sig 0 n, sig 1 n) = level_pair q"
    and rest: "map (\<lambda>m. (sig 0 m, sig 1 m)) [Suc n..<Suc n + length ws] = map level_pair ws"
    by (simp_all only: list.map list.inject)
  have new: "sig ch n = pins q ch" if "ch < 2" for ch
    using q that by (cases q) (auto simp: less_2_cases_iff)
  have m: "matched_bits (i2c_conds (state s)) old (\<lambda>ch. sig ch n)
      = matched_bits (i2c_conds (state s)) (pins p) (pins q)"
    by (rule i2c.matched_cong) (use Cons.prems(2) new in auto)
  note IH = Cons.IH [OF rest, of "\<lambda>ch. sig ch n" q] new
  show ?case
    unfolding i2c_walk_def length_Cons decoder_scan.simps Let_def m i2c_samples.simps i2c_sample_def
    using IH new [of 1] unfolding i2c_walk_def
    by (cases "matched_bits (i2c_conds (state s)) (pins p) (pins q) = 0")
      (auto simp: ebind_def split: sum.splits prod.splits)
qed

lemma loop_on_bus:
  assumes "running 2 chmap ps di" "wait_pins di ps ! 0 \<in> {0, 1}" "wait_pins di ps ! 1 \<in> {0, 1}"
    and "bus_wave ts ws"
    and "map (\<lambda>m. (pin_at di 0 m, pin_at di 1 m)) [wait_from di..<unat (abs_end_samplenum di)] = map level_pair ws"
    and "state s = STATE_FIND_START" "\<not> is_repeat_start s" "packet_data s \<noteq> None"
      "unat (i2c_samplerate s) < 2 ^ 31" "length ws < fuel"
  shows "\<exists>outs d s'. i2c_loop fuel di s = Inr (Sleeping, outs, Some d, s')
    \<and> messages outs = bus_messages (address_shifted s) ts
    \<and> state s' = STATE_FIND_START \<and> inbuf d = None \<and> handled_all_samples d"
proof -
  define p where "p = (wait_pins di ps ! 0 = 1, wait_pins di ps ! 1 = 1)"
  have p: "wait_pins di ps ! ch = pins p ch" if "ch < 2" for ch
    using that assms(2,3) by (auto simp: p_def less_2_cases_iff)
  have len: "length ws = unat (abs_end_samplenum di) - wait_from di"
    using arg_cong [OF assms(5), of length] by simp
  have end_le: "wait_from di \<le> unat (abs_end_samplenum di)"
    using assms(1) by (simp add: running_def wait_from_def word_less_nat_alt)
  have "unat (abs_end_samplenum di) < 2 ^ 64" using unsigned_less [of "abs_end_samplenum di"] by simp
  with len end_le have bound: "wait_from di + length ws < 2 ^ 64" by simp
  have "bus_ready (address_shifted s) s" using assms(8,9) by (simp add: bus_ready_def)
  then obtain outs s' where r: "i2c_samples p (wait_from di) ws s = Inr (outs, s')"
    "messages outs = bus_messages (address_shifted s) ts" "state s' = STATE_FIND_START"
    using samples_bus [OF assms(4) _ assms(6,7) bound, of _ p] by blast
  have "i2c_walk (pin_at di) (\<lambda>ch. wait_pins di ps ! ch) (wait_from di) (length ws) s = Inr (outs, s')"
    using walk_samples [of "pin_at di" "wait_from di" ws "\<lambda>ch. wait_pins di ps ! ch" p s] p assms(5) end_le r(1)
    by (simp add: len)
  then show ?thesis
    using i2c.run_chunk [OF assms(1), of "\<lambda>ch. wait_pins di ps ! ch" fuel s] assms(10) r
    by (auto simp: i2c_walk_def len)
qed

text \<open>C3: The I2C decoder decodes the bus. Over a chunk whose samples carry any number of
  transfers, whatever the timing of the clock and of SDA while SCL is low, the loop of
  \<open>i2c_decode\<close>, on the condition matching engine, hands on exactly the messages of the
  transfers, START, addresses with their direction, data, ACK or NACK, START REPEAT and STOP,
  in order; it ends asleep, back in its first state, with the chunk given back.\<close>

theorem i2c_decodes_bus:
  assumes "running 2 chmap ps di" "wait_pins di ps ! 0 \<in> {0, 1}" "wait_pins di ps ! 1 \<in> {0, 1}"
    and "bus_wave ts ws"
    and "map (\<lambda>m. (pin_at di 0 m, pin_at di 1 m)) [wait_from di..<unat (abs_end_samplenum di)] = map level_pair ws"
    and "state s = STATE_FIND_START" "\<not> is_repeat_start s" "packet_data s \<noteq> None"
      "unat (i2c_samplerate s) < 2 ^ 31" "length ws < fuel"
  shows "\<exists>outs d s'. i2c_loop fuel di s = Inr (Sleeping, outs, Some d, s')
    \<and> messages outs = bus_messages (address_shifted s) ts
    \<and> state s' = STATE_FIND_START \<and> inbuf d = None \<and> handled_all_samples d"
  using loop_on_bus [OF assms] .

section \<open>A transfer\<close>

definition send_byte :: "u8 \<times> bool \<Rightarrow> levels list" where
  "send_byte b = concat (map (\<lambda>x. clock_wave ([x], x, 0)) (byte_bits (fst b) @ [snd b]))"

lemma sent_bytes: "bytes_wave bs (concat (map send_byte bs))"
proof (induction bs)
  case Nil
  then show ?case by (simp add: no_bytes)
next
  case (Cons b bs)
  have "bytes_wave ((fst b, snd b) # bs)
      (concat (map clock_wave (map (\<lambda>x. ([x], x, 0)) (byte_bits (fst b) @ [snd b]))) @ concat (map send_byte bs))"
    by (rule next_byte) (auto simp: clock_ok_def comp_def Cons.IH)
  then show ?case by (simp add: send_byte_def [of b] comp_def)
qed

text \<open>A transfer after an idle sample, and the instance that is given it.\<close>

definition transfer_levels :: "(u8 \<times> bool) list \<Rightarrow> levels list" where
  "transfer_levels bs = (True, True) # (True, False) # concat (map send_byte bs)
     @ [(False, False), (True, False), (True, True)]"

definition transfer_chunk :: "(u8 \<times> bool) list \<Rightarrow> srd_decoder_inst" where
  "transfer_chunk bs = chunk_inst demo_decoder [map fst (transfer_levels bs), map snd (transfer_levels bs)]"

lemma transfer_bus: "bs \<noteq> [] \<Longrightarrow> bus_wave [[bs]] (transfer_levels bs)"
proof -
  assume bs: "bs \<noteq> []"
  have "rest_wave [] (clock_wave ([False], False, 0) @ replicate (Suc 0) (True, True))"
    by (rule stop_wave) simp
  then have "bus_wave ((bs # []) # []) (replicate (Suc 0) (True, True) @ replicate (Suc 0) (True, False)
      @ concat (map send_byte bs) @ (clock_wave ([False], False, 0) @ replicate (Suc 0) (True, True))
      @ replicate 0 (True, True))"
    by (intro transfer_wave sent_bytes idle_wave bs)
  then show ?thesis by (simp add: transfer_levels_def)
qed

lemma length_transfer: "length (transfer_levels bs) = 18 * length bs + 5"
  by (induction bs) (simp_all add: transfer_levels_def send_byte_def byte_bits_def upt_rec)

lemma transfer_chunk_running:
  assumes "length bs < 2 ^ 50"
  defines "di \<equiv> transfer_chunk bs"
  shows "running 2 [0, 1] [2, 2] di" "wait_pins di [2, 2] ! 0 \<in> {0, 1}" "wait_pins di [2, 2] ! 1 \<in> {0, 1}"
    "map (\<lambda>m. (pin_at di 0 m, pin_at di 1 m)) [wait_from di..<unat (abs_end_samplenum di)]
      = map level_pair (transfer_levels bs)"
proof -
  let ?w = "transfer_levels bs"
  let ?chans = "[map fst ?w, map snd ?w]"
  have dec: "length (dec_channels demo_decoder) + length (dec_opt_channels demo_decoder) = length ?chans"
    by (simp add: demo_decoder_def)
  have len: "\<forall>c \<in> set ?chans. length c = length ?w" "0 < length ?w" "length ?w < 2 ^ 63"
    using assms(1) by (simp_all add: length_transfer)
  have ne: "?chans \<noteq> []" by simp
  note c = chunk_inst_running [OF dec ne len, folded transfer_chunk_def di_def]
  have two: "map int [0..<length ?chans] = [0, 1]" "replicate (length ?chans) (2 :: u8) = [2, 2]" "length ?chans = 2"
    by (simp_all add: upt_rec)
  show "running 2 [0, 1] [2, 2] di" using c(1) unfolding two(1,2) unfolding two(3) .
  show "wait_pins di [2, 2] ! 0 \<in> {0, 1}" "wait_pins di [2, 2] ! 1 \<in> {0, 1}"
    using c(5) [of 0] c(5) [of 1] unfolding two(2) by simp_all
  have "(pin_at di 0 m, pin_at di 1 m) = level_pair (?w ! m)" if "m < length ?w" for m
    using that c(4) [of 0 m] c(4) [of 1 m] by (cases "?w ! m") simp
  then show "map (\<lambda>m. (pin_at di 0 m, pin_at di 1 m)) [wait_from di..<unat (abs_end_samplenum di)] = map level_pair ?w"
    using c(2,3) by (intro nth_equalityI) simp_all
qed

text \<open>Two bytes written to the device at address \<open>0x50\<close>, the last one refused.\<close>

definition demo_bytes :: "(u8 \<times> bool) list" where
  "demo_bytes = [(0xA0, False), (0x42, True)]"

definition demo_i2c :: i2c_s where
  "demo_i2c = fst (i2c_start i2c_reset_impl (Some (new_c_inst demo_decoder ''i2c-1'')))\<lparr>i2c_samplerate := 1000000\<rparr>"

lemma demo_i2c_ready: "state demo_i2c = STATE_FIND_START" "\<not> is_repeat_start demo_i2c"
  "packet_data demo_i2c \<noteq> None" "unat (i2c_samplerate demo_i2c) < 2 ^ 31" "address_shifted demo_i2c"
  "out_python demo_i2c = 2"
proof -
  show "state demo_i2c = STATE_FIND_START" "\<not> is_repeat_start demo_i2c" "packet_data demo_i2c \<noteq> None"
    "address_shifted demo_i2c" "out_python demo_i2c = 2"
    by code_simp+
  show "unat (i2c_samplerate demo_i2c) < 2 ^ 31" by (simp add: demo_i2c_def)
qed

lemma i2c_decodes_bus_witness:
  "\<exists>outs d s'. i2c_loop 42 (transfer_chunk demo_bytes) demo_i2c = Inr (Sleeping, outs, Some d, s')
    \<and> messages outs = [(''START'', []), (''ADDRESS WRITE'', [C_U8 0x50]), (''ACK'', []),
        (''DATA WRITE'', [C_U8 0x42]), (''NACK'', []), (''STOP'', [])]"
proof -
  have "length demo_bytes < 2 ^ 50" "demo_bytes \<noteq> []" by (simp_all add: demo_bytes_def)
  note run = transfer_chunk_running [OF this(1)] and bus = transfer_bus [OF this(2)]
  have "length (transfer_levels demo_bytes) < 42" by (simp add: length_transfer demo_bytes_def)
  from i2c_decodes_bus [OF run(1-3) bus run(4) demo_i2c_ready(1-4) this] demo_i2c_ready(5)
  have "\<exists>outs d s'. i2c_loop 42 (transfer_chunk demo_bytes) demo_i2c = Inr (Sleeping, outs, Some d, s')
    \<and> messages outs = bus_messages True [[demo_bytes]]"
    by auto
  moreover have "bus_messages True [[demo_bytes]] = [(''START'', []), (''ADDRESS WRITE'', [C_U8 0x50]),
      (''ACK'', []), (''DATA WRITE'', [C_U8 0x42]), (''NACK'', []), (''STOP'', [])]"
    by code_simp
  ultimately show ?thesis by simp
qed

end
