(* ===== verification/Ds1307_Props.thy ===== *)
theory Ds1307_Props
  imports Decoder_Stack Ds1307_Decoder I2C_Bus
begin

text \<open>
  The clock decoder on top of the I2C decoder: a transfer on the bus that sets the clock is
  reported as the date and the time that were set.
\<close>

section \<open>The contract of a stacked decoder\<close>

text \<open>What is followed through a run: the annotations with a date and a time.\<close>

fun date_time :: "out_call \<Rightarrow> (int \<times> string list) option" where
  "date_time (CPut start_s end_s out ann) =
     (if c_ann_class ann \<in> {ds1307_class ANN_READ_DATE_TIME, ds1307_class ANN_WRITE_DATE_TIME}
      then Some (c_ann_class ann, c_ann_text ann) else None)"
| "date_time c = None"

definition date_times :: "out_call list \<Rightarrow> (int \<times> string list) list" where
  "date_times outs = List.map_filter date_time outs"

definition clk_core :: "ds1307_state \<Rightarrow> ds1307_state" where
  "clk_core s = s\<lparr>ss := 0, es := 0, ss_block := 0\<rparr>"

lemma date_times_simps [simp]:
  "date_times [] = []"
  "date_times (c # cs) = (case date_time c of None \<Rightarrow> date_times cs | Some m \<Rightarrow> m # date_times cs)"
  "date_times (cs @ ds) = date_times cs @ date_times ds"
  by (simp_all add: date_times_def map_filter_simps map_filter_def split: option.split)

lemma date_time_put [simp]: "date_time (ds_put a b s cls txts) =
    (if cls \<in> {ANN_READ_DATE_TIME, ANN_WRITE_DATE_TIME} then Some (ds1307_class cls, txts) else None)"
  by (cases cls) (simp_all add: c_put_def)

declare ds1307_class.simps [simp del]

lemmas reg_defs = reg_seconds_def reg_minutes_def reg_hours_def reg_day_def reg_date_def reg_month_def
  reg_year_def reg_control_def reg_ram_def reserved_def

lemma handle_reg_outs: "date_times (fst (ds1307_handle_reg s b a e)) = []"
  by (simp add: ds1307_handle_reg_def reg_defs Let_def del: ds1307_class.simps)

lemma handle_reg_core:
  "clk_core (snd (ds1307_handle_reg s b a e)) = snd (ds1307_handle_reg (clk_core s) b a' e')"
  by (simp add: ds1307_handle_reg_def reg_defs Let_def clk_core_def)

lemma output_datetime_core:
  "date_times (ds1307_output_datetime s cls rw) = date_times (ds1307_output_datetime (clk_core s) cls rw)"
  by (simp add: ds1307_output_datetime_def clk_core_def Let_def)

lemma check_chip_outs: "date_times (fst (check_chip b m s)) = []"
  by (simp add: check_chip_def)

lemma check_chip_core: "clk_core (snd (check_chip b m s)) = snd (check_chip b m (clk_core s))"
  by (simp add: check_chip_def clk_core_def)

lemma data_byte_outs: "cls \<in> {ANN_WRITE_REG, ANN_READ_REG} \<Longrightarrow> date_times (fst (data_byte cls what b s)) = []"
  by (auto simp: data_byte_def handle_reg_outs split_beta)

lemma data_byte_core: "clk_core (snd (data_byte cls what b s)) = snd (data_byte cls what b (clk_core s))"
  using handle_reg_core [of s b "ss s" "es s" 0 0]
  by (simp add: data_byte_def split_beta) (simp add: clk_core_def)

lemma clk_core_simps [simp]:
  "mode (clk_core s) = mode s" "clk_core (clk_core s) = clk_core s"
  "clk_core (s\<lparr>ss := a, es := e\<rparr>) = clk_core s"
  "clk_core (s\<lparr>mode := m\<rparr>) = clk_core s\<lparr>mode := m\<rparr>"
  "clk_core (s\<lparr>mode := m, ss_block := a\<rparr>) = clk_core s\<lparr>mode := m\<rparr>"
  by (simp_all add: clk_core_def)

lemma clk_recv_core:
  "clk_core (snd (ds1307_recv_proto other a e cmd fs s)) = clk_core (snd (ds1307_recv_proto other 0 0 cmd fs (clk_core s)))"
  unfolding ds1307_recv_proto_def Let_def
  by (simp add: split_beta check_chip_core data_byte_core if_distrib [of fst] if_distrib [of snd]
      if_distrib [of clk_core]) (simp add: clk_core_def)

lemma output_datetime_cong:
  "clk_core s = clk_core s' \<Longrightarrow>
   date_times (ds1307_output_datetime s cls rw) = date_times (ds1307_output_datetime s' cls rw)"
  using output_datetime_core [of s] output_datetime_core [of s'] by simp

lemma clk_recv_outs:
  "date_times (fst (ds1307_recv_proto other a e cmd fs s)) = date_times (fst (ds1307_recv_proto other 0 0 cmd fs (clk_core s)))"
  unfolding ds1307_recv_proto_def Let_def
  by (simp add: split_beta check_chip_outs data_byte_outs if_distrib [of fst] if_distrib [of snd]
      if_distrib [of date_times]) (auto intro!: output_datetime_cong)

lemma clk_bits:
  "ds1307_recv_proto other a e ''BITS'' fs s = ([], s\<lparr>ss := a, es := e\<rparr>)"
  by (simp add: ds1307_recv_proto_def Let_def)

interpretation ds1307: stacked_decoder "ds1307_recv_proto other" clk_core date_times
  by unfold_locales (simp_all add: clk_bits, rule clk_recv_core, rule clk_recv_outs)

section \<open>Setting the clock\<close>

text \<open>The seven time registers of the chip, in 24-hour mode with the oscillator running.\<close>

record clock_time =
  t_sec :: nat
  t_min :: nat
  t_hour :: nat
  t_wday :: nat
  t_mday :: nat
  t_month :: nat
  t_year :: nat

definition time_ok :: "clock_time \<Rightarrow> bool" where
  "time_ok t \<longleftrightarrow> t_sec t < 60 \<and> t_min t < 60 \<and> t_hour t < 24 \<and> 1 \<le> t_wday t \<and> t_wday t \<le> 7
     \<and> 1 \<le> t_mday t \<and> t_mday t \<le> 31 \<and> 1 \<le> t_month t \<and> t_month t \<le> 12 \<and> t_year t < 100"

definition bcd :: "nat \<Rightarrow> u8" where
  "bcd n = of_nat (16 * (n div 10) + n mod 10)"

definition time_regs :: "clock_time \<Rightarrow> u8 list" where
  "time_regs t = map bcd [t_sec t, t_min t, t_hour t, t_wday t, t_mday t, t_month t, t_year t]"

definition two_digits :: "nat \<Rightarrow> string" where
  "two_digits n = [digit_char (n div 10), digit_char (n mod 10)]"

definition time_text :: "clock_time \<Rightarrow> string" where
  "time_text t = days_of_week ! (t_wday t - 1) @ '', '' @ two_digits (t_mday t) @ ''.''
     @ two_digits (t_month t) @ ''.20'' @ two_digits (t_year t) @ '' '' @ two_digits (t_hour t) @ '':''
     @ two_digits (t_min t) @ '':'' @ two_digits (t_sec t)"

lemma bcd2int_bcd:
  "n < 80 \<Longrightarrow> bcd2int (bcd n AND 0x7f) = int n"
  "n < 40 \<Longrightarrow> bcd2int (bcd n AND 0x3f) = int n"
  "n < 20 \<Longrightarrow> bcd2int (bcd n AND 0x1f) = int n"
  "n < 8 \<Longrightarrow> bcd2int (bcd n AND 0x07) = int n"
  "n < 100 \<Longrightarrow> bcd2int (bcd n AND 0xff) = int n"
  "n < 40 \<Longrightarrow> \<not> bit (bcd n) 6"
proof -
  have "\<forall>n \<in> set [0..<80]. bcd2int (bcd n AND 0x7f) = int n"
    "\<forall>n \<in> set [0..<40]. bcd2int (bcd n AND 0x3f) = int n \<and> \<not> bit (bcd n) 6"
    "\<forall>n \<in> set [0..<20]. bcd2int (bcd n AND 0x1f) = int n"
    "\<forall>n \<in> set [0..<8]. bcd2int (bcd n AND 0x07) = int n"
    "\<forall>n \<in> set [0..<100]. bcd2int (bcd n AND 0xff) = int n"
    by code_simp+
  then show "n < 80 \<Longrightarrow> bcd2int (bcd n AND 0x7f) = int n"
    "n < 40 \<Longrightarrow> bcd2int (bcd n AND 0x3f) = int n"
    "n < 20 \<Longrightarrow> bcd2int (bcd n AND 0x1f) = int n"
    "n < 8 \<Longrightarrow> bcd2int (bcd n AND 0x07) = int n"
    "n < 100 \<Longrightarrow> bcd2int (bcd n AND 0xff) = int n"
    "n < 40 \<Longrightarrow> \<not> bit (bcd n) 6"
    by auto
qed

lemma digit_char_0: "digit_char 0 = CHR ''0''"
  by code_simp

lemma fmt_02d_two: "n < 100 \<Longrightarrow> fmt_02d (int n) = two_digits n"
  by (cases "n < 10")
    (simp_all add: fmt_02d_def fmt_d_def two_digits_def dec_string_small dec_string_step digit_char_0)

lemma fmt_4d_year:
  assumes "n < 100"
  shows "fmt_4d (int n + 2000) = ''20'' @ two_digits n"
proof -
  have d: "(n + 2000) div 10 = n div 10 + 200" "(n + 2000) mod 10 = n mod 10"
    using div_mult_self1 [of 10 n 200] mod_mult_self1 [of n 200 10] by simp_all
  have q: "n div 10 < 10" using assms by (simp add: less_mult_imp_div_less)
  have e: "(n div 10 + 200) div 10 = 20" "(n div 10 + 200) mod 10 = n div 10"
    using q by (intro div_nat_eqI mod_nat_eqI; simp)+
  have "dec_string (n + 2000) = dec_string (n div 10 + 200) @ [digit_char (n mod 10)]"
    using dec_string_step [of "n + 2000"] d by simp
  also have "dec_string (n div 10 + 200) = dec_string 20 @ [digit_char (n div 10)]"
    using dec_string_step [of "n div 10 + 200"] e by simp
  also have "dec_string 20 = ''20''" by code_simp
  finally show ?thesis by (simp add: fmt_4d_def fmt_d_def two_digits_def nat_add_distrib)
qed

text \<open>The messages that set the clock, whatever was acknowledged.\<close>

definition clock_transfer :: "clock_time \<Rightarrow> bool list \<Rightarrow> (u8 \<times> bool) list" where
  "clock_transfer t nacks = zip (0xD0 # 0 # time_regs t) nacks"

text \<open>Single messages, in the mode that takes them.\<close>

lemma clk_message:
  "ds1307_recv_proto other a e (fst (ack_message b)) (snd (ack_message b)) s = ([], s\<lparr>ss := a, es := e\<rparr>)"
  "ds1307_recv_proto other a e ''START'' fs s =
     ([], s\<lparr>mode := STATE_GET_SLAVE_ADDR, ss_block := a, ss := a, es := e\<rparr>)"
  "mode s = STATE_GET_SLAVE_ADDR \<Longrightarrow> ds1307_recv_proto other a e ''ADDRESS WRITE'' [C_U8 0x68] s =
     ([], s\<lparr>mode := STATE_GET_REG_ADDR, ss := a, es := e\<rparr>)"
  "mode s = STATE_GET_REG_ADDR \<Longrightarrow> ds1307_recv_proto other a e ''DATA WRITE'' [C_U8 v] s =
     ([], s\<lparr>mode := STATE_WRITE_RTC_REGS, reg := unat v, ss := a, es := e\<rparr>)"
  "mode s = STATE_WRITE_RTC_REGS \<Longrightarrow> ds1307_recv_proto other a e ''DATA WRITE'' [C_U8 v] s =
     data_byte ANN_WRITE_REG ''Register write'' v (s\<lparr>ss := a, es := e\<rparr>)"
  "mode s = STATE_WRITE_RTC_REGS \<Longrightarrow> ds1307_recv_proto other a e ''STOP'' fs s =
     (ds1307_output_datetime (s\<lparr>ss := a, es := e\<rparr>) ANN_WRITE_DATE_TIME ''Written'',
      s\<lparr>mode := STATE_IDLE, ss := a, es := e\<rparr>)"
  by (simp_all add: ds1307_recv_proto_def ack_message_def check_chip_def DS1307_I2C_ADDRESS_def Let_def split_beta)

lemma time_register:
  "reg s = 0 \<Longrightarrow> snd (data_byte cls what b s) = s\<lparr>seconds := bcd2int (b AND 0x7f), reg := 1\<rparr>"
  "reg s = 1 \<Longrightarrow> snd (data_byte cls what b s) = s\<lparr>minutes := bcd2int (b AND 0x7f), reg := 2\<rparr>"
  "reg s = 2 \<Longrightarrow> snd (data_byte cls what b s) =
     s\<lparr>hours := bcd2int (if bit b 6 then b AND 0x1f else b AND 0x3f), reg := 3\<rparr>"
  "reg s = 3 \<Longrightarrow> snd (data_byte cls what b s) = s\<lparr>days := bcd2int (b AND 0x07), reg := 4\<rparr>"
  "reg s = 4 \<Longrightarrow> snd (data_byte cls what b s) = s\<lparr>date := bcd2int (b AND 0x3f), reg := 5\<rparr>"
  "reg s = 5 \<Longrightarrow> snd (data_byte cls what b s) = s\<lparr>months := bcd2int (b AND 0x1f), reg := 6\<rparr>"
  "reg s = 6 \<Longrightarrow> snd (data_byte cls what b s) = s\<lparr>years := bcd2int (b AND 0xff) + 2000, reg := 7\<rparr>"
  by (simp_all add: data_byte_def ds1307_handle_reg_def reg_defs Let_def split_beta del: mult_Suc)

lemma on_messages_append:
  "on_messages recv (xs @ ys) s = (fst (on_messages recv xs s) @ fst (on_messages recv ys (snd (on_messages recv xs s))),
     snd (on_messages recv ys (snd (on_messages recv xs s))))"
  by (induction xs arbitrary: s) (simp_all add: split_beta)

text \<open>A run of written bytes goes through the registers.\<close>

abbreviation (input) write_reg :: "u8 \<Rightarrow> ds1307_state \<Rightarrow> ds1307_state" where
  "write_reg b s \<equiv> snd (data_byte ANN_WRITE_REG ''Register write'' b s)"

lemma data_byte_mode: "mode (snd (data_byte cls what b s)) = mode s"
  by (simp add: data_byte_def ds1307_handle_reg_def reg_defs Let_def split_beta)

lemma write_run:
  assumes "mode s = STATE_WRITE_RTC_REGS" "length nacks = length bs"
  shows "date_times (fst (on_messages (ds1307_recv_proto other) (data_messages False (zip bs nacks)) s)) = []"
    "clk_core (snd (on_messages (ds1307_recv_proto other) (data_messages False (zip bs nacks)) s))
      = fold write_reg bs (clk_core s)"
  using assms
proof (induction bs arbitrary: s nacks)
  case (Cons b bs)
  {
    case 1
    then show ?case
      using Cons.IH(1) by (cases nacks)
        (auto simp: split_beta clk_message data_message_def data_byte_outs data_byte_mode)
  next
    case 2
    then show ?case
      using Cons.IH(2) by (cases nacks)
        (auto simp: split_beta clk_message data_message_def data_byte_core data_byte_mode)
  }
qed auto

lemma write_time:
  assumes "time_ok t" "reg s = 0"
  shows "fold write_reg (time_regs t) s = s\<lparr>seconds := int (t_sec t), minutes := int (t_min t),
    hours := int (t_hour t), days := int (t_wday t), date := int (t_mday t), months := int (t_month t),
    years := int (t_year t) + 2000, reg := 7\<rparr>"
  using assms by (simp add: time_regs_def time_ok_def time_register bcd2int_bcd)

lemma datetime_text:
  assumes "time_ok t" "seconds s = int (t_sec t)" "minutes s = int (t_min t)" "hours s = int (t_hour t)"
    "days s = int (t_wday t)" "date s = int (t_mday t)" "months s = int (t_month t)" "years s = int (t_year t) + 2000"
  shows "date_times (ds1307_output_datetime s ANN_WRITE_DATE_TIME ''Written'')
    = [(ds1307_class ANN_WRITE_DATE_TIME, [''Written date/time: '' @ time_text t])]"
proof -
  have t: "t_sec t < 100" "t_min t < 100" "t_hour t < 100" "1 \<le> t_wday t" "t_wday t \<le> 7" "t_mday t < 100" "t_month t < 100"
    "t_year t < 100"
    using assms(1) by (simp_all add: time_ok_def)
  have "nat ((int (t_wday t) - 1) mod 7) = t_wday t - 1" using t by simp
  moreover have "\<forall>d \<in> set days_of_week. length d \<le> 9" "length days_of_week = 7" by code_simp+
  then have "length (days_of_week ! (t_wday t - 1)) \<le> 9" using t by simp
  ultimately show ?thesis
    using t assms(2-)
    by (simp add: ds1307_output_datetime_def time_text_def fmt_02d_two fmt_4d_year snprintf_buf_def two_digits_def)
qed

lemma clk_core_fields:
  "mode (clk_core s) = mode s" "seconds (clk_core s) = seconds s" "minutes (clk_core s) = minutes s"
  "hours (clk_core s) = hours s" "days (clk_core s) = days s" "date (clk_core s) = date s"
  "months (clk_core s) = months s" "years (clk_core s) = years s"
  by (simp_all add: clk_core_def)

lemma clock_messages:
  assumes "time_ok t" "length nacks = 9"
  shows "date_times (fst (on_messages (ds1307_recv_proto other) (bus_messages True [[clock_transfer t nacks]]) s))
    = [(ds1307_class ANN_WRITE_DATE_TIME, [''Written date/time: '' @ time_text t])]"
proof -
  obtain a0 a1 acks where a: "nacks = a0 # a1 # acks" "length acks = length (time_regs t)"
    using assms(2) by (auto simp: numeral_eq_Suc length_Suc_conv time_regs_def)
  let ?run = "on_messages (ds1307_recv_proto other)"
  define s0 where "s0 = s\<lparr>mode := STATE_WRITE_RTC_REGS, ss_block := 0, reg := 0, ss := 0, es := 0\<rparr>"
  have head: "?run [(''START'', []), address_message True 0xD0, ack_message a0, data_message False 0, ack_message a1] s
      = ([], s0)"
    by (simp add: address_message_def data_message_def split_beta clk_message s0_def)
  define s1 where "s1 = snd (?run (data_messages False (zip (time_regs t) acks)) s0)"
  have s1: "date_times (fst (?run (data_messages False (zip (time_regs t) acks)) s0)) = []"
    "clk_core s1 = fold write_reg (time_regs t) (clk_core s0)"
    using write_run [of s0 acks "time_regs t"] a(2) by (simp_all add: s1_def s0_def)
  have "clk_core s1 = clk_core s0\<lparr>seconds := int (t_sec t), minutes := int (t_min t),
    hours := int (t_hour t), days := int (t_wday t), date := int (t_mday t), months := int (t_month t),
    years := int (t_year t) + 2000, reg := 7\<rparr>"
    unfolding s1(2) by (rule write_time [OF assms(1)]) (simp add: s0_def clk_core_def)
  note c = arg_cong [OF this]
  have "mode s1 = STATE_WRITE_RTC_REGS" "seconds s1 = int (t_sec t)" "minutes s1 = int (t_min t)"
    "hours s1 = int (t_hour t)" "days s1 = int (t_wday t)" "date s1 = int (t_mday t)"
    "months s1 = int (t_month t)" "years s1 = int (t_year t) + 2000"
    using c [of mode] c [of seconds] c [of minutes] c [of hours] c [of days] c [of date] c [of months] c [of years]
    by (simp_all add: clk_core_fields s0_def)
  then have stop: "mode s1 = STATE_WRITE_RTC_REGS" "date_times (ds1307_output_datetime (s1\<lparr>ss := 0, es := 0\<rparr>) ANN_WRITE_DATE_TIME ''Written'')
    = [(ds1307_class ANN_WRITE_DATE_TIME, [''Written date/time: '' @ time_text t])]"
    using datetime_text [OF assms(1), of "s1\<lparr>ss := 0, es := 0\<rparr>"] by simp_all
  have "bus_messages True [[clock_transfer t nacks]] =
      [(''START'', []), address_message True 0xD0, ack_message a0, data_message False 0, ack_message a1]
      @ data_messages False (zip (time_regs t) acks) @ [(''STOP'', [])]"
    by (simp add: a clock_transfer_def)
  then show ?thesis
    by (simp only: on_messages_append head) (use stop s1(1) in \<open>simp add: split_beta clk_message flip: s1_def\<close>)
qed

section \<open>The I2C decoder as a sender\<close>

text \<open>All its messages go to its protocol output, with at most one field.\<close>

definition i2c_sends :: "i2c_s \<Rightarrow> fault + out_call list \<times> i2c_s \<Rightarrow> bool" where
  "i2c_sends s r \<longleftrightarrow> (case r of Inl f \<Rightarrow> True
     | Inr (outs, s') \<Rightarrow> out_python s' = out_python s \<and> (\<forall>c \<in> set outs. sends_on (out_python s) c))"

lemma sends_on_i2c_put [simp]: "sends_on i (i2c_put a e out cls' txts)" "sends_on i (i2c_put_v a e out cls' v txts)"
  by (simp_all add: i2c_put_def i2c_put_v_def)

lemma handle_packet_sends: "i2c_sends s (i2c_handle_packet s r)"
  by (auto simp: i2c_sends_def i2c_handle_packet_def i2c_reset_packet_def Let_def split: option.split prod.split)

lemma annotations_send:
  "c \<in> set (bit_annotations s) \<Longrightarrow> sends_on i c"
  "c \<in> set (address_annotations s n e cls d) \<Longrightarrow> sends_on i c"
  "c \<in> set (data_annotations s e cls d) \<Longrightarrow> sends_on i c"
  "c \<in> set (byte_message s e d) \<Longrightarrow> sends_on (out_python s) c"
  by (auto simp: bit_annotations_def address_annotations_def data_annotations_def byte_message_def Let_def
      split: if_splits)

lemma byte_calls_send: "c \<in> set (byte_calls s n e d) \<Longrightarrow> sends_on (out_python s) c"
  by (auto simp: byte_calls_def annotations_send split: option.splits if_splits)

lemma whole_byte_sends: "i2c_sends s (i2c_whole_byte n s)"
proof -
  have "sends_on i c" if "c \<in> set (byte_calls s' n e d)" "out_python s' = i" for c s' e d i
    using byte_calls_send that by blast
  then show ?thesis
    by (cases "state s")
      (auto simp: i2c_whole_byte_def i2c_sends_def Let_def split: option.split)
qed

lemma address_or_data_sends: "i2c_sends s (i2c_handle_address_or_data n sda s)"
proof -
  obtain s3 where s3: "out_python s3 = out_python s" "i2c_handle_address_or_data n sda s =
      (if bitcount s3 < 7 then Inr ([], s3\<lparr>bitcount := Suc (bitcount s3)\<rparr>) else i2c_whole_byte n s3)"
    by (rule that [of "store_bit n sda (if bitcount s = 0
        then s\<lparr>pdu_bits := Suc (pdu_bits s), databyte := push_bit 1 (databyte s) OR sda, ss_byte := n\<rparr>
        else s\<lparr>pdu_bits := Suc (pdu_bits s), databyte := push_bit 1 (databyte s) OR sda\<rparr>)"])
      (simp_all add: store_bit_def i2c_handle_address_or_data_def Let_def)
  show ?thesis
    using whole_byte_sends [of s3 n] s3 by (cases "i2c_whole_byte n s3") (auto simp: i2c_sends_def)
qed

lemma resume_sends: "i2c_sends s (i2c_resume n m p s)"
proof -
  have start: "i2c_sends s (i2c_handle_start n s)"
    using handle_packet_sends [of "s\<lparr>pdu_start := n, pdu_bits := 0\<rparr>" "is_repeat_start s"]
    by (auto simp: i2c_sends_def i2c_handle_start_def Let_def ebind_def split: sum.splits)
  have stop: "i2c_sends s (i2c_handle_stop n s)"
    using handle_packet_sends [of "s\<lparr>packet_es := n\<rparr>" False]
    by (auto simp: i2c_sends_def i2c_handle_stop_def Let_def ebind_def split: sum.splits)
  show ?thesis
    using address_or_data_sends start stop
    by (cases "state s"; cases p) (auto simp: i2c_resume_def i2c_sends_def i2c_get_ack_def Let_def)
qed

lemma loop_sends:
  "i2c_loop fuel di s = Inr (e, outs, d, s') \<Longrightarrow> \<forall>c \<in> set outs. sends_on (out_python s) c"
proof (induction fuel arbitrary: di s e outs d s')
  case (Suc fuel)
  from Suc.prems obtain st di' where w: "c_wait (i2c_wait_args (state s)) (Some di) = Inr (st, di')"
    by (auto simp: ebind_eq_Inr)
  show ?case
  proof (cases "\<exists>res d1. st = WaitDone SRD_OK res \<and> di' = Some d1")
    case True
    then obtain res d1 where "st = WaitDone SRD_OK res" "di' = Some d1" by blast
    with Suc.prems w obtain outs1 s1 outs2 where
      r: "i2c_resume (abs_cur_samplenum d1) (match_array d1) (c_pin 1 (Some d1)) s = Inr (outs1, s1)"
      "i2c_loop fuel d1 s1 = Inr (e, outs2, d, s')" "outs = outs1 @ outs2"
      by (auto simp: ebind_eq_Inr)
    from resume_sends [of s "abs_cur_samplenum d1" "match_array d1" "c_pin 1 (Some d1)"] Suc.IH [OF r(2)]
    show ?thesis by (auto simp: r(1,3) i2c_sends_def)
  next
    case False
    with Suc.prems w have "outs = []"
      by (cases st) (auto split: if_splits option.splits)
    then show ?thesis by simp
  qed
qed simp

section \<open>From the wire to the clock\<close>

text \<open>C6: End to end. When a transfer on the bus sets the time registers of the clock, to any time
  of the years 2000 to 2099 and whatever the timing of the wires and the acknowledges, then the
  I2C decoder on the matching engine, its messages handed on by \<open>c_proto\<close> to the clock
  decoder stacked on it, whatever state that is in, give exactly one annotation with a date and
  a time, and it names the time that was set.\<close>

theorem clock_set_over_wires:
  assumes "running 2 chmap ps di" "wait_pins di ps ! 0 \<in> {0, 1}" "wait_pins di ps ! 1 \<in> {0, 1}"
    and "bus_wave [[clock_transfer t nacks]] ws" "time_ok t" "length nacks = 9"
    and "map (\<lambda>m. (pin_at di 0 m, pin_at di 1 m)) [wait_from di..<unat (abs_end_samplenum di)] = map level_pair ws"
    and "state s = STATE_FIND_START" "\<not> is_repeat_start s" "packet_data s \<noteq> None"
      "unat (i2c_samplerate s) < 2 ^ 31" "address_shifted s" "length ws < fuel"
    and "stacked_one has_upper h di (out_python s) q"
  shows "\<exists>outs d s' calls. i2c_loop fuel di s = Inr (Sleeping, outs, Some d, s')
    \<and> stack_calls has_upper h di outs = Inr calls \<and> (\<forall>c \<in> set calls. upper_di c = q)
    \<and> date_times (fst (feed (ds1307_recv_proto other) calls clk))
      = [(ds1307_class ANN_WRITE_DATE_TIME, [''Written date/time: '' @ time_text t])]"
proof -
  obtain outs d s' where loop: "i2c_loop fuel di s = Inr (Sleeping, outs, Some d, s')"
    "messages outs = bus_messages True [[clock_transfer t nacks]]"
    using loop_on_bus [OF assms(1-4,7-11,13)] assms(12) by auto
  let ?calls = "List.map_filter (upper_of q) outs"
  have "stack_calls has_upper h di outs = Inr ?calls"
    by (rule stack_calls_one [OF assms(14) loop_sends [OF loop(1)]])
  moreover have "\<forall>c \<in> set ?calls. upper_di c = q"
    by (auto simp: map_filter_def elim!: upper_of.elims)
  moreover have "date_times (fst (feed (ds1307_recv_proto other) ?calls clk))
      = date_times (fst (on_messages (ds1307_recv_proto other) (messages outs) clk))"
    using ds1307.feed_messages [of clk clk other q outs] by simp
  then have "date_times (fst (feed (ds1307_recv_proto other) ?calls clk))
      = [(ds1307_class ANN_WRITE_DATE_TIME, [''Written date/time: '' @ time_text t])]"
    using clock_messages [OF assms(5,6), of other clk] loop(2) by simp
  ultimately show ?thesis using loop(1) by blast
qed

section \<open>What the clock decoder misses\<close>

text \<open>
  A read that starts with the read address, without a write of the register number before it,
  gives no register at all.
\<close>

lemma direct_read_ignored:
  "fst (on_messages (ds1307_recv_proto other) ((''START'', []) # address_message True 0xD1 #
     ack_message a # data_messages True bs @ [(''STOP'', [])]) s) = []"
proof -
  have data: "fst (on_messages (ds1307_recv_proto other) (data_messages True bs) s) = []
      \<and> mode (snd (on_messages (ds1307_recv_proto other) (data_messages True bs) s)) = STATE_READ_RTC_REGS"
    if "mode s = STATE_READ_RTC_REGS" for s
    using that
  proof (induction bs arbitrary: s)
    case (Cons b bs)
    obtain v nack where b: "b = (v, nack)" by (cases b)
    have "ds1307_recv_proto other 0 0 ''DATA READ'' [C_U8 v] s = ([], s\<lparr>ss := 0, es := 0\<rparr>)"
      using Cons.prems by (simp add: ds1307_recv_proto_def Let_def)
    then show ?case
      using Cons.IH [of "s\<lparr>ss := 0, es := 0\<rparr>"] Cons.prems
      by (simp add: b data_message_def clk_message split_beta)
  qed simp
  have "ds1307_recv_proto other 0 0 ''ADDRESS READ'' [C_U8 0x68] (s\<lparr>mode := STATE_GET_SLAVE_ADDR, ss_block := 0, ss := 0, es := 0\<rparr>)
      = ([], s\<lparr>mode := STATE_READ_RTC_REGS, ss_block := 0, ss := 0, es := 0\<rparr>)"
    by (simp add: ds1307_recv_proto_def check_chip_def DS1307_I2C_ADDRESS_def Let_def)
  moreover have "fst (ds1307_recv_proto other 0 0 ''STOP'' [] s) = []" if "mode s = STATE_READ_RTC_REGS" for s
    using that by (simp add: ds1307_recv_proto_def Let_def)
  ultimately show ?thesis
    using data by (simp add: address_message_def clk_message on_messages_append split_beta)
qed

section \<open>A clock on the bus\<close>

definition demo_time :: clock_time where
  "demo_time = \<lparr>t_sec = 56, t_min = 34, t_hour = 12, t_wday = 3, t_mday = 5, t_month = 3, t_year = 24\<rparr>"

definition demo_transfer :: "(u8 \<times> bool) list" where
  "demo_transfer = clock_transfer demo_time (replicate 9 False)"

text \<open>The I2C instance with its four outputs; the clock decoder is at address 1.\<close>

definition demo_outputs :: "srd_pd_output list" where
  "demo_outputs = pd_output (the (snd (i2c_start i2c_reset_impl (Some (new_c_inst demo_decoder ''i2c-1'')))))"

definition demo_bus_inst :: srd_decoder_inst where
  "demo_bus_inst = (transfer_chunk demo_transfer)\<lparr>pd_output := demo_outputs, next_di := [1]\<rparr>"

definition demo_clock_store :: inst_store where
  "demo_clock_store = (\<lambda>p. None)(1 \<mapsto> new_c_inst demo_decoder ''ds1307-1'')"

lemma clock_set_over_wires_witness:
  "\<exists>outs d s' calls. i2c_loop 200 demo_bus_inst demo_i2c = Inr (Sleeping, outs, Some d, s')
    \<and> stack_calls (\<lambda>di. True) demo_clock_store demo_bus_inst outs = Inr calls
    \<and> date_times (fst (feed (ds1307_recv_proto (\<lambda>f. 0)) calls ds1307_reset))
      = [(25, [''Written date/time: Tuesday, 05.03.2024 12:34:56''])]"
proof -
  have len: "length demo_transfer = 9" by (simp add: demo_transfer_def clock_transfer_def time_regs_def)
  then have bs: "length demo_transfer < 2 ^ 50" "demo_transfer \<noteq> []" by auto
  note run = transfer_chunk_running [OF bs(1), folded outputs_matter_not
      [where di = "transfer_chunk demo_transfer" and outs = demo_outputs and uppers = "[1]", folded demo_bus_inst_def]]
  note bus = transfer_bus [OF bs(2), unfolded demo_transfer_def, folded demo_transfer_def]
  have t: "time_ok demo_time" "length (replicate 9 False) = 9" by (simp_all add: time_ok_def demo_time_def)
  have levels: "length (transfer_levels demo_transfer) < 200" by (simp add: length_transfer len)
  have stack: "stacked_one (\<lambda>di. True) demo_clock_store demo_bus_inst (out_python demo_i2c) 1"
    unfolding demo_i2c_ready(6)
    by (simp add: stacked_one_def demo_bus_inst_def demo_clock_store_def new_c_inst_def Let_def) code_simp
  have "''Written date/time: '' @ time_text demo_time = ''Written date/time: Tuesday, 05.03.2024 12:34:56''"
    by code_simp
  moreover have "ds1307_class ANN_WRITE_DATE_TIME = 25" by code_simp
  ultimately show ?thesis
    using clock_set_over_wires [OF run(1-3) bus [unfolded demo_transfer_def] t _ demo_i2c_ready(1-5) _ stack,
      of 200 "\<lambda>f. 0" ds1307_reset] run(4) levels
    by (auto simp: demo_transfer_def)
qed

end
