(* ===== verification/Max7219_Decoder.thy ===== *)
theory Max7219_Decoder
  imports Decoder_Stack
begin

text \<open>
  The decoder for the MAX7219 display driver (\<open>libsigrokdecode/c_decoders/max7219_c.c\<close>), stacked
  on an SPI decoder: a message handler without a loop of its own.
\<close>

datatype max7219_ann = ANN_REG | ANN_DIGIT | ANN_WARNING

primrec max7219_class :: "max7219_ann \<Rightarrow> int" where
  "max7219_class ANN_REG = 0"
| "max7219_class ANN_DIGIT = 1"
| "max7219_class ANN_WARNING = 2"

text \<open>\<open>max_pos\<close> counts the words since CHIP SELECT.\<close>

record max7219_state =
  max_out :: int
  max_pos :: nat
  cs_asserted :: bool
  max_addr :: u8
  addr_start :: u64
  cs_start :: u64

section \<open>Registers\<close>

definition max7219_binary :: "u8 \<Rightarrow> nat \<Rightarrow> string" where
  "max7219_binary val bufsize =
     (if bufsize < 11 then []
      else ''0b'' @ map (\<lambda>i. if bit val (7 - i) then CHR ''1'' else CHR ''0'') [0..<8])"

definition max7219_decode_intensity :: "u8 \<Rightarrow> nat \<Rightarrow> string" where
  "max7219_decode_intensity val bufsize =
     (let intensity = unat (val AND 0x0F) in
      snprintf_buf bufsize (if intensity = 0 then ''min'' else if intensity = 15 then ''max'' else dec_string intensity))"

definition max7219_handle_register :: "max7219_state \<Rightarrow> u8 \<Rightarrow> u8 \<Rightarrow> u64 \<Rightarrow> u64 \<Rightarrow> out_call list" where
  "max7219_handle_register s addr val start_s end_s =
     (if 1 \<le> addr \<and> addr \<le> 8 then
        [c_put_v start_s end_s (max_out s) (max7219_class ANN_DIGIT) val
           [snprintf_buf 64 (''Digit '' @ dec_string (unat addr) @ '': 0x'' @ fmt_02X val)]]
      else let known = (\<lambda>txt. [c_put start_s end_s (max_out s) (max7219_class ANN_REG) [snprintf_buf 512 txt]]) in
        if addr = 0x00 then known ''No-op''
        else if addr = 0x09 then known (''Decode: '' @ max7219_binary val 11)
        else if addr = 0x0A then known (''Intensity: '' @ max7219_decode_intensity val 16)
        else if addr = 0x0B then known (''Scan limit: '' @ dec_string (1 + unat val))
        else if addr = 0x0C then known (''Shutdown: '' @ (if val \<noteq> 0 then ''off'' else ''on''))
        else if addr = 0x0F then known (''Display test: '' @ (if val \<noteq> 0 then ''on'' else ''off''))
        else [c_put start_s end_s (max_out s) (max7219_class ANN_WARNING)
                [snprintf_buf 512 (''Unknown register 0x'' @ fmt_02X addr)]])"

section \<open>Messages\<close>

text \<open>
  The handler reads the bytes of a DATA message from the fields one by one: it wants seventeen
  of them.
\<close>

definition max7219_recv_proto :: "(c_field \<Rightarrow> u8) \<Rightarrow> u64 \<Rightarrow> u64 \<Rightarrow> string \<Rightarrow> c_field list \<Rightarrow>
    max7219_state \<Rightarrow> out_call list \<times> max7219_state" where
  "max7219_recv_proto other start_s end_s cmd flds s =
     (if cmd = ''DATA'' then
        (if \<not> cs_asserted s then ([], s)
         else if length flds < 17 then ([], s)
         else let mosi_byte = (if bit (field_u8 other (flds ! 0)) 0 then field_u8 other (flds ! 1) else 0);
                  (outs, s1) =
                    (if max_pos s = 0 then ([], s\<lparr>max_addr := mosi_byte, addr_start := start_s\<rparr>)
                     else if max_pos s = 1 then
                       (max7219_handle_register s (max_addr s) mosi_byte (addr_start s) end_s, s)
                     else ([], s))
              in (outs, s1\<lparr>max_pos := Suc (max_pos s1)\<rparr>))
      else if cmd = ''CS-CHANGE'' then
        (let new_cs = (if 2 \<le> length flds then field_u8 other (flds ! 1) else 0); s1 = s\<lparr>cs_asserted := (new_cs = 0)\<rparr> in
         if cs_asserted s1 then ([], s1\<lparr>max_pos := 0, cs_start := start_s\<rparr>)
         else (if max_pos s1 = 1 then [c_put (cs_start s1) end_s (max_out s1) (max7219_class ANN_WARNING) [''Short write'']]
               else if 2 < max_pos s1 then [c_put (cs_start s1) end_s (max_out s1) (max7219_class ANN_WARNING) [''Overlong write'']]
               else [], s1))
      else ([], s))"

definition max7219_reset :: max7219_state where
  "max7219_reset = \<lparr>max_out = 0, max_pos = 0, cs_asserted = False, max_addr = 0, addr_start = 0, cs_start = 0\<rparr>"

definition max7219_start :: "max7219_state \<Rightarrow> srd_decoder_inst option \<Rightarrow> max7219_state \<times> srd_decoder_inst option" where
  "max7219_start s di =
     (let (ann, di') = c_decoder_register_output SRD_OUTPUT_ANN (Some ''max7219'') di
      in (s\<lparr>max_out := ann, max_pos := 0, cs_start := 0\<rparr>, di'))"

end
