(* ===== verification/Spi_Decoder.thy ===== *)
theory Spi_Decoder
  imports Decoder_Run Bit_Rate
begin

text \<open>
  The SPI decoder (\<open>libsigrokdecode/c_decoders/spi_c.c\<close>). The two data lines have the same
  fields in the C structure, once for MISO and once for MOSI; here they are two values of the
  record \<open>spi_line\<close>. As for I2C, the endless loop is cut at its waits.
\<close>

section \<open>State\<close>

datatype spi_ann =
    ANN_MISO_DATA | ANN_MOSI_DATA | ANN_MISO_BIT | ANN_MOSI_BIT | ANN_WARNING
  | ANN_MISO_TRANSFER | ANN_MOSI_TRANSFER
  | ANN_ATK_DATA_POINT | ANN_ATK_RISING_EDGE | ANN_ATK_FALLING_EDGE

primrec spi_class :: "spi_ann \<Rightarrow> int" where
  "spi_class ANN_MISO_DATA = 0"
| "spi_class ANN_MOSI_DATA = 1"
| "spi_class ANN_MISO_BIT = 2"
| "spi_class ANN_MOSI_BIT = 3"
| "spi_class ANN_WARNING = 4"
| "spi_class ANN_MISO_TRANSFER = 5"
| "spi_class ANN_MOSI_TRANSFER = 6"
| "spi_class ANN_ATK_DATA_POINT = 7"
| "spi_class ANN_ATK_RISING_EDGE = 8"
| "spi_class ANN_ATK_FALLING_EDGE = 9"

abbreviation (input) MAX_TRANSFER_BYTES :: nat where "MAX_TRANSFER_BYTES \<equiv> 256"

text \<open>
  The word being received, the bits of it with their ranges in arrays of 64, and the words of
  the transfer.
\<close>

record spi_line =
  line_data :: u64
  bits_ss :: "u64 list"
  bits_es :: "u64 list"
  bits_val :: "u8 list"
  line_words :: "u64 list"

record spi_s =
  spi_bitcount :: nat
  miso :: spi_line
  mosi :: spi_line
  spi_ss_block :: u64
  ss_transfer :: u64
  cs_was_deasserted :: bool
  cpol :: int
  cpha :: int
  lsb_first :: bool
  cs_active_high :: bool
  have_cs :: bool
  have_miso :: bool
  have_mosi :: bool
  sample_edge_rise :: bool
  wordsize :: nat
  bw :: nat
  spi_format :: nat
  spi_show_data_point :: bool
  spi_samplerate :: u64
  spi_out_ann :: int
  spi_out_python :: int
  spi_out_binary :: int
  spi_out_bitrate :: int

abbreviation (input) spi_put :: "u64 \<Rightarrow> u64 \<Rightarrow> spi_s \<Rightarrow> spi_ann \<Rightarrow> string list \<Rightarrow> out_call" where
  "spi_put start_s end_s s cls txts \<equiv> c_put start_s end_s (spi_out_ann s) (spi_class cls) txts"

section \<open>Texts\<close>

definition upper_hex :: "char \<Rightarrow> char" where
  "upper_hex c = (if 97 \<le> (of_char c :: nat) then char_of ((of_char c :: nat) - 32) else c)"

text \<open>\<open>%02llx\<close>, \<open>%02llX\<close>, \<open>%03llo\<close> and the binary digits, at least eight.\<close>

definition fmt_02llx :: "u64 \<Rightarrow> string" where
  "fmt_02llx v = pad_left CHR ''0'' 2 (digits 16 (unat v))"

definition fmt_02llX :: "u64 \<Rightarrow> string" where
  "fmt_02llX v = pad_left CHR ''0'' 2 (map upper_hex (digits 16 (unat v)))"

definition fmt_03llo :: "u64 \<Rightarrow> string" where
  "fmt_03llo v = pad_left CHR ''0'' 3 (digits 8 (unat v))"

definition fmt_bits :: "u64 \<Rightarrow> nat \<Rightarrow> string" where
  "fmt_bits v ws = (let width = (if 8 < ws then ws else 8) in
     map (\<lambda>i. if bit v (width - 1 - i) then CHR ''1'' else CHR ''0'') [0..<width])"

definition spi_format_value :: "u64 \<Rightarrow> nat \<Rightarrow> nat \<Rightarrow> nat \<Rightarrow> string" where
  "spi_format_value val ws fmt out_size = snprintf_buf out_size
     (if fmt = 0 then fmt_02llx val
      else if fmt = 1 then dec_string (unat val)
      else if fmt = 2 then fmt_03llo val
      else if fmt = 3 then fmt_bits val ws
      else if 32 \<le> val \<and> val \<le> 126 then [char_of (unat val)] else fmt_02llX val)"

text \<open>
  The words of a transfer: \<open>out\<close> is all that was printed so far, which may be longer than the
  buffer after the last word; the loop stops when the buffer is nearly full.
\<close>

fun format_words :: "nat \<Rightarrow> nat \<Rightarrow> nat \<Rightarrow> nat \<Rightarrow> u64 list \<Rightarrow> string \<Rightarrow> string" where
  "format_words fmt ws out_size i [] out = out"
| "format_words fmt ws out_size i (v # vs) out =
     (if length out + 16 < out_size then
        format_words fmt ws out_size (Suc i) vs (out
          @ (if 0 < i \<and> fmt \<noteq> 4 then '' '' else [])
          @ (if fmt = 0 then fmt_02llX v
             else if fmt = 1 then dec_string (unat v)
             else if fmt = 2 then fmt_03llo v
             else if fmt = 3 then fmt_bits v ws
             else if 32 \<le> v \<and> v \<le> 126 then [char_of (unat v)]
             else [CHR 0x5C, CHR ''x''] @ fmt_02llX v))
      else out)"

definition spi_format_transfer :: "u64 list \<Rightarrow> nat \<Rightarrow> nat \<Rightarrow> nat \<Rightarrow> string" where
  "spi_format_transfer vals fmt ws out_size = snprintf_buf out_size (format_words fmt ws out_size 0 vals [])"

section \<open>Words\<close>

definition spi_cs_asserted :: "spi_s \<Rightarrow> u8 \<Rightarrow> bool" where
  "spi_cs_asserted s cs = (if \<not> cs_active_high s then cs = 0 else cs = 1)"

definition spi_reset_word :: "spi_s \<Rightarrow> spi_s" where
  "spi_reset_word s = s\<lparr>spi_bitcount := 0, mosi := (mosi s)\<lparr>line_data := 0\<rparr>, miso := (miso s)\<lparr>line_data := 0\<rparr>\<rparr>"

definition line_mask :: "spi_s \<Rightarrow> u8" where
  "line_mask s = (if have_mosi s then 1 else 0) OR (if have_miso s then 2 else 0)"

text \<open>The most significant of \<open>n\<close> bytes first.\<close>

definition be_bytes :: "nat \<Rightarrow> u64 \<Rightarrow> u8 list" where
  "be_bytes n v = map (\<lambda>i. ucast (drop_bit (8 * (n - 1 - i)) v)) [0..<n]"

fun put_line_bits :: "spi_line \<Rightarrow> nat \<Rightarrow> nat \<Rightarrow> u8 list \<Rightarrow> u8 list" where
  "put_line_bits l 0 i out = out"
| "put_line_bits l (Suc n) i out =
     (if length out + 17 \<le> 2200
      then put_line_bits l n (Suc i)
        (out @ (bits_val l ! i) # le_bytes (bits_ss l ! i) @ le_bytes (bits_es l ! i))
      else out)"

definition spi_bits_data :: "spi_s \<Rightarrow> u8 list" where
  "spi_bits_data s =
     (let mosi_cnt = (if have_mosi s then wordsize s else 0);
          miso_cnt = (if have_miso s then wordsize s else 0);
          d = put_line_bits (mosi s) mosi_cnt 0 [line_mask s, of_nat mosi_cnt]
      in put_line_bits (miso s) miso_cnt 0 (d @ [0x00, of_nat miso_cnt]))"

definition word_data :: "spi_s \<Rightarrow> u8 list" where
  "word_data s = line_mask s # le_bytes (if have_mosi s then line_data (mosi s) else 0)
     @ le_bytes (if have_miso s then line_data (miso s) else 0)"

definition add_word :: "spi_line \<Rightarrow> spi_line" where
  "add_word l = (if length (line_words l) < MAX_TRANSFER_BYTES
     then l\<lparr>line_words := line_words l @ [line_data l]\<rparr> else l)"

definition line_range :: "spi_s \<Rightarrow> spi_line \<Rightarrow> u64 \<times> u64" where
  "line_range s l = (bits_ss l ! 0, bits_es l ! (wordsize s - 1))"

definition bit_puts :: "spi_s \<Rightarrow> spi_line \<Rightarrow> spi_ann \<Rightarrow> out_call list" where
  "bit_puts s l cls = map (\<lambda>i. spi_put (bits_ss l ! i) (bits_es l ! i) s cls
     [snprintf_buf 16 (dec_string (unat (bits_val l ! i)))]) [0..<wordsize s]"

definition spi_put_data :: "spi_s \<Rightarrow> out_call list \<times> spi_s" where
  "spi_put_data s =
     (let (ss1, es1) = (if have_miso s then line_range s (miso s) else (spi_ss_block s, 0));
          (ss, es) = (if have_mosi s then line_range s (mosi s) else (ss1, es1));
          s' = s\<lparr>miso := if have_miso s then add_word (miso s) else miso s,
                 mosi := if have_mosi s then add_word (mosi s) else mosi s\<rparr>
      in ((if have_miso s then [CPutBin ss1 es1 (spi_out_binary s) 0 (of_nat (bw s)) (be_bytes (bw s) (line_data (miso s)))] else [])
          @ (if have_mosi s then [CPutBin ss es (spi_out_binary s) 1 (of_nat (bw s)) (be_bytes (bw s) (line_data (mosi s)))] else [])
          @ [CProto ss es (spi_out_python s) ''BITS'' [C_BYTES (spi_bits_data s)],
             CProto ss es (spi_out_python s) ''DATA'' [C_BYTES (word_data s)]]
          @ (if have_miso s then bit_puts s (miso s) ANN_MISO_BIT else [])
          @ (if have_mosi s then bit_puts s (mosi s) ANN_MOSI_BIT else [])
          @ (if have_miso s then [spi_put ss es s ANN_MISO_DATA
               [spi_format_value (line_data (miso s)) (wordsize s) (spi_format s) 128]] else [])
          @ (if have_mosi s then [spi_put ss es s ANN_MOSI_DATA
               [spi_format_value (line_data (mosi s)) (wordsize s) (spi_format s) 128]] else []), s'))"

section \<open>Transfers\<close>

text \<open>The low bytes of the words, after the presence of the lines and two 16-bit counts.\<close>

definition transfer_data :: "spi_s \<Rightarrow> u8 list" where
  "transfer_data s =
     (let mosi_words = (if have_mosi s then line_words (mosi s) else []);
          miso_words = (if have_miso s then line_words (miso s) else [])
      in [line_mask s, of_nat (length mosi_words), of_nat (length mosi_words div 256),
          of_nat (length miso_words), of_nat (length miso_words div 256)]
         @ map ucast mosi_words @ map ucast miso_words)"

definition spi_put_transfer :: "spi_s \<Rightarrow> u64 \<Rightarrow> out_call list" where
  "spi_put_transfer s n =
     (if have_miso s then [spi_put (ss_transfer s) n s ANN_MISO_TRANSFER
        [spi_format_transfer (line_words (miso s)) (spi_format s) (wordsize s) 4096]] else [])
     @ (if have_mosi s then [spi_put (ss_transfer s) n s ANN_MOSI_TRANSFER
          [spi_format_transfer (line_words (mosi s)) (spi_format s) (wordsize s) 4096]] else [])
     @ [CProto (ss_transfer s) n (spi_out_python s) ''TRANSFER'' [C_BYTES (transfer_data s)]]"

definition begin_transfer :: "u64 \<Rightarrow> spi_s \<Rightarrow> spi_s" where
  "begin_transfer n s = s\<lparr>ss_transfer := n, miso := (miso s)\<lparr>line_words := []\<rparr>, mosi := (mosi s)\<lparr>line_words := []\<rparr>\<rparr>"

text \<open>CHIP SELECT has changed to \<open>cs\<close>.\<close>

definition spi_cs_change :: "u64 \<Rightarrow> u8 \<Rightarrow> spi_s \<Rightarrow> out_call list \<times> spi_s" where
  "spi_cs_change n cs s =
     (let call = CProto n n (spi_out_python s) ''CS-CHANGE'' [C_I8 (1 - cs), C_I8 cs]
      in if spi_cs_asserted s cs then ([call], spi_reset_word (begin_transfer n s))
         else if ss_transfer s \<noteq> - 1 then (call # spi_put_transfer s n, spi_reset_word s)
         else ([call], spi_reset_word s))"

section \<open>Bits\<close>

text \<open>The end of the bit before, and the bit itself, on one line.\<close>

definition end_bit :: "spi_s \<Rightarrow> u64 \<Rightarrow> spi_line \<Rightarrow> fault + spi_line" where
  "end_bit s n l =
     (if 0 < spi_bitcount s \<and> spi_bitcount s \<le> wordsize s
      then ebind (wr (bits_es l) (spi_bitcount s - 1) n) (\<lambda>es. Inr (l\<lparr>bits_es := es\<rparr>))
      else Inr l)"

definition receive_bit :: "spi_s \<Rightarrow> u64 \<Rightarrow> u8 \<Rightarrow> spi_line \<Rightarrow> fault + spi_line" where
  "receive_bit s n v l =
     (let shift = (if lsb_first s then int (spi_bitcount s) else int (wordsize s) - 1 - int (spi_bitcount s))
      in if shift < 0 \<or> 64 \<le> shift then Inl BadShift
         else let l1 = l\<lparr>line_data := line_data l OR push_bit (nat shift) (ucast v)\<rparr>
         in if spi_bitcount s < wordsize s then
              ebind (wr (bits_ss l1) (spi_bitcount s) n) (\<lambda>ss.
              ebind (wr (bits_es l1) (spi_bitcount s) n) (\<lambda>es.
              ebind (wr (bits_val l1) (spi_bitcount s) v) (\<lambda>vals.
              Inr (l1\<lparr>bits_ss := ss, bits_es := es, bits_val := vals\<rparr>))))
            else Inr l1)"

definition line_step :: "bool \<Rightarrow> (spi_line \<Rightarrow> fault + spi_line) \<Rightarrow> spi_line \<Rightarrow> fault + spi_line" where
  "line_step present f l = (if present then f l else Inr l)"

text \<open>A complete word: the data, the bit rate, the warning, and a fresh word.\<close>

definition spi_word_done :: "u64 \<Rightarrow> spi_s \<Rightarrow> fault + out_call list \<times> spi_s" where
  "spi_word_done n s =
     (let (outs, s1) = spi_put_data s
      in ebind (if spi_samplerate s1 \<noteq> 0 then
                  ebind (bit_rate (spi_samplerate s1) (n - spi_ss_block s1 + 1) (wordsize s1)) (\<lambda>bitrate.
                  Inr [CPutMetaInt (spi_ss_block s1) n (spi_out_bitrate s1) bitrate])
                else Inr []) (\<lambda>meta.
         Inr (outs @ meta @ (if have_cs s1 \<and> cs_was_deasserted s1 then
                [spi_put (spi_ss_block s1) n s1 ANN_WARNING [''CS# was deasserted during this data word!'']] else []),
              spi_reset_word s1)))"

definition spi_handle_bit :: "u64 \<Rightarrow> u8 \<Rightarrow> u8 \<Rightarrow> u8 \<Rightarrow> spi_s \<Rightarrow> fault + out_call list \<times> spi_s" where
  "spi_handle_bit n miso_v mosi_v cs s0 =
     (let s = (if spi_bitcount s0 = 0 then s0\<lparr>spi_ss_block := n,
                 cs_was_deasserted := (if have_cs s0 then \<not> spi_cs_asserted s0 cs else False)\<rparr> else s0)
      in ebind (line_step (have_miso s) (end_bit s n) (miso s)) (\<lambda>mi1.
         ebind (line_step (have_mosi s) (end_bit s n) (mosi s)) (\<lambda>mo1.
         ebind (line_step (have_miso s) (receive_bit s n miso_v) mi1) (\<lambda>mi2.
         ebind (line_step (have_mosi s) (receive_bit s n mosi_v) mo1) (\<lambda>mo2.
         let s1 = s\<lparr>miso := mi2, mosi := mo2, spi_bitcount := Suc (spi_bitcount s)\<rparr>
         in if spi_bitcount s1 \<noteq> wordsize s1 then Inr ([], s1) else spi_word_done n s1)))))"

text \<open>Whether the clock edge to level \<open>clk\<close> samples the lines, and if so whether it rises.\<close>

definition correct_edge :: "spi_s \<Rightarrow> u8 \<Rightarrow> bool option" where
  "correct_edge s clk =
     (if (cpol s = 0 \<and> cpha s = 0 \<and> clk = 1) \<or> (cpol s = 1 \<and> cpha s = 1 \<and> clk = 1) then Some True
      else if (cpol s = 0 \<and> cpha s = 1 \<and> clk = 0) \<or> (cpol s = 1 \<and> cpha s = 0 \<and> clk = 0) then Some False
      else None)"

definition data_points :: "spi_s \<Rightarrow> u64 \<Rightarrow> bool \<Rightarrow> out_call list" where
  "data_points s n rising =
     (if spi_show_data_point s then
        [spi_put n n s (if rising then ANN_ATK_RISING_EDGE else ANN_ATK_FALLING_EDGE) [''0''],
         spi_put n n s ANN_ATK_DATA_POINT [''1''], spi_put n n s ANN_ATK_DATA_POINT [''2'']]
      else [])"

section \<open>The decoder\<close>

abbreviation (input) CH_CLK :: nat where "CH_CLK \<equiv> 0"
abbreviation (input) CH_MISO :: nat where "CH_MISO \<equiv> 1"
abbreviation (input) CH_MOSI :: nat where "CH_MOSI \<equiv> 2"
abbreviation (input) CH_CS :: nat where "CH_CS \<equiv> 3"

definition spi_wait_args :: "bool \<Rightarrow> c_arg list" where
  "spi_wait_args cs = (if cs then [ArgInt (CW_ENC 4 0), ArgInt CW_OR, ArgInt (CW_ENC 4 3), ArgInt CW_END]
     else [ArgInt (CW_ENC 4 0), ArgInt CW_END])"

text \<open>What the loop does after a wait; \<open>p\<close> reads a pin.\<close>

definition spi_resume :: "u64 \<Rightarrow> u64 \<Rightarrow> (nat \<Rightarrow> fault + u8) \<Rightarrow> spi_s \<Rightarrow> fault + out_call list \<times> spi_s" where
  "spi_resume n matched p s =
     ebind (p CH_CLK) (\<lambda>clk.
     ebind (if have_miso s then p CH_MISO else Inr 0) (\<lambda>mi.
     ebind (if have_mosi s then p CH_MOSI else Inr 0) (\<lambda>mo.
     ebind (if have_cs s then p CH_CS else Inr 1) (\<lambda>cs.
     let (outs, s1) = (if have_cs s \<and> bit matched 1 then spi_cs_change n cs s else ([], s))
     in if (have_cs s1 \<and> \<not> spi_cs_asserted s1 cs) \<or> \<not> bit matched 0 then Inr (outs, s1)
        else case correct_edge s1 clk of
          None \<Rightarrow> Inr (outs, s1)
        | Some rising \<Rightarrow>
            ebind (spi_handle_bit n mi mo cs s1) (\<lambda>(outs', s2).
            Inr (outs @ data_points s1 n rising @ outs', s2))))))"

fun spi_loop :: "nat \<Rightarrow> srd_decoder_inst \<Rightarrow> spi_s \<Rightarrow>
    fault + loop_end \<times> out_call list \<times> srd_decoder_inst option \<times> spi_s" where
  "spi_loop 0 di s = Inr (OutOfFuel, [], Some di, s)"
| "spi_loop (Suc fuel) di s =
     ebind (c_wait (spi_wait_args (have_cs s)) (Some di)) (\<lambda>(st, di').
     case st of
       WaitAgain \<Rightarrow> Inr (Sleeping, [], di', s)
     | WaitDone ret res \<Rightarrow>
         if ret \<noteq> SRD_OK then Inr (Returned ret, [], di', s)
         else (case di' of
           None \<Rightarrow> Inl NullDeref
         | Some d \<Rightarrow>
             ebind (spi_resume (abs_cur_samplenum d) (match_array d) (\<lambda>ch. c_pin (int ch) (Some d)) s) (\<lambda>(outs, s').
             ebind (spi_loop fuel d s') (\<lambda>(e, outs', d', s'').
             Inr (e, outs @ outs', d', s'')))))"

text \<open>
  Before the loop: the colours, one wait, and the first state of CHIP SELECT. Without the line the
  first wait is for a clock edge, which is not looked at any further.
\<close>

definition spi_prologue :: "spi_s \<Rightarrow> out_call list" where
  "spi_prologue s = [spi_put 0 0 s ANN_ATK_DATA_POINT [''color:#F32FDC''],
     spi_put 0 0 s ANN_ATK_RISING_EDGE [''color:#F32FDC''], spi_put 0 0 s ANN_ATK_FALLING_EDGE [''color:#F32FDC'']]
     @ (if have_cs s then [] else [CProto 0 0 (spi_out_python s) ''CS-CHANGE'' [C_I8 (- 1), C_I8 (- 1)]])"

definition spi_first_cs :: "u64 \<Rightarrow> u8 \<Rightarrow> spi_s \<Rightarrow> out_call list \<times> spi_s" where
  "spi_first_cs n cs s =
     ([CProto n n (spi_out_python s) ''CS-CHANGE'' [C_I8 (- 1), C_I8 cs]],
      spi_reset_word (if spi_cs_asserted s cs then begin_transfer n s else s))"

definition spi_decode :: "nat \<Rightarrow> srd_decoder_inst \<Rightarrow> spi_s \<Rightarrow>
    fault + loop_end \<times> out_call list \<times> srd_decoder_inst option \<times> spi_s" where
  "spi_decode fuel di s =
     ebind (c_wait (if have_cs s then [ArgInt CW_END] else [ArgInt (CW_ENC 4 0), ArgInt CW_END]) (Some di)) (\<lambda>(st, di').
     case st of
       WaitAgain \<Rightarrow> Inr (Sleeping, spi_prologue s, di', s)
     | WaitDone ret res \<Rightarrow>
         if ret \<noteq> SRD_OK then Inr (Returned ret, spi_prologue s, di', s)
         else (case di' of
           None \<Rightarrow> Inl NullDeref
         | Some d \<Rightarrow>
             ebind (if have_cs s then ebind (c_pin 3 (Some d)) (\<lambda>cs. Inr (spi_first_cs (abs_cur_samplenum d) cs s))
                    else Inr ([], s)) (\<lambda>(outs, s1).
             ebind (spi_loop fuel d s1) (\<lambda>(e, outs', d', s2).
             Inr (e, spi_prologue s @ outs @ outs', d', s2)))))"

section \<open>Reset, start, metadata\<close>

definition zero_line :: spi_line where
  "zero_line = \<lparr>line_data = 0, bits_ss = replicate 64 0, bits_es = replicate 64 0, bits_val = replicate 64 0,
     line_words = []\<rparr>"

definition spi_reset :: spi_s where
  "spi_reset = \<lparr>spi_bitcount = 0, miso = zero_line, mosi = zero_line, spi_ss_block = 0, ss_transfer = 0,
     cs_was_deasserted = False, cpol = 0, cpha = 0, lsb_first = False, cs_active_high = False,
     have_cs = False, have_miso = False, have_mosi = False, sample_edge_rise = False, wordsize = 0, bw = 0,
     spi_format = 0, spi_show_data_point = False, spi_samplerate = 0, spi_out_ann = 0, spi_out_python = 0,
     spi_out_binary = 0, spi_out_bitrate = 0\<rparr>"

text \<open>The cast from \<open>int64_t\<close> to \<open>int\<close> keeps the low 32 bits.\<close>

definition to_int :: "u64 \<Rightarrow> int" where
  "to_int v = sint (ucast v :: u32)"

definition spi_format_of :: "string option \<Rightarrow> nat" where
  "spi_format_of fmt =
     (if fmt = Some ''hex'' then 0 else if fmt = Some ''dec'' then 1 else if fmt = Some ''oct'' then 2
      else if fmt = Some ''bin'' then 3 else if fmt = Some ''ascii'' then 4 else 0)"

definition spi_mode :: "int \<Rightarrow> int \<Rightarrow> nat" where
  "spi_mode pol pha =
     (if pol = 0 \<and> pha = 0 then 0 else if pol = 0 \<and> pha = 1 then 1 else if pol = 1 \<and> pha = 0 then 2 else 3)"

definition spi_start :: "spi_s \<Rightarrow> srd_decoder_inst option \<Rightarrow> fault + spi_s \<times> srd_decoder_inst option" where
  "spi_start s di0 =
     (let (ann, di1) = c_decoder_register_output SRD_OUTPUT_ANN (Some ''spi'') di0;
          (pro, di2) = c_decoder_register_output SRD_OUTPUT_PROTO (Some ''spi'') di1;
          (bin, di3) = c_decoder_register_output SRD_OUTPUT_BINARY (Some ''spi'') di2;
          (rate, di) = c_decoder_register_output SRD_OUTPUT_META (Some ''spi'') di3
      in ebind (c_decoder_get_option_int (Some ''cpol'') 0 di) (\<lambda>pol.
         ebind (c_decoder_get_option_int (Some ''cpha'') 0 di) (\<lambda>pha.
         ebind (c_decoder_get_option_int (Some ''wordsize'') 8 di) (\<lambda>size.
         ebind (c_decoder_has_channel (int CH_MISO) di) (\<lambda>mi.
         ebind (c_decoder_has_channel (int CH_MOSI) di) (\<lambda>mo.
         ebind (c_decoder_has_channel (int CH_CS) di) (\<lambda>cs.
         let ws = (if to_int size < 1 \<or> 64 < to_int size then 8 else nat (to_int size));
             mode = spi_mode (to_int pol) (to_int pha)
         in Inr (s\<lparr>spi_out_ann := ann, spi_out_python := pro, spi_out_binary := bin, spi_out_bitrate := rate,
              cs_active_high := (c_decoder_get_option_string (Some ''cs_polarity'') (Some ''active-low'') di
                \<noteq> Some ''active-low''),
              cpol := to_int pol, cpha := to_int pha,
              lsb_first := (c_decoder_get_option_string (Some ''bitorder'') (Some ''msb-first'') di
                \<noteq> Some ''msb-first''),
              wordsize := ws, bw := (ws + 7) div 8,
              spi_format := spi_format_of (c_decoder_get_option_string (Some ''format'') (Some ''hex'') di),
              spi_show_data_point := (c_opt_bool (Some ''show_data_point'') 1 di \<noteq> 0),
              have_miso := mi, have_mosi := mo, have_cs := cs,
              sample_edge_rise := (mode = 0 \<or> mode = 3), ss_transfer := - 1,
              spi_samplerate := c_decoder_get_samplerate di\<rparr>, di))))))))"

definition spi_metadata :: "int \<Rightarrow> u64 \<Rightarrow> spi_s \<Rightarrow> spi_s" where
  "spi_metadata key value s = (if key = 10000 then s\<lparr>spi_samplerate := value\<rparr> else s)"

end
