(* ===== verification/Spi_Props.thy ===== *)
theory Spi_Props
  imports Spi_Decoder Decoder_Stack Demo_Chunk
begin

text \<open>
  The SPI decoder on the matching engine against a reference: a short walk over the levels of the
  four wires that collects the bits at the sampling edges. The messages are the same, for every
  waveform, mode, bit order and word size.
\<close>

section \<open>The reference\<close>

text \<open>The levels of CLK, MISO, MOSI and CS at a sample.\<close>

record wires =
  w_clk :: bool
  w_miso :: bool
  w_mosi :: bool
  w_cs :: bool

record spi_config =
  sample_high :: bool
  lsb_order :: bool
  word_bits :: nat
  cs_high :: bool

definition selected :: "spi_config \<Rightarrow> wires \<Rightarrow> bool" where
  "selected cf w \<longleftrightarrow> w_cs w = cs_high cf"

definition word_of_bits :: "spi_config \<Rightarrow> bool list \<Rightarrow> u64" where
  "word_of_bits cf bs = horner_sum of_bool 2 (if lsb_order cf then bs else rev bs)"

text \<open>
  What the reference keeps: whether a transfer has begun, the MISO and MOSI bits of the word so
  far, and the words of the transfer, of which the first 256 are kept.
\<close>

record spi_ref =
  begun :: bool
  bits_in :: "(bool \<times> bool) list"
  words_in :: "(u64 \<times> u64) list"

definition cs_message :: "bool \<Rightarrow> message" where
  "cs_message level = (''CS-CHANGE'', [C_I8 (of_bool (\<not> level)), C_I8 (of_bool level)])"

definition word_message :: "u64 \<times> u64 \<Rightarrow> message" where
  "word_message w = (''DATA'', [C_BYTES (3 # le_bytes (snd w) @ le_bytes (fst w))])"

definition transfer_message :: "(u64 \<times> u64) list \<Rightarrow> message" where
  "transfer_message ws = (''TRANSFER'', [C_BYTES ([3, of_nat (length ws), of_nat (length ws div 256),
     of_nat (length ws), of_nat (length ws div 256)] @ map (ucast \<circ> snd) ws @ map (ucast \<circ> fst) ws)])"

definition ref_select :: "spi_config \<Rightarrow> wires \<Rightarrow> spi_ref \<Rightarrow> message list \<times> spi_ref" where
  "ref_select cf w r =
     (if selected cf w then ([cs_message (w_cs w)], \<lparr>begun = True, bits_in = [], words_in = []\<rparr>)
      else (cs_message (w_cs w) # (if begun r then [transfer_message (words_in r)] else []), r\<lparr>bits_in := []\<rparr>))"

definition ref_bit :: "spi_config \<Rightarrow> wires \<Rightarrow> spi_ref \<Rightarrow> message list \<times> spi_ref" where
  "ref_bit cf w r =
     (let bs = bits_in r @ [(w_miso w, w_mosi w)] in
      if length bs = word_bits cf then
        let word = (word_of_bits cf (map fst bs), word_of_bits cf (map snd bs))
        in ([word_message word], r\<lparr>bits_in := [], words_in := take 256 (words_in r @ [word])\<rparr>)
      else ([], r\<lparr>bits_in := bs\<rparr>))"

definition ref_step :: "spi_config \<Rightarrow> wires \<Rightarrow> wires \<Rightarrow> spi_ref \<Rightarrow> message list \<times> spi_ref" where
  "ref_step cf old w r =
     (let (ms, r1) = (if w_cs w \<noteq> w_cs old then ref_select cf w r else ([], r));
          (ms', r2) = (if selected cf w \<and> w_clk w \<noteq> w_clk old \<and> w_clk w = sample_high cf then ref_bit cf w r1
                       else ([], r1))
      in (ms @ ms', r2))"

fun ref_run :: "spi_config \<Rightarrow> wires \<Rightarrow> wires list \<Rightarrow> spi_ref \<Rightarrow> message list \<times> spi_ref" where
  "ref_run cf old [] r = ([], r)"
| "ref_run cf old (w # ws) r =
     (let (ms, r1) = ref_step cf old w r; (ms', r2) = ref_run cf w ws r1 in (ms @ ms', r2))"

section \<open>The contract of the engine\<close>

definition edge :: "int \<Rightarrow> srd_term" where
  "edge ch = \<lparr>term_type = SRD_TERM_EITHER_EDGE, channel = ch, num_samples_to_skip = 0, num_samples_already_skipped = 0\<rparr>"

definition spi_conds :: "bool \<Rightarrow> srd_term list list" where
  "spi_conds cs = (if cs then [[edge 0], [edge 3]] else [[edge 0]])"

lemma spi_wait_conds: "parse_wait_args (spi_wait_args cs) [] [] = Inr (spi_conds cs)"
  by (cases cs) (simp_all add: spi_wait_args_def spi_conds_def CW_ENC_def term_type_of_def edge_def flush_and_def Let_def)

interpretation spi: c_decoder "\<lambda>s. spi_conds (have_cs s)" spi_resume 4 spi_loop
proof unfold_locales
  fix s :: spi_s
  show "spi_conds (have_cs s) \<noteq> []" "length (spi_conds (have_cs s)) \<le> 31" by (simp_all add: spi_conds_def)
next
  fix c and s :: spi_s
  assume "c \<in> set (spi_conds (have_cs s))"
  then show "c \<noteq> [] \<and> (\<forall>t\<in>set c. signal_term t \<and> nat (channel t) < 4)"
    by (auto simp: spi_conds_def edge_def signal_term_def split: if_splits)
next
  fix p q :: "nat \<Rightarrow> fault + u8" and n m :: u64 and s :: spi_s
  assume "\<And>ch. ch < 4 \<Longrightarrow> p ch = q ch"
  then show "spi_resume n m p s = spi_resume n m q s" by (simp add: spi_resume_def)
next
  fix fuel s and di :: srd_decoder_inst
  assume "is_c_inst di"
  then show "spi_loop (Suc fuel) di s =
      ebind (c_decoder_wait_impl (spi_conds (have_cs s)) (Some di)) (\<lambda>(st, di').
      case st of
        WaitAgain \<Rightarrow> Inr (Sleeping, [], di', s)
      | WaitDone ret res \<Rightarrow>
          if ret \<noteq> SRD_OK then Inr (Returned ret, [], di', s)
          else (case di' of
            None \<Rightarrow> Inl NullDeref
          | Some d \<Rightarrow>
              ebind (spi_resume (abs_cur_samplenum d) (match_array d) (\<lambda>ch. c_pin (int ch) (Some d)) s)
                (\<lambda>(outs, s').
              ebind (spi_loop fuel d s') (\<lambda>(e, outs', d', s'').
              Inr (e, outs @ outs', d', s'')))))"
    by (simp add: c_wait_def c_decoder_wait_def spi_wait_conds)
qed


section \<open>The relation to the reference\<close>

text \<open>
  The bits of a word so far, in their places: the shift of a bit counts up or down from the
  first.
\<close>

definition part_word :: "spi_config \<Rightarrow> bool list \<Rightarrow> u64" where
  "part_word cf bs = horner_sum of_bool 2
     (if lsb_order cf then bs else replicate (word_bits cf - length bs) False @ rev bs)"

definition line_rel :: "spi_config \<Rightarrow> bool list \<Rightarrow> u64 list \<Rightarrow> spi_line \<Rightarrow> bool" where
  "line_rel cf bs ws l \<longleftrightarrow> line_data l = part_word cf bs \<and> line_words l = ws
     \<and> length (bits_ss l) = 64 \<and> length (bits_es l) = 64 \<and> length (bits_val l) = 64"

text \<open>The settings: all four lines connected, and a sample rate of at most 1 GHz.\<close>

definition spi_setting :: "spi_config \<Rightarrow> spi_s \<Rightarrow> bool" where
  "spi_setting cf s \<longleftrightarrow> have_cs s \<and> have_miso s \<and> have_mosi s
     \<and> wordsize s = word_bits cf \<and> 1 \<le> wordsize s \<and> wordsize s \<le> 64
     \<and> cpol s \<in> {0, 1} \<and> cpha s \<in> {0, 1} \<and> sample_high cf = (cpol s = cpha s)
     \<and> cs_active_high s = cs_high cf \<and> lsb_first s = lsb_order cf \<and> unat (spi_samplerate s) \<le> 2 ^ 30"

text \<open>What is kept: \<open>n\<close> is the number of the next sample.\<close>

definition spi_kept :: "spi_config \<Rightarrow> nat \<Rightarrow> spi_ref \<Rightarrow> spi_s \<Rightarrow> bool" where
  "spi_kept cf n r s \<longleftrightarrow> spi_bitcount s = length (bits_in r) \<and> length (bits_in r) < word_bits cf
     \<and> line_rel cf (map fst (bits_in r)) (map fst (words_in r)) (miso s)
     \<and> line_rel cf (map snd (bits_in r)) (map snd (words_in r)) (mosi s)
     \<and> length (words_in r) \<le> 256 \<and> begun r = (ss_transfer s \<noteq> - 1)
     \<and> (bits_in r \<noteq> [] \<longrightarrow> unat (spi_ss_block s) + length (bits_in r) \<le> n \<and> \<not> cs_was_deasserted s)"

definition spi_rel :: "spi_config \<Rightarrow> nat \<Rightarrow> spi_ref \<Rightarrow> spi_s \<Rightarrow> bool" where
  "spi_rel cf n r s \<longleftrightarrow> spi_setting cf s \<and> spi_kept cf n r s"

lemma part_word_nil [simp]: "part_word cf [] = 0"
  by (rule bit_word_eqI) (simp add: part_word_def bit_horner_sum_bit_word_iff)

lemma part_word_full: "length bs = word_bits cf \<Longrightarrow> part_word cf bs = word_of_bits cf bs"
  by (simp add: part_word_def word_of_bits_def)

lemma part_word_snoc:
  assumes "length bs < word_bits cf" "word_bits cf \<le> 64"
  shows "part_word cf (bs @ [b]) = part_word cf bs
    OR push_bit (if lsb_order cf then length bs else word_bits cf - 1 - length bs) (ucast (of_bool b :: u8))"
proof -
  have rep: "replicate (word_bits cf - length bs) False =
      replicate (word_bits cf - 1 - length bs) False @ [False]"
  proof -
    have "word_bits cf - length bs = Suc (word_bits cf - 1 - length bs)" using assms(1) by simp
    then show ?thesis by (simp only: replicate_Suc replicate_append_same)
  qed
  show ?thesis
    by (rule bit_word_eqI)
      (use assms rep in \<open>auto simp: part_word_def bit_horner_sum_bit_word_iff bit_or_iff bit_push_bit_iff
        bit_1_iff nth_append nth_Cons' less_Suc_eq\<close>)
qed

section \<open>One bit\<close>

lemma end_bit_ok:
  assumes "line_rel cf bs ws l" "spi_bitcount s \<le> 64"
  shows "\<exists>l'. end_bit s n l = Inr l' \<and> line_rel cf bs ws l'"
  using assms by (auto simp: end_bit_def line_rel_def wr_def)

lemma receive_bit_ok:
  assumes "line_rel cf bs ws l" "spi_setting cf s" "spi_bitcount s = length bs" "length bs < word_bits cf"
  shows "\<exists>l'. receive_bit s n (of_bool b) l = Inr l' \<and> line_rel cf (bs @ [b]) ws l'"
proof -
  have set: "wordsize s = word_bits cf" "word_bits cf \<le> 64" "lsb_first s = lsb_order cf"
    using assms(2) by (simp_all add: spi_setting_def)
  define k where "k = (if lsb_order cf then length bs else word_bits cf - 1 - length bs)"
  have k: "(if lsb_first s then int (spi_bitcount s) else int (wordsize s) - 1 - int (spi_bitcount s)) = int k"
    "int k < 64"
    using assms(3,4) set by (auto simp: k_def of_nat_diff)
  have data: "part_word cf (bs @ [b]) = line_data l OR push_bit k (ucast (of_bool b :: u8))"
    using part_word_snoc [OF assms(4) set(2), of b] assms(1) by (simp add: k_def line_rel_def)
  show ?thesis
    unfolding receive_bit_def k(1)
    using assms(1,3,4) set k(2) data by (simp add: Let_def line_rel_def wr_def)
qed

lemma messages_bits [simp]: "messages (bit_puts s l cls) = []"
proof -
  have "messages (map (\<lambda>i. c_put (f i) (g i) out k (txts i)) xs) = []" for f g out k txts and xs :: "nat list"
    by (induction xs) simp_all
  then show ?thesis by (simp add: bit_puts_def)
qed

lemma messages_data_points [simp]: "messages (data_points s n rising) = []"
  by (simp add: data_points_def)

lemma line_mask_both: "have_mosi s \<Longrightarrow> have_miso s \<Longrightarrow> line_mask s = 3"
  by (simp add: line_mask_def)

lemma put_data_messages:
  assumes "have_miso s" "have_mosi s"
  shows "messages (fst (spi_put_data s)) = [word_message (line_data (miso s), line_data (mosi s))]"
    "snd (spi_put_data s) = s\<lparr>miso := add_word (miso s), mosi := add_word (mosi s)\<rparr>"
  using assms
  by (simp_all add: spi_put_data_def Let_def line_range_def word_data_def word_message_def line_mask_both)

lemma add_word_words:
  "length (line_words l) \<le> 256 \<Longrightarrow> line_words (add_word l) = take 256 (line_words l @ [line_data l])"
  by (simp add: add_word_def)

lemma add_word_rel:
  assumes "line_rel cf bs ws l" "length bs = word_bits cf" "length ws \<le> 256"
  shows "line_rel cf [] (take 256 (ws @ [word_of_bits cf bs])) ((add_word l)\<lparr>line_data := 0\<rparr>)"
  using assms part_word_full [OF assms(2)] add_word_words [of l]
  by (simp add: line_rel_def) (simp add: add_word_def)

lemma word_done_ok:
  assumes set: "spi_setting cf s" and fresh: "\<not> cs_was_deasserted s"
    and mi: "line_rel cf (map fst bs) (map fst ws) (miso s)" and mo: "line_rel cf (map snd bs) (map snd ws) (mosi s)"
    and len: "length bs = word_bits cf" "length ws \<le> 256" and r: "begun r = (ss_transfer s \<noteq> - 1)" "words_in r = ws"
    and block: "unat (spi_ss_block s) + length bs \<le> Suc n" and n: "Suc n < 2 ^ 64"
  defines "word \<equiv> (word_of_bits cf (map fst bs), word_of_bits cf (map snd bs))"
  shows "\<exists>outs s'. spi_word_done (word_of_nat n) s = Inr (outs, s') \<and> messages outs = [word_message word]
    \<and> spi_rel cf (Suc n) (r\<lparr>bits_in := [], words_in := take 256 (ws @ [word])\<rparr>) s'"
proof -
  have both: "have_miso s" "have_mosi s" and size: "wordsize s = word_bits cf" "1 \<le> word_bits cf"
    using set by (simp_all add: spi_setting_def)
  define len' where "len' = (word_of_nat n - spi_ss_block s + 1 :: u64)"
  have "unat (spi_ss_block s) \<le> n" using block len size(2) by simp
  then have ulen: "unat len' = n - unat (spi_ss_block s) + 1"
    using n unat_range_length [of "spi_ss_block s" n] by (simp add: len'_def)
  have rate: "\<exists>v. bit_rate (spi_samplerate s) len' (word_bits cf) = Inr v" if "spi_samplerate s \<noteq> 0"
  proof (rule bit_rate_fits)
    show "0 < unat (spi_samplerate s)" using that by (simp add: unat_gt_0)
    show "0 < unat len'" by (simp add: ulen)
    have "word_bits cf \<le> unat len'" using block len \<open>unat (spi_ss_block s) \<le> n\<close> by (simp add: ulen)
    then show "unat (spi_samplerate s) * word_bits cf \<le> 2 ^ 30 * unat len'"
      using set by (intro mult_mono) (simp_all add: spi_setting_def)
  qed
  let ?s1 = "s\<lparr>miso := add_word (miso s), mosi := add_word (mosi s)\<rparr>"
  obtain puts where puts: "spi_put_data s = (puts, ?s1)" "messages puts = [word_message word]"
    using put_data_messages [OF both] mi mo len
    by (cases "spi_put_data s") (simp add: line_rel_def word_def part_word_full)
  have rel: "spi_rel cf (Suc n) (r\<lparr>bits_in := [], words_in := take 256 (ws @ [word])\<rparr>) (spi_reset_word ?s1)"
    using set add_word_rel [OF mi] add_word_rel [OF mo] len r size
    by (simp add: spi_rel_def spi_setting_def spi_kept_def spi_reset_word_def word_def take_map [symmetric])
  show ?thesis
    using rate fresh puts rel size unfolding len'_def
    by (cases "spi_samplerate s = 0") (auto simp: spi_word_done_def)
qed

text \<open>The step of both lines, for a bit that is sampled.\<close>

lemma line_bit_ok:
  assumes "line_rel cf bs ws l" "spi_setting cf s" "spi_bitcount s = length bs" "length bs < word_bits cf"
  obtains l1 l2 where "end_bit s n l = Inr l1" "receive_bit s n (of_bool b) l1 = Inr l2"
    "line_rel cf (bs @ [b]) ws l2"
proof -
  have "spi_bitcount s \<le> 64" using assms(2-4) by (simp add: spi_setting_def)
  then obtain l1 where l1: "end_bit s n l = Inr l1" "line_rel cf bs ws l1"
    using end_bit_ok [OF assms(1)] by blast
  obtain l2 where "receive_bit s n (of_bool b) l1 = Inr l2" "line_rel cf (bs @ [b]) ws l2"
    using receive_bit_ok [OF l1(2) assms(2-4)] by blast
  with l1(1) show ?thesis by (rule that)
qed

lemma handle_bit_ok:
  assumes rel: "spi_rel cf n r s" and sel: "spi_cs_asserted s cs" and n: "Suc n < 2 ^ 64"
  shows "\<exists>outs s'. spi_handle_bit (word_of_nat n) (of_bool (w_miso w)) (of_bool (w_mosi w)) cs s = Inr (outs, s')
    \<and> messages outs = fst (ref_bit cf w r) \<and> spi_rel cf (Suc n) (snd (ref_bit cf w r)) s'"
proof -
  have kept: "spi_kept cf n r s" and set: "spi_setting cf s" using rel by (simp_all add: spi_rel_def)
  define s0 where "s0 = (if spi_bitcount s = 0 then s\<lparr>spi_ss_block := word_of_nat n, cs_was_deasserted := False\<rparr> else s)"
  define bs where "bs = bits_in r @ [(w_miso w, w_mosi w)]"
  have set0: "spi_setting cf s0" using set by (simp add: spi_setting_def s0_def)
  have count: "spi_bitcount s0 = length (bits_in r)" "length (bits_in r) < word_bits cf"
    using kept by (simp_all add: s0_def spi_kept_def)
  have block: "unat (spi_ss_block s0) + length bs \<le> Suc n" and fresh: "\<not> cs_was_deasserted s0"
    using kept n by (auto simp: bs_def s0_def spi_kept_def unat_of_nat take_bit_nat_eq_self split: if_splits)
  have lines: "line_rel cf (map fst (bits_in r)) (map fst (words_in r)) (miso s0)"
    "line_rel cf (map snd (bits_in r)) (map snd (words_in r)) (mosi s0)"
    using kept by (auto simp: s0_def spi_kept_def)
  obtain mi1 mi2 where mi: "end_bit s0 (word_of_nat n) (miso s0) = Inr mi1"
    "receive_bit s0 (word_of_nat n) (of_bool (w_miso w)) mi1 = Inr mi2"
    "line_rel cf (map fst bs) (map fst (words_in r)) mi2"
    by (rule line_bit_ok [OF lines(1) set0, of "word_of_nat n" "w_miso w"]) (use count that in \<open>auto simp: bs_def\<close>)
  obtain mo1 mo2 where mo: "end_bit s0 (word_of_nat n) (mosi s0) = Inr mo1"
    "receive_bit s0 (word_of_nat n) (of_bool (w_mosi w)) mo1 = Inr mo2"
    "line_rel cf (map snd bs) (map snd (words_in r)) mo2"
    by (rule line_bit_ok [OF lines(2) set0, of "word_of_nat n" "w_mosi w"]) (use count that in \<open>auto simp: bs_def\<close>)
  define s1 where "s1 = s0\<lparr>miso := mi2, mosi := mo2, spi_bitcount := length bs\<rparr>"
  have set1: "spi_setting cf s1" using set0 by (simp add: spi_setting_def s1_def)
  have step: "spi_handle_bit (word_of_nat n) (of_bool (w_miso w)) (of_bool (w_mosi w)) cs s =
      (if length bs \<noteq> word_bits cf then Inr ([], s1) else spi_word_done (word_of_nat n) s1)"
  proof -
    have first: "(if spi_bitcount s = 0 then s\<lparr>spi_ss_block := word_of_nat n,
        cs_was_deasserted := (if have_cs s then \<not> spi_cs_asserted s cs else False)\<rparr> else s) = s0"
      using sel set by (simp add: s0_def spi_setting_def)
    have "spi_bitcount s0 = length (bits_in r)" "wordsize s0 = word_bits cf" "have_miso s0" "have_mosi s0"
      using count set0 by (simp_all add: spi_setting_def)
    then show ?thesis
      using mi(1,2) mo(1,2) unfolding spi_handle_bit_def first Let_def by (simp add: line_step_def s1_def bs_def)
  qed
  have keep: "begun r = (ss_transfer s1 \<noteq> - 1)" "length (words_in r) \<le> 256"
    using kept by (simp_all add: s1_def s0_def spi_kept_def)
  show ?thesis
  proof (cases "length bs = word_bits cf")
    case True
    have "\<exists>outs s'. spi_word_done (word_of_nat n) s1 = Inr (outs, s')
      \<and> messages outs = [word_message (word_of_bits cf (map fst bs), word_of_bits cf (map snd bs))]
      \<and> spi_rel cf (Suc n) (r\<lparr>bits_in := [], words_in := take 256 (words_in r
          @ [(word_of_bits cf (map fst bs), word_of_bits cf (map snd bs))])\<rparr>) s'"
      by (rule word_done_ok [OF set1]) (use fresh mi(3) mo(3) True keep block n in \<open>simp_all add: s1_def\<close>)
    then show ?thesis using step True by (simp add: ref_bit_def Let_def flip: bs_def)
  next
    case False
    have "spi_rel cf (Suc n) (r\<lparr>bits_in := bs\<rparr>) s1"
      using set1 False mi(3) mo(3) keep block fresh count
      by (simp add: spi_rel_def spi_kept_def s1_def bs_def)
    then show ?thesis using step False by (simp add: ref_bit_def Let_def flip: bs_def)
  qed
qed

section \<open>One sample\<close>

fun wire_pins :: "wires \<Rightarrow> nat \<Rightarrow> u8" where
  "wire_pins w ch = (if ch = 0 then of_bool (w_clk w) else if ch = 1 then of_bool (w_miso w)
     else if ch = 2 then of_bool (w_mosi w) else of_bool (w_cs w))"

lemma matched_wires:
  defines "m old w \<equiv> matched_bits (spi_conds True) (wire_pins old) (wire_pins w)"
  shows "bit (m old w) 0 \<longleftrightarrow> w_clk w \<noteq> w_clk old" "bit (m old w) 1 \<longleftrightarrow> w_cs w \<noteq> w_cs old"
    "m old w = 0 \<longleftrightarrow> w_clk w = w_clk old \<and> w_cs w = w_cs old"
  by (auto simp: m_def bit_matched_bits matched_bits_zero spi_conds_def cond_holds_def edge_def term_holds_def
    sample_matches_def)

lemma asserted_selected: "spi_setting cf s \<Longrightarrow> spi_cs_asserted s (of_bool (w_cs w)) = selected cf w"
  by (auto simp: spi_setting_def spi_cs_asserted_def selected_def)

lemma sample_not_minus_one: "Suc n < 2 ^ 64 \<Longrightarrow> (word_of_nat n :: u64) \<noteq> - 1"
proof
  assume n: "Suc n < 2 ^ 64" and "(word_of_nat n :: u64) = - 1"
  then have "unat (word_of_nat (Suc n) :: u64) = 0" by simp
  then show False using n by (simp only: unat_of_nat) (simp add: take_bit_nat_eq_self)
qed

lemma cs_change_ok:
  assumes rel: "spi_rel cf n r s" and n: "Suc n < 2 ^ 64"
  shows "\<exists>outs s'. spi_cs_change (word_of_nat n) (of_bool (w_cs w)) s = (outs, s')
    \<and> messages outs = fst (ref_select cf w r) \<and> spi_rel cf n (snd (ref_select cf w r)) s'"
proof -
  have set: "spi_setting cf s" and kept: "spi_kept cf n r s" using rel by (simp_all add: spi_rel_def)
  have "(word_of_nat n :: u64) \<noteq> - 1" by (rule sample_not_minus_one [OF n])
  then show ?thesis
    using set kept line_mask_both [of s]
    by (auto simp: spi_cs_change_def asserted_selected [OF set] ref_select_def cs_message_def transfer_message_def
      spi_put_transfer_def transfer_data_def spi_rel_def spi_setting_def spi_kept_def line_rel_def
      spi_reset_word_def begin_transfer_def)
qed

lemma correct_edge_high:
  "spi_setting cf s \<Longrightarrow> correct_edge s (of_bool b) = (if b = sample_high cf then Some b else None)"
  by (auto simp: spi_setting_def correct_edge_def)

lemma spi_rel_Suc: "spi_rel cf n r s \<Longrightarrow> spi_rel cf (Suc n) r s"
  by (auto simp: spi_rel_def spi_kept_def)

definition spi_sample :: "nat \<Rightarrow> wires \<Rightarrow> wires \<Rightarrow> spi_s \<Rightarrow> fault + out_call list \<times> spi_s" where
  "spi_sample n old w s = (let m = matched_bits (spi_conds (have_cs s)) (wire_pins old) (wire_pins w) in
     if m = 0 then Inr ([], s) else spi_resume (word_of_nat n) m (\<lambda>ch. Inr (wire_pins w ch)) s)"

lemma sample_ok:
  assumes rel: "spi_rel cf n r s" and n: "Suc n < 2 ^ 64"
  shows "\<exists>outs s'. spi_sample n old w s = Inr (outs, s') \<and> messages outs = fst (ref_step cf old w r)
    \<and> spi_rel cf (Suc n) (snd (ref_step cf old w r)) s'"
proof -
  have set: "spi_setting cf s" using rel by (simp add: spi_rel_def)
  then have present: "have_cs s" "have_miso s" "have_mosi s" by (simp_all add: spi_setting_def)
  let ?m = "matched_bits (spi_conds True) (wire_pins old) (wire_pins w)"
  define change where "change = (w_cs w \<noteq> w_cs old)"
  define tick where "tick = (w_clk w \<noteq> w_clk old)"
  have tick: "bit ?m 0 = tick" unfolding tick_def by (rule matched_wires)
  have change: "bit ?m (Suc 0) = change" unfolding change_def One_nat_def [symmetric] by (rule matched_wires)
  define r1 where "r1 = snd (if change then ref_select cf w r else ([], r))"
  define ms where "ms = fst (if change then ref_select cf w r else ([], r))"
  obtain outs s1 where cs: "(if change then spi_cs_change (word_of_nat n) (of_bool (w_cs w)) s else ([], s)) = (outs, s1)"
    "messages outs = ms" "spi_rel cf n r1 s1"
    using cs_change_ok [OF rel n, of w] rel by (cases change) (auto simp: r1_def ms_def)
  have set1: "spi_setting cf s1" using cs(3) by (simp add: spi_rel_def)
  then have "have_cs s1" by (simp add: spi_setting_def)
  have resume: "spi_resume (word_of_nat n) ?m (\<lambda>ch. Inr (wire_pins w ch)) s =
      (if selected cf w \<and> tick \<and> w_clk w = sample_high cf then
         ebind (spi_handle_bit (word_of_nat n) (of_bool (w_miso w)) (of_bool (w_mosi w)) (of_bool (w_cs w)) s1)
           (\<lambda>(outs', s2). Inr (outs @ data_points s1 (word_of_nat n) (w_clk w) @ outs', s2))
       else Inr (outs, s1))"
    using cs(1) present \<open>have_cs s1\<close> asserted_selected [OF set1, of w] correct_edge_high [OF set1, of "w_clk w"]
    by (cases "w_clk w = sample_high cf") (simp_all add: spi_resume_def tick change split del: split_of_bool)
  have ref: "ref_step cf old w r =
      (if selected cf w \<and> tick \<and> w_clk w = sample_high cf
       then (ms @ fst (ref_bit cf w r1), snd (ref_bit cf w r1)) else (ms, r1))"
    unfolding ref_step_def change_def [symmetric] tick_def [symmetric]
    by (simp add: ms_def r1_def Let_def split: prod.splits)
  show ?thesis
  proof (cases "selected cf w \<and> tick \<and> w_clk w = sample_high cf")
    case True
    have "spi_cs_asserted s1 (of_bool (w_cs w))" using True asserted_selected [OF set1] by simp
    then obtain outs' s2 where bit: "spi_handle_bit (word_of_nat n) (of_bool (w_miso w)) (of_bool (w_mosi w))
        (of_bool (w_cs w)) s1 = Inr (outs', s2)" "messages outs' = fst (ref_bit cf w r1)"
      "spi_rel cf (Suc n) (snd (ref_bit cf w r1)) s2"
      using handle_bit_ok [OF cs(3) _ n] by blast
    have "?m \<noteq> 0" using True by (simp add: matched_wires tick_def)
    then have "spi_sample n old w s = Inr (outs @ data_points s1 (word_of_nat n) (w_clk w) @ outs', s2)"
      using True resume bit(1) present by (simp add: spi_sample_def del: wire_pins.simps split del: split_of_bool)
    then show ?thesis using True ref bit(2,3) cs(2) by simp
  next
    case False
    have ref0: "ref_step cf old w r = (ms, r1)" unfolding ref by (rule if_not_P [OF False])
    have resume0: "spi_resume (word_of_nat n) ?m (\<lambda>ch. Inr (wire_pins w ch)) s = Inr (outs, s1)"
      unfolding resume by (rule if_not_P [OF False])
    show ?thesis
    proof (cases "?m = 0")
      case True
      then have "ms = []" "r1 = r" by (simp_all add: ms_def r1_def matched_wires change_def)
      then show ?thesis using True ref0 present rel by (simp add: spi_sample_def spi_rel_Suc)
    next
      case m: False
      show ?thesis
        using m ref0 resume0 present cs(2,3) by (simp add: spi_sample_def spi_rel_Suc del: wire_pins.simps)
    qed
  qed
qed

section \<open>A chunk\<close>

abbreviation (input) spi_walk where "spi_walk \<equiv> decoder_scan (\<lambda>s. spi_conds (have_cs s)) spi_resume"

lemma walk_ref:
  assumes "spi_rel cf n r s" "n + length ws < 2 ^ 64" "\<And>ch. ch < 4 \<Longrightarrow> old ch = wire_pins w0 ch"
    "\<And>i ch. i < length ws \<Longrightarrow> ch < 4 \<Longrightarrow> sig ch (n + i) = wire_pins (ws ! i) ch"
  shows "\<exists>outs s'. spi_walk sig old n (length ws) s = Inr (outs, s') \<and> messages outs = fst (ref_run cf w0 ws r)
    \<and> spi_rel cf (n + length ws) (snd (ref_run cf w0 ws r)) s'"
  using assms
proof (induction ws arbitrary: n r s old w0)
  case Nil
  then show ?case by simp
next
  case (Cons w ws)
  have new: "sig ch n = wire_pins w ch" if "ch < 4" for ch using Cons.prems(4) [of 0 ch] that by simp
  have m: "matched_bits (spi_conds (have_cs s)) old (\<lambda>ch. sig ch n)
      = matched_bits (spi_conds (have_cs s)) (wire_pins w0) (wire_pins w)"
    by (rule spi.matched_cong) (use Cons.prems(3) new in auto)
  have res: "spi_resume k j (\<lambda>ch. Inr (sig ch n)) s = spi_resume k j (\<lambda>ch. Inr (wire_pins w ch)) s" for k j
    by (rule spi.resume_pins) (simp add: new del: wire_pins.simps)
  have walk: "spi_walk sig old n (length (w # ws)) s = ebind (spi_sample n w0 w s) (\<lambda>(outs, s').
      ebind (spi_walk sig (\<lambda>ch. sig ch n) (Suc n) (length ws) s') (\<lambda>(outs', s''). Inr (outs @ outs', s'')))"
    by (simp add: Let_def m res spi_sample_def ebind_def split: sum.splits prod.splits)
  have n: "Suc n < 2 ^ 64" using Cons.prems(2) by simp
  obtain outs s1 where s1: "spi_sample n w0 w s = Inr (outs, s1)" "messages outs = fst (ref_step cf w0 w r)"
    "spi_rel cf (Suc n) (snd (ref_step cf w0 w r)) s1"
    using sample_ok [OF Cons.prems(1) n] by blast
  have "sig ch (Suc n + i) = wire_pins (ws ! i) ch" if "i < length ws" "ch < 4" for i ch
    using Cons.prems(4) [of "Suc i" ch] that by simp
  with Cons.IH [OF s1(3), of "\<lambda>ch. sig ch n" w] Cons.prems(2) new
  obtain outs' s2 where "spi_walk sig (\<lambda>ch. sig ch n) (Suc n) (length ws) s1 = Inr (outs', s2)"
    "messages outs' = fst (ref_run cf w ws (snd (ref_step cf w0 w r)))"
    "spi_rel cf (Suc n + length ws) (snd (ref_run cf w ws (snd (ref_step cf w0 w r)))) s2"
    by (auto simp del: wire_pins.simps)
  moreover have "ref_run cf w0 (w # ws) r = (fst (ref_step cf w0 w r) @ fst (ref_run cf w ws (snd (ref_step cf w0 w r))),
      snd (ref_run cf w ws (snd (ref_step cf w0 w r))))"
    by (simp split: prod.splits)
  ultimately show ?case unfolding walk using s1 by simp
qed

text \<open>The state after the first look at CHIP SELECT is related to a fresh reference.\<close>

lemma first_cs_rel:
  assumes "spi_setting cf s" "ss_transfer s = - 1" "line_rel cf bs [] (miso s)" "line_rel cf bs' [] (mosi s)"
    "Suc n < 2 ^ 64"
  shows "spi_rel cf (Suc n) \<lparr>begun = selected cf w, bits_in = [], words_in = []\<rparr>
    (snd (spi_first_cs (word_of_nat n) (of_bool (w_cs w)) s))"
proof -
  have "(word_of_nat n :: u64) \<noteq> - 1" by (rule sample_not_minus_one [OF assms(5)])
  then show ?thesis
    using assms asserted_selected [OF assms(1), of w]
    by (auto simp: spi_first_cs_def spi_rel_def spi_setting_def spi_kept_def line_rel_def spi_reset_word_def
      begin_transfer_def)
qed

section \<open>Where the messages go\<close>

definition spi_sends :: "spi_s \<Rightarrow> out_call list \<times> spi_s \<Rightarrow> bool" where
  "spi_sends s r \<longleftrightarrow> (\<forall>c \<in> set (fst r). sends_on (spi_out_python s) c) \<and> spi_out_python (snd r) = spi_out_python s"

lemma cs_change_sends: "spi_sends s (spi_cs_change n cs s)"
  by (auto simp: spi_sends_def spi_cs_change_def spi_put_transfer_def spi_reset_word_def begin_transfer_def Let_def)

lemma put_data_sends: "spi_sends s (spi_put_data s)"
  by (auto simp: spi_sends_def spi_put_data_def bit_puts_def split_beta Let_def)

lemma word_done_sends: "spi_word_done n s = Inr r \<Longrightarrow> spi_sends s r"
  using put_data_sends [of s]
  by (auto simp: spi_word_done_def spi_sends_def spi_reset_word_def ebind_eq_Inr split_beta Let_def split: if_splits)

lemma handle_bit_sends: "spi_handle_bit n mi mo cs s = Inr r \<Longrightarrow> spi_sends s r"
  by (auto simp: spi_handle_bit_def ebind_eq_Inr Let_def spi_sends_def split: if_splits dest!: word_done_sends)

lemma resume_sends_on:
  assumes "spi_resume n m p s = Inr (outs, s')"
  shows "(\<forall>c \<in> set outs. sends_on (spi_out_python s) c) \<and> spi_out_python s' = spi_out_python s"
proof -
  obtain clk mi mo cs where r: "(let (outs, s1) = (if have_cs s \<and> bit m 1 then spi_cs_change n cs s else ([], s))
     in if (have_cs s1 \<and> \<not> spi_cs_asserted s1 cs) \<or> \<not> bit m 0 then Inr (outs, s1)
        else case correct_edge s1 clk of
          None \<Rightarrow> Inr (outs, s1)
        | Some rising \<Rightarrow>
            ebind (spi_handle_bit n mi mo cs s1) (\<lambda>(outs', s2).
            Inr (outs @ data_points s1 n rising @ outs', s2))) = Inr (outs, s')"
    using assms unfolding spi_resume_def by (auto simp: ebind_eq_Inr)
  define first where "first = (if have_cs s \<and> bit m 1 then spi_cs_change n cs s else ([], s))"
  obtain outs1 s1 where first_eq: "first = (outs1, s1)" by (cases first)
  have "spi_sends s first" using cs_change_sends by (simp add: first_def spi_sends_def)
  then have f: "\<forall>c \<in> set outs1. sends_on (spi_out_python s) c" "spi_out_python s1 = spi_out_python s"
    by (simp_all add: spi_sends_def first_eq)
  have pts: "\<forall>c \<in> set (data_points s1 n b). sends_on i c" for b i by (auto simp: data_points_def)
  show ?thesis
    using r f pts unfolding first_def [symmetric] first_eq
    by (auto simp: ebind_eq_Inr spi_sends_def split: if_splits option.splits dest!: handle_bit_sends)
qed

section \<open>The loop over a chunk\<close>

lemma loop_on_chunk:
  assumes "running 4 chmap ps di" "\<forall>ch < 4. wait_pins di ps ! ch = wire_pins w0 ch"
    and "spi_rel cf (wait_from di) r s"
    and "length ws = unat (abs_end_samplenum di) - wait_from di" "length ws < fuel"
    and "\<forall>i < length ws. \<forall>ch < 4. pin_at di ch (wait_from di + i) = wire_pins (ws ! i) ch"
  shows "\<exists>outs d s'. spi_loop fuel di s = Inr (Sleeping, outs, Some d, s')
    \<and> messages outs = fst (ref_run cf w0 ws r)
    \<and> spi_rel cf (unat (abs_end_samplenum di)) (snd (ref_run cf w0 ws r)) s'
    \<and> (\<forall>c \<in> set outs. sends_on (spi_out_python s) c)
    \<and> inbuf d = None \<and> handled_all_samples d"
proof -
  have "wait_from di \<le> unat (abs_end_samplenum di)"
    using assms(1) by (simp add: running_def wait_from_def word_less_nat_alt)
  moreover have "unat (abs_end_samplenum di) < 2 ^ 64" using unsigned_less [of "abs_end_samplenum di"] by simp
  ultimately have n: "wait_from di + length ws = unat (abs_end_samplenum di)" "wait_from di + length ws < 2 ^ 64"
    using assms(4) by simp_all
  obtain outs s' where walk: "spi_walk (pin_at di) (\<lambda>ch. wait_pins di ps ! ch) (wait_from di) (length ws) s = Inr (outs, s')"
    "messages outs = fst (ref_run cf w0 ws r)" "spi_rel cf (wait_from di + length ws) (snd (ref_run cf w0 ws r)) s'"
    using walk_ref [OF assms(3) n(2), of "\<lambda>ch. wait_pins di ps ! ch" w0 "pin_at di"] assms(2,6) by blast
  have "\<forall>c \<in> set outs. sends_on (spi_out_python s) c"
    by (rule scan_outputs [where key = spi_out_python, OF _ refl walk(1)]) (use resume_sends_on in metis)
  with walk show ?thesis
    using spi.run_chunk [OF assms(1), of "\<lambda>ch. wait_pins di ps ! ch" fuel s] assms(4,5) n(1) by auto
qed

text \<open>C4: The SPI decoder does what the reference does. Over a chunk of samples of the four lines,
  whatever their waveforms, for every mode, bit order, word size of 1 to 64 bits and polarity of
  CHIP SELECT, the loop of \<open>spi_decode\<close>, on the condition matching engine, hands on exactly the
  messages of a walk over the samples: CS-CHANGE, DATA with the words of both lines, TRANSFER with
  the words of a transfer. No shift is out of range, no array is overrun and the bit rate fits an
  \<open>int\<close>; the loop ends asleep, with the chunk given back, and its state is the one the reference
  has, so that the next chunk goes on from there.\<close>

theorem spi_follows_reference:
  assumes "running 4 chmap ps di" "\<forall>ch < 4. wait_pins di ps ! ch = wire_pins w0 ch"
    and "spi_rel cf (wait_from di) r s"
    and "length ws = unat (abs_end_samplenum di) - wait_from di" "length ws < fuel"
    and "\<forall>i < length ws. \<forall>ch < 4. pin_at di ch (wait_from di + i) = wire_pins (ws ! i) ch"
  shows "\<exists>outs d s'. spi_loop fuel di s = Inr (Sleeping, outs, Some d, s')
    \<and> messages outs = fst (ref_run cf w0 ws r)
    \<and> spi_rel cf (unat (abs_end_samplenum di)) (snd (ref_run cf w0 ws r)) s'
    \<and> inbuf d = None \<and> handled_all_samples d"
  using loop_on_chunk [OF assms] by blast

section \<open>A transfer\<close>

text \<open>The four lines as channels of a chunk.\<close>

definition spi_decoder :: srd_decoder where
  "spi_decoder = \<lparr>dec_id = ''spi'', dec_inputs = [''logic''], dec_outputs = [''spi''],
     dec_channels = [\<lparr>ch_id = ''clk'', order = 0\<rparr>],
     dec_opt_channels = [\<lparr>ch_id = ''miso'', order = 1\<rparr>, \<lparr>ch_id = ''mosi'', order = 2\<rparr>, \<lparr>ch_id = ''cs'', order = 3\<rparr>],
     dec_ann_types = [0, 1, 2]\<rparr>"

definition spi_chunk :: "wires list \<Rightarrow> srd_decoder_inst" where
  "spi_chunk ws = chunk_inst spi_decoder [map w_clk ws, map w_miso ws, map w_mosi ws, map w_cs ws]"

lemma spi_chunk_running:
  assumes "ws \<noteq> []" "length ws < 2 ^ 63"
  shows "running 4 [0, 1, 2, 3] [2, 2, 2, 2] (spi_chunk ws)"
    "\<forall>ch < 4. wait_pins (spi_chunk ws) [2, 2, 2, 2] ! ch = wire_pins (hd ws) ch"
    "wait_from (spi_chunk ws) = 0" "length ws = unat (abs_end_samplenum (spi_chunk ws)) - 0"
    "\<forall>i < length ws. \<forall>ch < 4. pin_at (spi_chunk ws) ch (0 + i) = wire_pins (ws ! i) ch"
proof -
  let ?chans = "[map w_clk ws, map w_miso ws, map w_mosi ws, map w_cs ws]"
  have dec: "length (dec_channels spi_decoder) + length (dec_opt_channels spi_decoder) = length ?chans"
    by (simp add: spi_decoder_def)
  have len: "\<forall>c \<in> set ?chans. length c = length ws" "0 < length ws" "length ws < 2 ^ 63"
    using assms by simp_all
  have ne: "?chans \<noteq> []" by simp
  note c = chunk_inst_running [OF dec ne len, folded spi_chunk_def]
  have four: "map int [0..<length ?chans] = [0, 1, 2, 3]" "replicate (length ?chans) (2 :: u8) = [2, 2, 2, 2]"
    "length ?chans = 4"
    by (simp_all add: upt_rec numeral_eq_Suc)
  have nth: "?chans ! ch ! i = (if ch = 0 then w_clk (ws ! i) else if ch = 1 then w_miso (ws ! i)
      else if ch = 2 then w_mosi (ws ! i) else w_cs (ws ! i))" if "ch < 4" "i < length ws" for ch i
    using that by (auto simp: nth_Cons' less_Suc_eq numeral_eq_Suc)
  show "running 4 [0, 1, 2, 3] [2, 2, 2, 2] (spi_chunk ws)" using c(1) unfolding four(1,2) unfolding four(3) .
  show "wait_from (spi_chunk ws) = 0" "length ws = unat (abs_end_samplenum (spi_chunk ws)) - 0" using c(2,3) by simp_all
  show "\<forall>i < length ws. \<forall>ch < 4. pin_at (spi_chunk ws) ch (0 + i) = wire_pins (ws ! i) ch"
  proof (intro allI impI)
    fix i ch :: nat assume "i < length ws" "ch < 4"
    then show "pin_at (spi_chunk ws) ch (0 + i) = wire_pins (ws ! i) ch"
      using c(4) [unfolded four(3), of ch i] nth [of ch i] by simp
  qed
  show "\<forall>ch < 4. wait_pins (spi_chunk ws) [2, 2, 2, 2] ! ch = wire_pins (hd ws) ch"
  proof (intro allI impI)
    fix ch :: nat assume "ch < 4"
    then show "wait_pins (spi_chunk ws) [2, 2, 2, 2] ! ch = wire_pins (hd ws) ch"
      using c(5) [of ch, unfolded four(2), unfolded four(3)] nth [of ch 0] assms(1) by (simp add: hd_conv_nth)
  qed
qed

text \<open>CHIP SELECT goes low, the bits of a byte go over both lines, CHIP SELECT goes high.\<close>

definition send_bits :: "(bool \<times> bool) list \<Rightarrow> wires list" where
  "send_bits bs = (let idle = \<lparr>w_clk = False, w_miso = False, w_mosi = False, w_cs = True\<rparr> in
     idle # idle\<lparr>w_cs := False\<rparr>
     # concat (map (\<lambda>(i, u). [\<lparr>w_clk = True, w_miso = i, w_mosi = u, w_cs = False\<rparr>,
         \<lparr>w_clk = False, w_miso = i, w_mosi = u, w_cs = False\<rparr>]) bs) @ [idle])"

definition demo_wires :: "wires list" where
  "demo_wires = send_bits (zip [False, True, False, False, False, False, True, True]
     [True, False, True, False, False, True, False, True])"

text \<open>Mode 0, most significant bit first, words of eight bits, CHIP SELECT active low.\<close>

definition demo_mode :: spi_config where
  "demo_mode = \<lparr>sample_high = True, lsb_order = False, word_bits = 8, cs_high = False\<rparr>"

definition demo_spi :: spi_s where
  "demo_spi = (case spi_start spi_reset (Some (new_c_inst spi_decoder ''spi-1'')) of
     Inl f \<Rightarrow> spi_reset | Inr (s, di) \<Rightarrow> s\<lparr>spi_samplerate := 1000000\<rparr>)"

lemma demo_spi_rel: "spi_rel demo_mode 0 \<lparr>begun = False, bits_in = [], words_in = []\<rparr> demo_spi"
proof -
  have "have_cs demo_spi \<and> have_miso demo_spi \<and> have_mosi demo_spi \<and> wordsize demo_spi = 8 \<and> cpol demo_spi = 0
    \<and> cpha demo_spi = 0 \<and> \<not> cs_active_high demo_spi \<and> \<not> lsb_first demo_spi \<and> spi_samplerate demo_spi = 1000000"
    by code_simp
  moreover have "spi_bitcount demo_spi = 0 \<and> miso demo_spi = zero_line \<and> mosi demo_spi = zero_line \<and> ss_transfer demo_spi = - 1"
    by code_simp
  ultimately show ?thesis
    by (simp add: spi_rel_def spi_setting_def spi_kept_def line_rel_def demo_mode_def zero_line_def)
qed

lemma spi_follows_reference_witness:
  "\<exists>outs d s'. spi_loop 20 (spi_chunk demo_wires) demo_spi = Inr (Sleeping, outs, Some d, s')
    \<and> messages outs = [(''CS-CHANGE'', [C_I8 1, C_I8 0]),
        (''DATA'', [C_BYTES [3, 0xA5, 0, 0, 0, 0, 0, 0, 0, 0x43, 0, 0, 0, 0, 0, 0, 0]]),
        (''CS-CHANGE'', [C_I8 0, C_I8 1]), (''TRANSFER'', [C_BYTES [3, 1, 0, 1, 0, 0xA5, 0x43]])]"
proof -
  have ws: "demo_wires \<noteq> []" "length demo_wires < 2 ^ 63" "length demo_wires < 20"
    by (simp_all add: demo_wires_def send_bits_def Let_def)
  note run = spi_chunk_running [OF ws(1,2)]
  have "fst (ref_run demo_mode (hd demo_wires) demo_wires \<lparr>begun = False, bits_in = [], words_in = []\<rparr>) =
      [(''CS-CHANGE'', [C_I8 1, C_I8 0]),
        (''DATA'', [C_BYTES [3, 0xA5, 0, 0, 0, 0, 0, 0, 0, 0x43, 0, 0, 0, 0, 0, 0, 0]]),
        (''CS-CHANGE'', [C_I8 0, C_I8 1]), (''TRANSFER'', [C_BYTES [3, 1, 0, 1, 0, 0xA5, 0x43]])]"
    by code_simp
  with spi_follows_reference [OF run(1,2) demo_spi_rel [folded run(3)] _ ws(3)] run(3-5) show ?thesis
    by auto
qed

end
