(* ===== verification/Max7219_Props.thy ===== *)
theory Max7219_Props
  imports Max7219_Decoder Spi_Props
begin

text \<open>
  The display decoder as it is meant, and what it makes of the messages of the SPI decoder.
\<close>

section \<open>The contract\<close>

text \<open>Positions in the capture do not matter for whether something is reported.\<close>

definition max_core :: "max7219_state \<Rightarrow> max7219_state" where
  "max_core s = s\<lparr>addr_start := 0, cs_start := 0\<rparr>"

definition reports :: "out_call list \<Rightarrow> unit list" where
  "reports outs = map (\<lambda>c. ()) outs"

lemma register_reports:
  "reports (max7219_handle_register s a v x y) = [()]"
  by (simp add: max7219_handle_register_def reports_def Let_def)

interpretation max7219: stacked_decoder "max7219_recv_proto other" max_core reports
proof
  show "reports (xs @ ys) = reports xs @ reports ys" for xs ys by (simp add: reports_def)
  show "max_core (snd (max7219_recv_proto other a b cmd fs s)) = max_core (snd (max7219_recv_proto other 0 0 cmd fs (max_core s)))"
    for a b cmd fs s
    by (simp add: max7219_recv_proto_def max_core_def Let_def)
  show "reports (fst (max7219_recv_proto other a b cmd fs s)) = reports (fst (max7219_recv_proto other 0 0 cmd fs (max_core s)))"
    for a b cmd fs s
    by (auto simp: max7219_recv_proto_def max_core_def Let_def register_reports) (simp_all add: reports_def)
  show "max_core (snd (max7219_recv_proto other a b ''BITS'' fs s)) = max_core s" for a b fs s
    by (simp add: max7219_recv_proto_def)
  show "reports (fst (max7219_recv_proto other a b ''BITS'' fs s)) = []" for a b fs s
    by (simp add: max7219_recv_proto_def reports_def)
qed

section \<open>A write\<close>

text \<open>A word on MOSI alone, in the seventeen fields that the handler reads.\<close>

definition spread_word :: "u8 \<Rightarrow> c_field list" where
  "spread_word b = C_U8 1 # C_U8 b # replicate 15 (C_U8 0)"

text \<open>
  With words in this form a write of two words between two changes of CHIP SELECT is reported
  once, as the register.
\<close>

lemma write_reported:
  "fst (on_messages (max7219_recv_proto other) [(''CS-CHANGE'', [C_I8 1, C_I8 0]), (''DATA'', spread_word a),
     (''DATA'', spread_word v), (''CS-CHANGE'', [C_I8 0, C_I8 1])] s) = max7219_handle_register s a v 0 0"
  by (simp add: max7219_recv_proto_def spread_word_def Let_def max7219_handle_register_def)

section \<open>On the SPI decoder\<close>

definition unheard :: "message \<Rightarrow> bool" where
  "unheard m \<longleftrightarrow> fst m = ''DATA'' \<longrightarrow> length (snd m) < 17"

lemma silent_step:
  assumes "unheard m" "max_pos s = 0"
  shows "fst (max7219_recv_proto other a b (fst m) (snd m) s) = [] \<and> max_pos (snd (max7219_recv_proto other a b (fst m) (snd m) s)) = 0"
  using assms by (auto simp: max7219_recv_proto_def unheard_def Let_def)

lemma silent_messages:
  "\<forall>m \<in> set ms. unheard m \<Longrightarrow> max_pos s = 0 \<Longrightarrow> fst (on_messages (max7219_recv_proto other) ms s) = []"
proof (induction ms arbitrary: s)
  case (Cons m ms)
  then show ?case using silent_step [of m s other 0 0] by (simp add: split_beta)
qed simp

lemma ref_unheard: "\<forall>m \<in> set (fst (ref_run cf old ws r)). unheard m"
proof (induction ws arbitrary: old r)
  case (Cons w ws)
  have "\<forall>m \<in> set (fst (ref_step cf old w r)). unheard m" for r
    by (auto simp: ref_step_def ref_select_def ref_bit_def cs_message_def transfer_message_def word_message_def
      unheard_def Let_def split: if_splits)
  then show ?case using Cons by (auto simp: Let_def split_beta)
qed simp

text \<open>C8: Nothing that is written to a MAX7219 on the SPI bus is ever reported. Over any chunk of samples
  of the four lines, the SPI decoder on the matching engine sends its messages through
  \<open>c_proto\<close> to the display decoder stacked on it, and this makes no annotation at all: the SPI
  decoder packs the bytes of a word into one field, and the display decoder passes over a DATA
  message with fewer than seventeen.\<close>

theorem max7219_deaf_on_spi:
  assumes "running 4 chmap ps di" "\<forall>ch < 4. wait_pins di ps ! ch = wire_pins w0 ch"
    and "spi_rel cf (wait_from di) r s"
    and "length ws = unat (abs_end_samplenum di) - wait_from di" "length ws < fuel"
    and "\<forall>i < length ws. \<forall>ch < 4. pin_at di ch (wait_from di + i) = wire_pins (ws ! i) ch"
    and "stacked_one has_upper h di (spi_out_python s) q" "max_pos m = 0"
  shows "\<exists>outs d s' calls. spi_loop fuel di s = Inr (Sleeping, outs, Some d, s')
    \<and> stack_calls has_upper h di outs = Inr calls \<and> length (messages outs) \<le> length calls
    \<and> fst (feed (max7219_recv_proto other) calls m) = []"
proof -
  obtain outs d s' where loop: "spi_loop fuel di s = Inr (Sleeping, outs, Some d, s')"
    "messages outs = fst (ref_run cf w0 ws r)" "\<forall>c \<in> set outs. sends_on (spi_out_python s) c"
    using loop_on_chunk [OF assms(1-6)] by blast
  let ?calls = "List.map_filter (upper_of q) outs"
  have "stack_calls has_upper h di outs = Inr ?calls" by (rule stack_calls_one [OF assms(7) loop(3)])
  moreover have "length (messages outs) \<le> length ?calls"
  proof (induction outs)
    case (Cons c outs)
    then show ?case by (cases c) (simp_all add: map_filter_simps)
  qed (simp add: map_filter_simps)
  moreover have "fst (on_messages (max7219_recv_proto other) (messages outs) m) = []"
    using silent_messages [OF _ assms(8)] ref_unheard loop(2) by metis
  then have "reports (fst (feed (max7219_recv_proto other) ?calls m)) = []"
    using max7219.feed_messages [of m m other q outs] by (simp add: reports_def)
  then have "fst (feed (max7219_recv_proto other) ?calls m) = []" by (simp add: reports_def)
  ultimately show ?thesis using loop(1) by blast
qed

section \<open>An example\<close>

definition demo_spi_outputs :: "srd_pd_output list" where
  "demo_spi_outputs = (case spi_start spi_reset (Some (new_c_inst spi_decoder ''spi-1'')) of
     Inr (s, Some di) \<Rightarrow> pd_output di | x \<Rightarrow> [])"

definition demo_spi_inst :: srd_decoder_inst where
  "demo_spi_inst = (spi_chunk demo_wires)\<lparr>pd_output := demo_spi_outputs, next_di := [1]\<rparr>"

definition demo_display_store :: inst_store where
  "demo_display_store = (\<lambda>p. None)(1 \<mapsto> new_c_inst spi_decoder ''max7219-1'')"

lemma max7219_deaf_on_spi_witness:
  "\<exists>outs d s' calls. spi_loop 20 demo_spi_inst demo_spi = Inr (Sleeping, outs, Some d, s')
    \<and> stack_calls (\<lambda>di. True) demo_display_store demo_spi_inst outs = Inr calls
    \<and> fst (feed (max7219_recv_proto (\<lambda>f. 0)) calls max7219_reset) = []"
proof -
  have ws: "demo_wires \<noteq> []" "length demo_wires < 2 ^ 63" "length demo_wires < 20"
    by (simp_all add: demo_wires_def send_bits_def Let_def)
  note run = spi_chunk_running [OF ws(1,2), folded outputs_matter_not
      [where di = "spi_chunk demo_wires" and outs = demo_spi_outputs and uppers = "[1]", folded demo_spi_inst_def]]
  have "spi_out_python demo_spi = 1" by code_simp
  then have stack: "stacked_one (\<lambda>di. True) demo_display_store demo_spi_inst (spi_out_python demo_spi) 1"
    by (simp add: stacked_one_def demo_spi_inst_def demo_display_store_def new_c_inst_def Let_def) code_simp
  have "max_pos max7219_reset = 0" by (simp add: max7219_reset_def)
  from max7219_deaf_on_spi [OF run(1,2) demo_spi_rel [folded run(3)] _ ws(3) _ stack this, of "\<lambda>f. 0"] run(3-5)
  show ?thesis by auto
qed

end
