(* ===== verification/Analog.thy ===== *)
theory Analog
  imports PX_Prelude
begin

text \<open>
  Analog samples, \<open>libsigrok/analog.c\<close>: the description of an encoding, reading integer
  samples of 1 to 8 bytes in either byte order, converting them, and the unit names. Floating
  point is a parameter of the conversion: how integers and bit patterns become values, and
  the scaling.
\<close>

section \<open>Data\<close>

record sr_rational =
  rat_p :: u64
  rat_q :: u64

record sr_analog_encoding =
  enc_unitsize :: u8
  is_signed :: bool
  is_float :: bool
  is_bigendian :: bool
  digits :: int
  is_digits_decimal :: bool
  scale :: sr_rational
  offset :: sr_rational

record sr_analog_meaning =
  mq :: int
  unit :: int
  mqflags :: u32
  channels :: "nat list"

text \<open>\<open>spec\<close> holds one number; a NULL pointer is None.\<close>

record sr_datafeed_analog =
  analog_data :: "u8 list option"
  num_samples :: u32
  encoding :: "sr_analog_encoding option"
  meaning :: "sr_analog_meaning option"
  spec_digits :: int

definition sr_rational_set :: "u64 \<Rightarrow> u64 \<Rightarrow> sr_rational option \<Rightarrow> sr_rational option" where
  "sr_rational_set p q r = map_option (\<lambda>x. x\<lparr>rat_p := p, rat_q := q\<rparr>) r"

definition sr_analog_init :: "int \<Rightarrow> sr_datafeed_analog" where
  "sr_analog_init dgts = \<lparr>analog_data = None, num_samples = 0,
     encoding = Some \<lparr>enc_unitsize = 4, is_signed = False, is_float = True, is_bigendian = False,
       digits = dgts, is_digits_decimal = True, scale = \<lparr>rat_p = 1, rat_q = 1\<rparr>,
       offset = \<lparr>rat_p = 0, rat_q = 1\<rparr>\<rparr>,
     meaning = Some \<lparr>mq = 0, unit = 0, mqflags = 0, channels = []\<rparr>, spec_digits = dgts\<rparr>"

section \<open>Reading samples\<close>

fun read_big :: "u8 list \<Rightarrow> nat list \<Rightarrow> u64 \<Rightarrow> fault + u64" where
  "read_big data [] val = Inr val"
| "read_big data (i # is) val =
     ebind (rd data i) (\<lambda>b. read_big data is (push_bit 8 val OR ucast b))"

fun read_little :: "u8 list \<Rightarrow> nat list \<Rightarrow> u64 \<Rightarrow> fault + u64" where
  "read_little data [] val = Inr val"
| "read_little data (i # is) val =
     ebind (rd data i) (\<lambda>b. read_little data is (val OR push_bit (i * 8) (ucast b)))"

definition read_unsigned_sample :: "u8 list \<Rightarrow> nat \<Rightarrow> bool \<Rightarrow> fault + u64" where
  "read_unsigned_sample data usz big =
     (if big then read_big data [0..<usz] 0 else read_little data [0..<usz] 0)"

text \<open>The value is an \<open>int64_t\<close>: the word read with its sign.\<close>

definition read_signed_sample :: "u8 list \<Rightarrow> nat \<Rightarrow> bool \<Rightarrow> fault + u64" where
  "read_signed_sample data usz big =
     ebind (read_unsigned_sample data usz big) (\<lambda>val.
     let bits = usz * 8 in
     Inr (if bits < 64 \<and> val AND push_bit (bits - 1) 1 \<noteq> 0
          then val OR NOT (push_bit bits 1 - 1) else val))"

text \<open>
  The floating point side: values from an unsigned and a signed integer and from the bit patterns
  of a \<open>float\<close> and a \<open>double\<close>, and \<open>(float)(value * scale + offset)\<close>.
\<close>

record ('v, 'o) float_ops =
  of_unsigned :: "u64 \<Rightarrow> 'v"
  of_signed :: "u64 \<Rightarrow> 'v"
  of_float_bits :: "u32 \<Rightarrow> 'v"
  of_double_bits :: "u64 \<Rightarrow> 'v"
  affine :: "sr_rational \<Rightarrow> sr_rational \<Rightarrow> 'v \<Rightarrow> 'o"

definition read_value :: "('v, 'o) float_ops \<Rightarrow> sr_analog_encoding \<Rightarrow> u8 list \<Rightarrow> fault + 'v option" where
  "read_value fl enc inp =
     (let n = unat (enc_unitsize enc); big = is_bigendian enc in
      if is_float enc \<and> n = 4 then
        ebind (read_unsigned_sample inp n big) (\<lambda>raw. Inr (Some (of_float_bits fl (ucast raw))))
      else if is_float enc \<and> n = 8 then
        ebind (read_unsigned_sample inp n big) (\<lambda>raw. Inr (Some (of_double_bits fl raw)))
      else if is_float enc then Inr None
      else if is_signed enc then
        ebind (read_signed_sample inp n big) (\<lambda>v. Inr (Some (of_signed fl v)))
      else ebind (read_unsigned_sample inp n big) (\<lambda>v. Inr (Some (of_unsigned fl v))))"

fun convert_samples :: "('v, 'o) float_ops \<Rightarrow> sr_analog_encoding \<Rightarrow> nat \<Rightarrow> u8 list \<Rightarrow>
    'o list \<Rightarrow> fault + int \<times> 'o list" where
  "convert_samples fl enc 0 inp out = Inr (SR_OK, out)"
| "convert_samples fl enc (Suc n) inp out =
     ebind (read_value fl enc inp) (\<lambda>v.
     case v of
       None \<Rightarrow> Inr (SR_ERR, out)
     | Some x \<Rightarrow> convert_samples fl enc n (drop (unat (enc_unitsize enc)) inp)
         (out @ [affine fl (scale enc) (offset enc) x]))"

text \<open>\<open>sr_analog_to_float\<close>; the result lists what is written to the output buffer.\<close>

definition sr_analog_to_float :: "('v, 'o) float_ops \<Rightarrow> sr_datafeed_analog option \<Rightarrow>
    fault + int \<times> 'o list" where
  "sr_analog_to_float fl analog =
     (case analog of
        None \<Rightarrow> Inr (SR_ERR_ARG, [])
      | Some a \<Rightarrow>
          (case (analog_data a, meaning a, encoding a) of
             (Some inp, Some mean, Some enc) \<Rightarrow>
               if enc_unitsize enc = 0 \<or> 8 < enc_unitsize enc
                  \<or> rat_q (scale enc) = 0 \<or> rat_q (offset enc) = 0
               then Inr (SR_ERR_ARG, [])
               else convert_samples fl enc (unat (num_samples a) * length (channels mean)) inp []
           | _ \<Rightarrow> Inr (SR_ERR_ARG, [])))"

section \<open>Units\<close>

definition sr_analog_si_prefix_friendly :: "int \<Rightarrow> bool" where
  "sr_analog_si_prefix_friendly u \<longleftrightarrow>
     u \<in> {10000, 10001, 10002, 10003, 10004, 10007, 10010, 10011}"

text \<open>Bytes of a UTF-8 string that are not ASCII.\<close>

definition unit_name :: "int \<Rightarrow> string" where
  "unit_name u =
     (if u = 10000 then ''V'' else if u = 10001 then ''A''
      else if u = 10002 then [CHR 0xE2, CHR 0x84, CHR 0xA6]
      else if u = 10003 then ''F'' else if u = 10004 then ''K''
      else if u = 10005 then [CHR 0xC2, CHR 0xB0, CHR ''C'']
      else if u = 10006 then [CHR 0xC2, CHR 0xB0, CHR ''F'']
      else if u = 10007 then ''Hz'' else if u = 10008 then ''%'' else if u = 10010 then ''s''
      else if u = 10011 then ''S'' else if u = 10012 then ''dBm''
      else if u = 10013 then ''dBV'' else '''')"

definition flag_names :: "(u32 \<times> string) list" where
  "flag_names = [(0x01, '' AC''), (0x02, '' DC''), (0x04, '' RMS''), (0x10, '' HOLD''),
     (0x20, '' MAX''), (0x40, '' MIN'')]"

definition sr_analog_unit_to_string :: "sr_datafeed_analog option \<Rightarrow> int \<times> string option" where
  "sr_analog_unit_to_string analog =
     (case analog of
        None \<Rightarrow> (SR_ERR_ARG, None)
      | Some a \<Rightarrow>
          (case meaning a of
             None \<Rightarrow> (SR_ERR_ARG, None)
           | Some mean \<Rightarrow> (SR_OK, Some (foldl
               (\<lambda>text (flag, name). if mqflags mean AND flag \<noteq> 0 then text @ name else text)
               (unit_name (unit mean)) flag_names))))"

section \<open>Integer samples\<close>

lemma read_little_bits:
  assumes "usz \<le> 8" "usz \<le> length data"
  shows "\<exists>v. read_little data [0..<usz] 0 = Inr v
    \<and> (\<forall>k. bit v k \<longleftrightarrow> k < 8 * usz \<and> bit (data ! (k div 8)) (k mod 8))"
proof -
  have step: "\<exists>v. read_little data [i..<usz] acc = Inr v
    \<and> (\<forall>k. bit v k \<longleftrightarrow> k < 8 * usz \<and> bit (data ! (k div 8)) (k mod 8))"
    if "i \<le> usz" "\<forall>k. bit acc k \<longleftrightarrow> k < 8 * i \<and> bit (data ! (k div 8)) (k mod 8)" for i acc
    using that
  proof (induction "usz - i" arbitrary: i acc)
    case 0
    then show ?case by auto
  next
    case (Suc d)
    then have i: "i < usz" "[i..<usz] = i # [Suc i..<usz]" by (auto simp: upt_conv_Cons)
    let ?acc = "acc OR push_bit (i * 8) (ucast (data ! i))"
    have "bit ?acc k \<longleftrightarrow> k < 8 * Suc i \<and> bit (data ! (k div 8)) (k mod 8)" for k
    proof -
      consider "k < 8 * i" | "8 * i \<le> k" "k < 8 * Suc i" | "8 * Suc i \<le> k" by linarith
      then show ?thesis
      proof cases
        case 2
        then obtain r where k: "k = 8 * i + r" "r < 8" by (metis add_less_cancel_left le_Suc_ex mult_Suc_right add.commute)
        then have "k < 64" using i assms(1) by auto
        then show ?thesis using k Suc.prems(2)
          by (simp add: bit_or_iff bit_push_bit_iff bit_ucast_iff mult.commute)
      next
        case 3
        then have "\<not> k - i * 8 < 8" by simp
        then have "\<not> bit (data ! i) (k - i * 8)" using bit_imp_le_length by fastforce
        with 3 Suc.prems(2) show ?thesis by (auto simp: bit_or_iff bit_push_bit_iff bit_ucast_iff)
      qed (use Suc.prems(2) in \<open>auto simp: bit_or_iff bit_push_bit_iff\<close>)
    qed
    with Suc.hyps(1) [of "Suc i" ?acc] Suc.hyps(2) i assms(2) show ?case by auto
  qed
  show ?thesis by (rule step) simp_all
qed

text \<open>Big-endian samples are the reversed little-endian ones.\<close>

lemma read_big_foldl:
  "usz \<le> length data \<Longrightarrow> i \<le> usz \<Longrightarrow> read_big data [i..<usz] acc
     = Inr (foldl (\<lambda>v b. push_bit 8 v OR ucast b) acc (drop i (take usz data)))"
proof (induction "usz - i" arbitrary: i acc)
  case 0
  then show ?case by simp
next
  case (Suc d)
  then have i: "i < usz" "[i..<usz] = i # [Suc i..<usz]" by (auto simp: upt_conv_Cons)
  have "drop i (take usz data) = data ! i # drop (Suc i) (take usz data)"
    using i Suc.prems by (simp add: Cons_nth_drop_Suc [symmetric])
  with Suc.hyps(1) [of "Suc i"] Suc.hyps(2) Suc.prems i show ?case by simp
qed

lemma foldl_big_bits:
  fixes data :: "u8 list"
  assumes "length data \<le> 8"
  shows "bit (foldl (\<lambda>v b. push_bit 8 v OR ucast b) (0 :: u64) data) k
    \<longleftrightarrow> k < 8 * length data \<and> bit (rev data ! (k div 8)) (k mod 8)"
  using assms
proof (induction data arbitrary: k rule: rev_induct)
  case Nil
  then show ?case by simp
next
  case (snoc b data)
  show ?case
  proof (cases "k < 8")
    case True
    then show ?thesis by (simp add: bit_or_iff bit_push_bit_iff bit_ucast_iff)
  next
    case False
    then obtain j where k: "k = 8 + j" by (metis le_Suc_ex not_less)
    have "\<not> bit b k" using False bit_imp_le_length by fastforce
    moreover have idx: "(8 + j) div 8 - Suc 0 = j div 8" by simp
    moreover have lt: "j < 8 * length data \<Longrightarrow> j < 56" using snoc.prems by simp
    ultimately show ?thesis
      using snoc k by (simp add: bit_or_iff bit_push_bit_iff bit_ucast_iff) (use lt in blast)
  qed
qed

definition sample_bytes :: "u8 list \<Rightarrow> nat \<Rightarrow> bool \<Rightarrow> u8 list" where
  "sample_bytes data usz big = (if big then rev (take usz data) else take usz data)"

lemma read_unsigned_bits:
  assumes "usz \<le> 8" "usz \<le> length data"
  shows "\<exists>v. read_unsigned_sample data usz big = Inr v
    \<and> (\<forall>k. bit v k \<longleftrightarrow> k < 8 * usz \<and> bit (sample_bytes data usz big ! (k div 8)) (k mod 8))"
proof (cases big)
  case True
  with read_big_foldl [of usz data 0 0] foldl_big_bits [of "take usz data"] assms show ?thesis
    by (simp add: read_unsigned_sample_def sample_bytes_def min_def)
next
  case False
  with read_little_bits [OF assms] show ?thesis
    by (fastforce simp: read_unsigned_sample_def sample_bytes_def)
qed


text \<open>The bytes of an integer sample as an instrument sends it.\<close>

definition encode_sample :: "nat \<Rightarrow> bool \<Rightarrow> u64 \<Rightarrow> u8 list" where
  "encode_sample usz big v =
     (let le = map (\<lambda>i. ucast (drop_bit (8 * i) v)) [0..<usz] in if big then rev le else le)"

lemma encode_sample_length [simp]: "length (encode_sample usz big v) = usz"
  by (simp add: encode_sample_def Let_def)

lemma sample_bytes_encode:
  "sample_bytes (encode_sample usz big v @ rest) usz big
     = map (\<lambda>i. ucast (drop_bit (8 * i) v)) [0..<usz]"
  by (simp add: sample_bytes_def encode_sample_def Let_def)

lemma read_unsigned_encode:
  assumes "usz \<le> 8"
  shows "read_unsigned_sample (encode_sample usz big v @ rest) usz big = Inr (take_bit (8 * usz) v)"
proof -
  obtain w where w: "read_unsigned_sample (encode_sample usz big v @ rest) usz big = Inr w"
    "\<forall>k. bit w k \<longleftrightarrow> k < 8 * usz \<and>
      bit (sample_bytes (encode_sample usz big v @ rest) usz big ! (k div 8)) (k mod 8)"
    using read_unsigned_bits [of usz "encode_sample usz big v @ rest" big] assms by auto
  have "bit w k \<longleftrightarrow> bit (take_bit (8 * usz) v) k" for k
  proof (cases "k < 8 * usz")
    case True
    then have "k div 8 < usz" by auto
    with True w(2) show ?thesis
      by (simp add: sample_bytes_encode bit_ucast_iff bit_drop_bit_eq bit_take_bit_iff)
  qed (use w(2) in \<open>simp add: bit_take_bit_iff\<close>)
  then have "w = take_bit (8 * usz) v" by (simp add: bit_eq_iff)
  with w(1) show ?thesis by simp
qed

lemma sign_extend:
  assumes "0 < n" "n \<le> 64"
  shows "(if n < 64 \<and> take_bit n v AND push_bit (n - 1) 1 \<noteq> 0
     then take_bit n v OR NOT (push_bit n 1 - 1) else take_bit n (v :: u64)) = signed_take_bit (n - 1) v"
proof -
  have test: "take_bit n v AND push_bit (n - 1) 1 \<noteq> 0 \<longleftrightarrow> bit v (n - 1)"
    using assms by (simp add: and_exp_eq_0_iff_not_bit bit_take_bit_iff)
  have mask: "push_bit n 1 - 1 = (mask n :: u64)"
    by (simp add: mask_eq_exp_minus_1)
  have bits: "bit (if n < 64 \<and> bit v (n - 1) then take_bit n v OR NOT (mask n) else take_bit n v) k
      \<longleftrightarrow> bit (signed_take_bit (n - 1) v) k" if "k < 64" for k
  proof -
    consider "k < n - 1" | "k = n - 1" | "n \<le> k" by linarith
    then show ?thesis
      by cases (use assms that in \<open>auto simp: bit_or_iff bit_not_iff bit_mask_iff bit_take_bit_iff
        bit_signed_take_bit_iff min_def\<close>)
  qed
  show ?thesis unfolding test mask by (intro bit_word_eqI bits) simp
qed


lemma signed_take_bit_word_of_int:
  fixes x :: int
  assumes "n < 64" "- (2 ^ n) \<le> x" "x < 2 ^ n"
  shows "signed_take_bit n (word_of_int x :: u64) = word_of_int x" "sint (word_of_int x :: u64) = x"
proof -
  have x: "signed_take_bit n x = x"
    using assms by (simp add: signed_take_bit_int_eq_self)
  have high: "bit x k \<longleftrightarrow> bit x n" if "n \<le> k" for k
    using arg_cong [OF x, of "\<lambda>y. bit y k"] that by (simp add: bit_signed_take_bit_iff min_def)
  then show "signed_take_bit n (word_of_int x :: u64) = word_of_int x"
  proof (intro bit_word_eqI)
    fix k
    assume "k < LENGTH(64)"
    then show "bit (signed_take_bit n (word_of_int x :: u64)) k \<longleftrightarrow> bit (word_of_int x :: u64) k"
      using assms(1) high [of k]
      by (cases "n \<le> k") (simp_all add: bit_signed_take_bit_iff bit_word_of_int_iff min_def)
  qed
  have "(2 :: int) ^ n \<le> 2 ^ 63" using assms(1) by (intro power_increasing) auto
  then have "- (2 ^ 63) \<le> x" "x < 2 ^ 63" using assms(2,3) by linarith+
  then show "sint (word_of_int x :: u64) = x"
    by (simp add: sint_sbintrunc' signed_take_bit_int_eq_self)
qed

definition signed_range :: "nat \<Rightarrow> int \<Rightarrow> bool" where
  "signed_range usz x \<longleftrightarrow> - (2 ^ (8 * usz - 1)) \<le> x \<and> x < 2 ^ (8 * usz - 1)"

lemma read_signed_encode:
  assumes "0 < usz" "usz \<le> 8" "signed_range usz x"
  shows "read_signed_sample (encode_sample usz big (word_of_int x) @ rest) usz big = Inr (word_of_int x)"
proof -
  have "read_signed_sample (encode_sample usz big (word_of_int x) @ rest) usz big
      = Inr (signed_take_bit (8 * usz - 1) (word_of_int x))"
    using sign_extend [of "8 * usz" "word_of_int x"] assms(1,2)
    unfolding read_signed_sample_def read_unsigned_encode [OF assms(2)] ebind_simps Let_def
      mult.commute [of usz 8]
    by (simp del: push_bit_of_1)
  then show ?thesis
    using signed_take_bit_word_of_int(1) [of "8 * usz - 1" x] assms by (simp add: signed_range_def)
qed

text \<open>C32: Sample round trip. An integer sample of 1 to 8 bytes in either byte order is read
  back exactly, unsigned over the whole range of its width and signed with its sign, whatever
  follows it in the buffer.\<close>

theorem analog_sample_roundtrip:
  assumes "0 < usz" "usz \<le> 8" "0 \<le> u" "u < 2 ^ (8 * usz)"
    and "- (2 ^ (8 * usz - 1)) \<le> x" "x < 2 ^ (8 * usz - 1)"
  shows "\<exists>v w. read_unsigned_sample (encode_sample usz big (word_of_int u) @ rest) usz big = Inr v
    \<and> uint v = u
    \<and> read_signed_sample (encode_sample usz big (word_of_int x) @ rest) usz big = Inr w \<and> sint w = x"
proof (intro exI conjI)
  show "read_unsigned_sample (encode_sample usz big (word_of_int u) @ rest) usz big
      = Inr (take_bit (8 * usz) (word_of_int u))"
    using assms(2) by (rule read_unsigned_encode)
  have "(2 :: int) ^ (8 * usz) \<le> 2 ^ 64" using assms(2) by (intro power_increasing) auto
  then have u: "take_bit 64 u = u" "take_bit (8 * usz) u = u"
    using assms(3,4) by (simp_all add: take_bit_int_eq_self)
  then show "uint (take_bit (8 * usz) (word_of_int u :: u64)) = u"
    by (simp add: unsigned_take_bit_eq uint_word_of_int_eq)
  show "read_signed_sample (encode_sample usz big (word_of_int x) @ rest) usz big = Inr (word_of_int x)"
    by (rule read_signed_encode) (use assms in \<open>simp_all add: signed_range_def\<close>)
  show "sint (word_of_int x :: u64) = x"
    using signed_take_bit_word_of_int(2) [OF _ assms(5,6)] assms(2) by simp
qed

lemma analog_sample_roundtrip_witness:
  "\<exists>v w. read_unsigned_sample (encode_sample 3 True (word_of_int 70000) @ []) 3 True = Inr v
    \<and> uint v = 70000
    \<and> read_signed_sample (encode_sample 3 True (word_of_int (- 5)) @ []) 3 True = Inr w \<and> sint w = - 5"
  by (rule analog_sample_roundtrip) simp_all


section \<open>Whole packets\<close>

lemma convert_signed:
  assumes "\<not> is_float enc" "is_signed enc" "0 < enc_unitsize enc" "enc_unitsize enc \<le> 8"
    "\<forall>x \<in> set xs. signed_range (unat (enc_unitsize enc)) x"
  shows "convert_samples fl enc (length xs)
      (concat (map (\<lambda>x. encode_sample (unat (enc_unitsize enc)) (is_bigendian enc) (word_of_int x)) xs)) out
    = Inr (SR_OK, out @ map (\<lambda>x. affine fl (scale enc) (offset enc) (of_signed fl (word_of_int x))) xs)"
  using assms(5)
proof (induction xs arbitrary: out)
  case Nil
  then show ?case by simp
next
  case (Cons x xs)
  have "0 < unat (enc_unitsize enc)" "unat (enc_unitsize enc) \<le> 8"
    using assms(3,4) by (simp_all add: word_less_nat_alt word_le_nat_alt)
  with Cons assms(1,2) show ?case
    by (simp add: read_value_def Let_def read_signed_encode)
qed


definition demo_encoding :: sr_analog_encoding where
  "demo_encoding = \<lparr>enc_unitsize = 2, is_signed = True, is_float = False, is_bigendian = True,
     digits = 0, is_digits_decimal = True, scale = \<lparr>rat_p = 1, rat_q = 1\<rparr>,
     offset = \<lparr>rat_p = 0, rat_q = 1\<rparr>\<rparr>"

definition demo_analog :: sr_datafeed_analog where
  "demo_analog = \<lparr>analog_data = Some [0xff, 0xfe, 0x01, 0x00], num_samples = 1,
     encoding = Some demo_encoding, meaning = Some \<lparr>mq = 0, unit = 10000, mqflags = 0, channels = [0, 1]\<rparr>,
     spec_digits = 0\<rparr>"

definition demo_float :: "(int, int) float_ops" where
  "demo_float = \<lparr>of_unsigned = uint, of_signed = sint, of_float_bits = uint, of_double_bits = uint,
     affine = (\<lambda>s o' v. v * sint (rat_p s) + sint (rat_p o'))\<rparr>"


end
