(* ===== verification/Feed_Queue.thy ===== *)
theory Feed_Queue
  imports Analog
begin

text \<open>
  The sample queues of \<open>libsigrok/input/feed_queue.c\<close> between an input module and the
  session: a logic queue, which collects samples of \<open>unit_size\<close> bytes and can transpose
  them into per-channel blocks of 64 samples, and an analog queue of values. Both write into a
  buffer of fixed size and send a packet when it is full. A write outside the buffer is a fault.
  \<open>sr_session_send\<close> is the parameter \<open>send\<close>: its status for a packet, given the
  packets accepted before.
\<close>

section \<open>Buffers\<close>

text \<open>\<open>memcpy\<close> to an offset of a buffer, and the first bytes of one.\<close>

definition blit :: "'a list \<Rightarrow> nat \<Rightarrow> 'a list \<Rightarrow> fault + 'a list" where
  "blit buf off xs =
     (if off + length xs \<le> length buf
      then Inr (take off buf @ xs @ drop (off + length xs) buf) else Inl OutOfBounds)"

definition first_bytes :: "nat \<Rightarrow> 'a list \<Rightarrow> fault + 'a list" where
  "first_bytes n buf = (if n \<le> length buf then Inr (take n buf) else Inl OutOfBounds)"

lemma blit_take:
  "off + length xs \<le> length buf \<Longrightarrow> \<exists>buf'. blit buf off xs = Inr buf' \<and> length buf' = length buf
     \<and> take (off + length xs) buf' = take off buf @ xs"
  by (simp add: blit_def)

section \<open>The logic queue\<close>

abbreviation (input) LA_CROSS_DATA :: int where "LA_CROSS_DATA \<equiv> 0"

record datafeed_logic =
  format :: int
  unitsize :: nat
  data :: "u8 list"

record feed_queue_logic =
  unit_size :: nat
  channel_count :: nat
  alloc_count :: nat
  fill_count :: nat
  data_bytes :: "u8 list"
  logic_format :: int
  logic_unitsize :: nat

type_synonym 'p link = "'p list \<Rightarrow> 'p \<Rightarrow> int"

text \<open>\<open>sr_session_send\<close> of a packet: the outbox keeps the packets it accepted.\<close>

definition send_packet :: "'p link \<Rightarrow> 'p \<Rightarrow> 'p list \<Rightarrow> int \<times> 'p list" where
  "send_packet send p out = (let ret = send out p in (ret, if ret = SR_OK then out @ [p] else out))"

definition feed_queue_logic_alloc :: "bool \<Rightarrow> nat \<Rightarrow> nat \<Rightarrow> feed_queue_logic option" where
  "feed_queue_logic_alloc mem sample_count usize =
     (if \<not> mem then None
      else Some \<lparr>unit_size = usize, channel_count = 0, alloc_count = sample_count,
        fill_count = 0, data_bytes = replicate (sample_count * usize) 0,
        logic_format = 0, logic_unitsize = usize\<rparr>)"

definition feed_queue_logic_alloc_cross_data ::
  "bool \<Rightarrow> nat \<Rightarrow> nat \<Rightarrow> nat \<Rightarrow> feed_queue_logic option" where
  "feed_queue_logic_alloc_cross_data mem sample_count usize nch =
     (case feed_queue_logic_alloc mem sample_count usize of
        None \<Rightarrow> None
      | Some q \<Rightarrow>
          let q1 = q\<lparr>channel_count := nch\<rparr>;
              q2 = (if channel_count q1 \<noteq> 0 \<and> 64 \<le> alloc_count q1
                    then q1\<lparr>alloc_count := alloc_count q1 - alloc_count q1 mod 64\<rparr> else q1) in
          Some (if channel_count q2 \<noteq> 0 \<and> alloc_count q2 < 64 then q2\<lparr>alloc_count := 64\<rparr> else q2))"

text \<open>
  \<open>pack_logic_cross_data\<close>: for every sample the loop over the channels sets the bit of the
  sample in the channel's block of 8 bytes.
\<close>

fun pack_channels :: "feed_queue_logic \<Rightarrow> nat \<Rightarrow> nat list \<Rightarrow> u8 list \<Rightarrow> fault + u8 list" where
  "pack_channels q s [] cross = Inr cross"
| "pack_channels q s (ch # chs) cross =
     (let block = s div 64; bit_byte = (s mod 64) div 8; bit_mask = push_bit (s mod 64 mod 8) 1;
          block_base = block * channel_count q * 8; k = block_base + ch * 8 + bit_byte in
      ebind (rd (data_bytes q) (s * unit_size q + ch div 8)) (\<lambda>v.
      if bit v (ch mod 8)
      then ebind (rd cross k) (\<lambda>old. ebind (wr cross k (old OR bit_mask)) (pack_channels q s chs))
      else pack_channels q s chs cross))"

fun pack_samples :: "feed_queue_logic \<Rightarrow> nat list \<Rightarrow> u8 list \<Rightarrow> fault + u8 list" where
  "pack_samples q [] cross = Inr cross"
| "pack_samples q (s # ss) cross =
     ebind (pack_channels q s [0..<channel_count q] cross) (pack_samples q ss)"

definition pack_logic_cross_data :: "feed_queue_logic \<Rightarrow> fault + u8 list option" where
  "pack_logic_cross_data q =
     (if channel_count q = 0 \<or> unit_size q = 0 \<or> fill_count q = 0 then Inr None
      else
        let block_count = (fill_count q + 63) div 64;
            cross_len = block_count * channel_count q * 8 in
        ebind (pack_samples q [0..<fill_count q] (replicate cross_len 0)) (\<lambda>cross. Inr (Some cross)))"

definition feed_queue_logic_flush :: "datafeed_logic link \<Rightarrow>
    feed_queue_logic \<times> datafeed_logic list \<Rightarrow> fault + int \<times> feed_queue_logic \<times> datafeed_logic list" where
  "feed_queue_logic_flush send qo =
     (case qo of (q, out) \<Rightarrow>
      if fill_count q = 0 then Inr (SR_OK, q, out)
      else
        ebind (if channel_count q \<noteq> 0 then
                 ebind (pack_logic_cross_data q) (\<lambda>cross.
                 Inr (map_option (\<lambda>c. (c, q\<lparr>logic_format := LA_CROSS_DATA, logic_unitsize := 1\<rparr>)) cross))
               else
                 ebind (first_bytes (fill_count q * unit_size q) (data_bytes q)) (\<lambda>d.
                 Inr (Some (d, q)))) (\<lambda>payload.
        case payload of
          None \<Rightarrow> Inr (SR_ERR_MALLOC, q, out)
        | Some (d, q1) \<Rightarrow>
            let (ret, out') = send_packet send
                  \<lparr>format = logic_format q1, unitsize = logic_unitsize q1, data = d\<rparr> out in
            if ret \<noteq> SR_OK then Inr (ret, q1, out')
            else Inr (SR_OK, q1\<lparr>fill_count := 0\<rparr>, out')))"

text \<open>The loop of \<open>feed_queue_logic_submit_one\<close>; \<open>off\<close> is \<open>wrptr\<close>.\<close>

fun submit_one_loop :: "datafeed_logic link \<Rightarrow> u8 list \<Rightarrow> nat \<Rightarrow> nat \<Rightarrow>
    feed_queue_logic \<times> datafeed_logic list \<Rightarrow> fault + int \<times> feed_queue_logic \<times> datafeed_logic list" where
  "submit_one_loop send d 0 off qo = Inr (SR_OK, qo)"
| "submit_one_loop send d (Suc n) off (q, out) =
     ebind (first_bytes (unit_size q) d) (\<lambda>src.
     ebind (blit (data_bytes q) off src) (\<lambda>bytes.
     let q1 = q\<lparr>data_bytes := bytes, fill_count := fill_count q + 1\<rparr> in
     if fill_count q1 = alloc_count q1 then
       ebind (feed_queue_logic_flush send (q1, out)) (\<lambda>(ret, qo').
       if ret \<noteq> SR_OK then Inr (ret, qo') else submit_one_loop send d n 0 qo')
     else submit_one_loop send d n (off + unit_size q) (q1, out)))"

definition feed_queue_logic_submit_one :: "datafeed_logic link \<Rightarrow> u8 list \<Rightarrow> nat \<Rightarrow>
    feed_queue_logic \<times> datafeed_logic list \<Rightarrow> fault + int \<times> feed_queue_logic \<times> datafeed_logic list" where
  "feed_queue_logic_submit_one send d repeat_count qo =
     submit_one_loop send d repeat_count (fill_count (fst qo) * unit_size (fst qo)) qo"

text \<open>
  The loop of \<open>feed_queue_logic_submit_many\<close>, with fuel: a queue allocated for no samples
  would copy nothing for ever, and None says that the fuel ran out. \<open>space\<close> is a difference
  of \<open>size_t\<close> values and wraps.
\<close>

definition size_diff :: "nat \<Rightarrow> nat \<Rightarrow> nat" where
  "size_diff a b = (if b \<le> a then a - b else 2 ^ 64 + a - b)"

fun submit_many_loop :: "nat \<Rightarrow> datafeed_logic link \<Rightarrow> u8 list \<Rightarrow> nat \<Rightarrow> nat \<Rightarrow>
    feed_queue_logic \<times> datafeed_logic list \<Rightarrow>
    (fault + int \<times> feed_queue_logic \<times> datafeed_logic list) option" where
  "submit_many_loop fuel send d 0 off qo = Some (Inr (SR_OK, qo))"
| "submit_many_loop 0 send d (Suc n) off qo = None"
| "submit_many_loop (Suc fuel) send d (Suc n) off (q, out) =
     (let space = size_diff (alloc_count q) (fill_count q);
          copy_count = (if space < Suc n then space else Suc n) in
      case ebind (first_bytes (copy_count * unit_size q) d) (blit (data_bytes q) off) of
        Inl f \<Rightarrow> Some (Inl f)
      | Inr bytes \<Rightarrow>
          let q1 = q\<lparr>data_bytes := bytes, fill_count := fill_count q + copy_count\<rparr>;
              d' = drop (copy_count * unit_size q) d in
          if fill_count q1 = alloc_count q1 then
            (case feed_queue_logic_flush send (q1, out) of
               Inl f \<Rightarrow> Some (Inl f)
             | Inr (ret, qo') \<Rightarrow>
                 if ret \<noteq> SR_OK then Some (Inr (ret, qo'))
                 else submit_many_loop fuel send d' (Suc n - copy_count) 0 qo')
          else submit_many_loop fuel send d' (Suc n - copy_count) (off + copy_count * unit_size q) (q1, out))"

definition feed_queue_logic_submit_many :: "nat \<Rightarrow> datafeed_logic link \<Rightarrow> u8 list \<Rightarrow> nat \<Rightarrow>
    feed_queue_logic \<times> datafeed_logic list \<Rightarrow>
    (fault + int \<times> feed_queue_logic \<times> datafeed_logic list) option" where
  "feed_queue_logic_submit_many fuel send d samples_count qo =
     submit_many_loop fuel send d samples_count (fill_count (fst qo) * unit_size (fst qo)) qo"

text \<open>\<open>std_session_send_df_trigger\<close> is the parameter \<open>send_trigger\<close>.\<close>

definition feed_queue_logic_send_trigger :: "datafeed_logic link \<Rightarrow> (datafeed_logic list \<Rightarrow> int) \<Rightarrow>
    feed_queue_logic \<times> datafeed_logic list \<Rightarrow> fault + int \<times> feed_queue_logic \<times> datafeed_logic list" where
  "feed_queue_logic_send_trigger send send_trigger qo =
     ebind (feed_queue_logic_flush send qo) (\<lambda>(ret, q, out).
     if ret \<noteq> SR_OK then Inr (ret, q, out)
     else let ret' = send_trigger out in
       if ret' \<noteq> SR_OK then Inr (ret', q, out) else Inr (SR_OK, q, out))"


section \<open>The analog queue\<close>

text \<open>Values are of a type of their own, \<open>float\<close> in the code.\<close>

record 'v analog_packet =
  sample_values :: "'v list"
  packet_encoding :: sr_analog_encoding
  packet_meaning :: sr_analog_meaning

record 'v feed_queue_analog =
  a_alloc_count :: nat
  a_fill_count :: nat
  data_values :: "'v list"
  a_encoding :: sr_analog_encoding
  a_meaning :: sr_analog_meaning

definition feed_queue_analog_alloc :: "bool \<Rightarrow> 'v \<Rightarrow> nat \<Rightarrow> int \<Rightarrow> nat \<Rightarrow> 'v feed_queue_analog option" where
  "feed_queue_analog_alloc mem zero sample_count dgts ch =
     (if \<not> mem then None
      else
        let a = sr_analog_init dgts in
        Some \<lparr>a_alloc_count = sample_count, a_fill_count = 0, data_values = replicate sample_count zero,
          a_encoding = (the (encoding a))\<lparr>is_signed := True\<rparr>,
          a_meaning = (the (meaning a))\<lparr>channels := [ch]\<rparr>\<rparr>)"

definition feed_queue_analog_flush :: "'v analog_packet link \<Rightarrow>
    'v feed_queue_analog \<times> 'v analog_packet list \<Rightarrow>
    fault + int \<times> 'v feed_queue_analog \<times> 'v analog_packet list" where
  "feed_queue_analog_flush send qo =
     (case qo of (q, out) \<Rightarrow>
      if a_fill_count q = 0 then Inr (SR_OK, q, out)
      else
        ebind (first_bytes (a_fill_count q) (data_values q)) (\<lambda>d.
        let (ret, out') = send_packet send
              \<lparr>sample_values = d, packet_encoding = a_encoding q, packet_meaning = a_meaning q\<rparr> out in
        if ret \<noteq> SR_OK then Inr (ret, q, out') else Inr (SR_OK, q\<lparr>a_fill_count := 0\<rparr>, out')))"

definition feed_queue_analog_mq_unit :: "'v analog_packet link \<Rightarrow> int \<Rightarrow> u32 \<Rightarrow> int \<Rightarrow>
    ('v feed_queue_analog \<times> 'v analog_packet list) option \<Rightarrow>
    fault + int \<times> ('v feed_queue_analog \<times> 'v analog_packet list) option" where
  "feed_queue_analog_mq_unit send m fl u qo =
     (case qo of
        None \<Rightarrow> Inr (SR_ERR_ARG, None)
      | Some q0 \<Rightarrow> ebind (feed_queue_analog_flush send q0) (\<lambda>(ret, q, out).
          if ret \<noteq> SR_OK then Inr (ret, Some (q, out))
          else Inr (SR_OK, Some (q\<lparr>a_meaning := (a_meaning q)\<lparr>mq := m, mqflags := fl, unit := u\<rparr>\<rparr>, out))))"

definition feed_queue_analog_scale_offset :: "'v analog_packet link \<Rightarrow> sr_rational option \<Rightarrow>
    sr_rational option \<Rightarrow> ('v feed_queue_analog \<times> 'v analog_packet list) option \<Rightarrow>
    fault + int \<times> ('v feed_queue_analog \<times> 'v analog_packet list) option" where
  "feed_queue_analog_scale_offset send sc off qo =
     (case qo of
        None \<Rightarrow> Inr (SR_ERR_ARG, None)
      | Some q0 \<Rightarrow> ebind (feed_queue_analog_flush send q0) (\<lambda>(ret, q, out).
          if ret \<noteq> SR_OK then Inr (ret, Some (q, out))
          else
            let e1 = (case sc of None \<Rightarrow> a_encoding q | Some r \<Rightarrow> (a_encoding q)\<lparr>scale := r\<rparr>);
                e2 = (case off of None \<Rightarrow> e1 | Some r \<Rightarrow> e1\<lparr>offset := r\<rparr>) in
            Inr (SR_OK, Some (q\<lparr>a_encoding := e2\<rparr>, out))))"

fun feed_queue_analog_submit_one :: "'v analog_packet link \<Rightarrow> 'v \<Rightarrow> nat \<Rightarrow>
    'v feed_queue_analog \<times> 'v analog_packet list \<Rightarrow>
    fault + int \<times> 'v feed_queue_analog \<times> 'v analog_packet list" where
  "feed_queue_analog_submit_one send x 0 qo = Inr (SR_OK, qo)"
| "feed_queue_analog_submit_one send x (Suc n) (q, out) =
     ebind (wr (data_values q) (a_fill_count q) x) (\<lambda>vals.
     let q1 = q\<lparr>data_values := vals, a_fill_count := a_fill_count q + 1\<rparr> in
     if a_fill_count q1 = a_alloc_count q1 then
       ebind (feed_queue_analog_flush send (q1, out)) (\<lambda>(ret, qo').
       if ret \<noteq> SR_OK then Inr (ret, qo') else feed_queue_analog_submit_one send x n qo')
     else feed_queue_analog_submit_one send x n (q1, out))"

section \<open>The contract of a queue\<close>

text \<open>A series of submissions that stops at the first failure, and the stream it stands for.\<close>

fun submit_all :: "('a list \<Rightarrow> nat \<Rightarrow> 's \<Rightarrow> fault + int \<times> 's) \<Rightarrow> ('a list \<times> nat) list \<Rightarrow> 's \<Rightarrow> fault + int \<times> 's" where
  "submit_all submit [] qo = Inr (SR_OK, qo)"
| "submit_all submit ((x, n) # xs) qo =
     ebind (submit x n qo) (\<lambda>(r, qo'). if r \<noteq> SR_OK then Inr (r, qo') else submit_all submit xs qo')"

definition stream :: "('a list \<times> nat) list \<Rightarrow> 'a list" where
  "stream xs = concat (map (\<lambda>(x, n). concat (replicate n x)) xs)"

text \<open>
  What both queues promise, over the stream they carry: what was handed in is what was sent
  followed by what is still pending, in order, and a flush leaves nothing pending. \<open>submit\<close>
  takes the items of one sample and how often to repeat it.
\<close>

locale sample_queue =
  fixes inv :: "'q \<Rightarrow> bool"
    and pending :: "'q \<Rightarrow> 'a list"
    and sent :: "'p list \<Rightarrow> 'a list"
    and item_ok :: "'q \<Rightarrow> 'a list \<Rightarrow> bool"
    and submit :: "'a list \<Rightarrow> nat \<Rightarrow> 'q \<times> 'p list \<Rightarrow> fault + int \<times> 'q \<times> 'p list"
    and flush :: "'q \<times> 'p list \<Rightarrow> fault + int \<times> 'q \<times> 'p list"
  assumes submit_law: "inv q \<Longrightarrow> item_ok q x \<Longrightarrow> \<exists>r q' out'. submit x n (q, out) = Inr (r, q', out')
      \<and> (r = SR_OK \<longrightarrow> inv q' \<and> item_ok q' = item_ok q
          \<and> sent out' @ pending q' = sent out @ pending q @ concat (replicate n x))"
    and flush_law: "inv q \<Longrightarrow> \<exists>r q' out'. flush (q, out) = Inr (r, q', out')
      \<and> (r = SR_OK \<longrightarrow> inv q' \<and> item_ok q' = item_ok q \<and> pending q' = []
          \<and> sent out' = sent out @ pending q)"
begin

lemma submit_all_stream:
  "inv q \<Longrightarrow> \<forall>(x, n) \<in> set xs. item_ok q x \<Longrightarrow>
   \<exists>r q' out'. submit_all submit xs (q, out) = Inr (r, q', out')
     \<and> (r = SR_OK \<longrightarrow> inv q' \<and> item_ok q' = item_ok q
         \<and> sent out' @ pending q' = sent out @ pending q @ stream xs)"
proof (induction xs arbitrary: q out)
  case Nil
  then show ?case by (simp add: stream_def)
next
  case (Cons xn xs)
  obtain x n where xn: "xn = (x, n)" by fastforce
  obtain r q1 out1 where s: "submit x n (q, out) = Inr (r, q1, out1)"
    "r = SR_OK \<longrightarrow> inv q1 \<and> item_ok q1 = item_ok q
       \<and> sent out1 @ pending q1 = sent out @ pending q @ concat (replicate n x)"
    using submit_law [OF Cons.prems(1), of x n out] Cons.prems(2) xn by auto
  show ?case
  proof (cases "r = SR_OK")
    case True
    with s have q1: "inv q1" "\<forall>(x, n) \<in> set xs. item_ok q1 x" using Cons.prems(2) by auto
    obtain r2 q2 out2 where "submit_all submit xs (q1, out1) = Inr (r2, q2, out2)"
      "r2 = SR_OK \<longrightarrow> inv q2 \<and> item_ok q2 = item_ok q1
         \<and> sent out2 @ pending q2 = sent out1 @ pending q1 @ stream xs"
      using Cons.IH [OF q1, of out1] by auto
    with s True xn show ?thesis by (auto simp: stream_def)
  next
    case False
    with s xn show ?thesis by simp
  qed
qed

lemma submit_all_flush:
  assumes "inv q" "\<forall>(x, n) \<in> set xs. item_ok q x"
    and "submit_all submit xs (q, out) = Inr (SR_OK, q1, out1)" "flush (q1, out1) = Inr (SR_OK, q2, out2)"
  shows "sent out2 = sent out @ pending q @ stream xs \<and> pending q2 = []"
proof -
  from submit_all_stream [OF assms(1,2), of out] assms(3)
  have "inv q1" "sent out1 @ pending q1 = sent out @ pending q @ stream xs" by auto
  with flush_law [of q1 out1] assms(4) show ?thesis by auto
qed

end


section \<open>The two queues keep the contract\<close>

definition logic_inv :: "feed_queue_logic \<Rightarrow> bool" where
  "logic_inv q \<longleftrightarrow> channel_count q = 0 \<and> fill_count q < alloc_count q
     \<and> length (data_bytes q) = alloc_count q * unit_size q"

definition logic_pending :: "feed_queue_logic \<Rightarrow> u8 list" where
  "logic_pending q = take (fill_count q * unit_size q) (data_bytes q)"

definition logic_sent :: "datafeed_logic list \<Rightarrow> u8 list" where
  "logic_sent out = concat (map data out)"

definition logic_item :: "feed_queue_logic \<Rightarrow> u8 list \<Rightarrow> bool" where
  "logic_item q x \<longleftrightarrow> length x = unit_size q"

lemma logic_flush_law:
  assumes "channel_count q = 0" "fill_count q \<le> alloc_count q" "0 < alloc_count q"
    "length (data_bytes q) = alloc_count q * unit_size q"
  shows "\<exists>r q' out'. feed_queue_logic_flush send (q, out) = Inr (r, q', out')
    \<and> (r = SR_OK \<longrightarrow> logic_inv q' \<and> logic_item q' = logic_item q \<and> fill_count q' = 0
        \<and> unit_size q' = unit_size q \<and> alloc_count q' = alloc_count q
        \<and> logic_sent out' = logic_sent out @ logic_pending q)"
proof (cases "fill_count q = 0")
  case True
  then show ?thesis using assms
    by (simp add: feed_queue_logic_flush_def logic_inv_def logic_pending_def)
next
  case False
  have "fill_count q * unit_size q \<le> length (data_bytes q)" using assms(2,4) by simp
  with False assms show ?thesis
    by (auto simp: feed_queue_logic_flush_def first_bytes_def send_packet_def Let_def logic_inv_def
        logic_item_def fun_eq_iff logic_sent_def logic_pending_def)
qed

lemma logic_store:
  assumes "logic_inv q" "length x = unit_size q"
  obtains bytes where "blit (data_bytes q) (fill_count q * unit_size q) x = Inr bytes"
    "length bytes = length (data_bytes q)"
    "take (Suc (fill_count q) * unit_size q) bytes = logic_pending q @ x"
proof -
  have "Suc (fill_count q) * unit_size q \<le> alloc_count q * unit_size q"
    using assms(1) by (intro mult_le_mono1) (simp add: logic_inv_def)
  then have "fill_count q * unit_size q + length x \<le> length (data_bytes q)"
    using assms by (simp add: logic_inv_def)
  from blit_take [OF this] that show thesis
    using assms(2) by (auto simp: logic_pending_def add.commute)
qed

lemma submit_one_loop_law:
  "logic_inv q \<Longrightarrow> logic_item q x \<Longrightarrow>
   \<exists>r q' out'. submit_one_loop send x n (fill_count q * unit_size q) (q, out) = Inr (r, q', out')
     \<and> (r = SR_OK \<longrightarrow> logic_inv q' \<and> logic_item q' = logic_item q
         \<and> logic_sent out' @ logic_pending q' = logic_sent out @ logic_pending q @ concat (replicate n x))"
proof (induction n arbitrary: q out)
  case 0
  then show ?case by simp
next
  case (Suc n)
  then have x: "length x = unit_size q" by (simp add: logic_item_def)
  from logic_store [OF Suc.prems(1) this] obtain bytes where b:
    "blit (data_bytes q) (fill_count q * unit_size q) x = Inr bytes"
    "length bytes = length (data_bytes q)"
    "take (Suc (fill_count q) * unit_size q) bytes = logic_pending q @ x" by blast
  let ?q = "q\<lparr>data_bytes := bytes, fill_count := fill_count q + 1\<rparr>"
  have step: "submit_one_loop send x (Suc n) (fill_count q * unit_size q) (q, out) =
      (if fill_count ?q = alloc_count ?q then
         ebind (feed_queue_logic_flush send (?q, out)) (\<lambda>(ret, qo').
         if ret \<noteq> SR_OK then Inr (ret, qo') else submit_one_loop send x n 0 qo')
       else submit_one_loop send x n (fill_count ?q * unit_size ?q) (?q, out))"
    using x b(1) by (simp add: first_bytes_def Let_def add.commute)
  have pend: "logic_pending ?q = logic_pending q @ x"
    using b(3) by (simp add: logic_pending_def)
  have item: "logic_item ?q = logic_item q" by (simp add: logic_item_def fun_eq_iff)
  show ?case
  proof (cases "fill_count ?q = alloc_count ?q")
    case True
    have "channel_count ?q = 0" "fill_count ?q \<le> alloc_count ?q" "0 < alloc_count ?q"
      "length (data_bytes ?q) = alloc_count ?q * unit_size ?q"
      using Suc.prems(1) b(2) by (auto simp: logic_inv_def)
    from logic_flush_law [OF this, of send out] obtain r q1 out1 where f:
      "feed_queue_logic_flush send (?q, out) = Inr (r, q1, out1)"
      "r = SR_OK \<longrightarrow> logic_inv q1 \<and> logic_item q1 = logic_item ?q \<and> fill_count q1 = 0
        \<and> logic_sent out1 = logic_sent out @ logic_pending ?q"
      by auto
    show ?thesis
    proof (cases "r = SR_OK")
      case ok: True
      with f item have q1: "logic_inv q1" "logic_item q1 x" "fill_count q1 = 0"
        using Suc.prems(2) by auto
      from Suc.IH [OF q1(1,2), of out1] q1(3) ok f item pend step True show ?thesis
        by (auto simp: logic_pending_def [of q1])
    next
      case False
      with f step True show ?thesis by simp
    qed
  next
    case False
    then have "logic_inv ?q" using Suc.prems(1) b(2) by (auto simp: logic_inv_def)
    moreover have "logic_item ?q x" using Suc.prems(2) item by simp
    ultimately show ?thesis
      using Suc.IH [of ?q out] step False item pend by auto
  qed
qed

interpretation logic_q: sample_queue logic_inv logic_pending logic_sent logic_item
  "feed_queue_logic_submit_one send" "feed_queue_logic_flush send" for send
proof (unfold_locales, goal_cases)
  case (1 q x n out)
  then show ?case using submit_one_loop_law [of q x send n out]
    by (simp add: feed_queue_logic_submit_one_def)
next
  case (2 q out)
  then have "channel_count q = 0" "fill_count q \<le> alloc_count q" "0 < alloc_count q"
    "length (data_bytes q) = alloc_count q * unit_size q"
    by (auto simp: logic_inv_def)
  from logic_flush_law [OF this, of send out] show ?case
    by (auto simp: logic_pending_def)
qed

definition analog_inv :: "'v feed_queue_analog \<Rightarrow> bool" where
  "analog_inv q \<longleftrightarrow> a_fill_count q < a_alloc_count q \<and> length (data_values q) = a_alloc_count q"

definition analog_pending :: "'v feed_queue_analog \<Rightarrow> 'v list" where
  "analog_pending q = take (a_fill_count q) (data_values q)"

definition analog_sent :: "'v analog_packet list \<Rightarrow> 'v list" where
  "analog_sent out = concat (map sample_values out)"

text \<open>An item of the analog queue is one value.\<close>

definition analog_item :: "'v feed_queue_analog \<Rightarrow> 'v list \<Rightarrow> bool" where
  "analog_item q x \<longleftrightarrow> length x = 1"

definition submit_value :: "'v analog_packet link \<Rightarrow> 'v list \<Rightarrow> nat \<Rightarrow>
    'v feed_queue_analog \<times> 'v analog_packet list \<Rightarrow>
    fault + int \<times> 'v feed_queue_analog \<times> 'v analog_packet list" where
  "submit_value send x = feed_queue_analog_submit_one send (hd x)"

lemma analog_flush_law:
  assumes "a_fill_count q \<le> a_alloc_count q" "0 < a_alloc_count q"
    "length (data_values q) = a_alloc_count q"
  shows "\<exists>r q' out'. feed_queue_analog_flush send (q, out) = Inr (r, q', out')
    \<and> (r = SR_OK \<longrightarrow> analog_inv q' \<and> a_fill_count q' = 0
        \<and> analog_sent out' = analog_sent out @ analog_pending q)"
  using assms
  by (cases "a_fill_count q = 0")
    (auto simp: feed_queue_analog_flush_def first_bytes_def send_packet_def Let_def analog_inv_def
      analog_sent_def analog_pending_def)

lemma analog_submit_law:
  "analog_inv q \<Longrightarrow> \<exists>r q' out'. feed_queue_analog_submit_one send v n (q, out) = Inr (r, q', out')
     \<and> (r = SR_OK \<longrightarrow> analog_inv q'
         \<and> analog_sent out' @ analog_pending q' = analog_sent out @ analog_pending q @ replicate n v)"
proof (induction n arbitrary: q out)
  case 0
  then show ?case by simp
next
  case (Suc n)
  then have lt: "a_fill_count q < length (data_values q)" by (simp add: analog_inv_def)
  let ?q = "q\<lparr>data_values := (data_values q)[a_fill_count q := v], a_fill_count := a_fill_count q + 1\<rparr>"
  have pend: "analog_pending ?q = analog_pending q @ [v]"
    using lt by (simp add: analog_pending_def take_Suc_conv_app_nth)
  have step: "feed_queue_analog_submit_one send v (Suc n) (q, out) =
      (if a_fill_count ?q = a_alloc_count ?q then
         ebind (feed_queue_analog_flush send (?q, out)) (\<lambda>(ret, qo').
         if ret \<noteq> SR_OK then Inr (ret, qo') else feed_queue_analog_submit_one send v n qo')
       else feed_queue_analog_submit_one send v n (?q, out))"
    using lt by (simp add: Let_def)
  show ?case
  proof (cases "a_fill_count ?q = a_alloc_count ?q")
    case True
    have "a_fill_count ?q \<le> a_alloc_count ?q" "0 < a_alloc_count ?q"
      "length (data_values ?q) = a_alloc_count ?q"
      using Suc.prems by (auto simp: analog_inv_def)
    from analog_flush_law [OF this, of send out] obtain r q1 out1 where f:
      "feed_queue_analog_flush send (?q, out) = Inr (r, q1, out1)"
      "r = SR_OK \<longrightarrow> analog_inv q1 \<and> a_fill_count q1 = 0 \<and> analog_sent out1 = analog_sent out @ analog_pending ?q"
      by auto
    show ?thesis
    proof (cases "r = SR_OK")
      case ok: True
      with f have q1: "analog_inv q1" "analog_pending q1 = []" by (auto simp: analog_pending_def)
      from Suc.IH [OF q1(1), of out1] q1(2) ok f pend step True show ?thesis by auto
    next
      case False
      with f step True show ?thesis by simp
    qed
  next
    case False
    then have "analog_inv ?q" using Suc.prems by (auto simp: analog_inv_def)
    from Suc.IH [OF this, of out] step False pend show ?thesis by auto
  qed
qed

interpretation analog_q: sample_queue analog_inv analog_pending analog_sent analog_item
  "submit_value send" "feed_queue_analog_flush send" for send
proof (unfold_locales, goal_cases)
  case (1 q x n out)
  then obtain v where "x = [v]" by (auto simp: analog_item_def length_Suc_conv)
  moreover have "concat (replicate n [v]) = replicate n v" by (induction n) simp_all
  ultimately show ?case using analog_submit_law [OF 1(1), of send v n out]
    by (auto simp: submit_value_def analog_item_def fun_eq_iff)
next
  case (2 q out)
  then have "a_fill_count q \<le> a_alloc_count q" "0 < a_alloc_count q"
    "length (data_values q) = a_alloc_count q" by (auto simp: analog_inv_def)
  from analog_flush_law [OF this, of send out] show ?case
    by (auto simp: analog_pending_def analog_item_def fun_eq_iff)
qed


section \<open>Transposed data\<close>

text \<open>
  Where a bit of the transposed buffer comes from: bit \<open>b\<close> of byte \<open>k\<close>, with \<open>n\<close>
  channels, belongs to this sample and this channel.
\<close>

definition cross_sample :: "nat \<Rightarrow> nat \<Rightarrow> nat \<Rightarrow> nat" where
  "cross_sample n k b = (k div 8 div n) * 64 + (k mod 8) * 8 + b"

definition cross_channel :: "nat \<Rightarrow> nat \<Rightarrow> nat" where
  "cross_channel n k = (k div 8) mod n"

definition sample_bit :: "feed_queue_logic \<Rightarrow> nat \<Rightarrow> nat \<Rightarrow> bool" where
  "sample_bit q s ch = bit (data_bytes q ! (s * unit_size q + ch div 8)) (ch mod 8)"

lemma block_digits:
  assumes "(j :: nat) < 8" "b < 8" "s = d * 64 + j * 8 + b"
  shows "s div 64 = d" "s mod 64 div 8 = j" "s mod 64 mod 8 = b"
proof -
  from assms have lt: "j * 8 + b < 64" by simp
  with assms(3) show d: "s div 64 = d" by simp
  from d assms(3) have m: "s mod 64 = j * 8 + b"
    using minus_div_mult_eq_mod [of s 64] by simp
  from m assms(2) show "s mod 64 div 8 = j" "s mod 64 mod 8 = b" by simp_all
qed

lemma block_byte: "s mod 64 div 8 < (8 :: nat)"
  by (rule less_mult_imp_div_less) simp

lemma block_less: "s < n \<Longrightarrow> s div 64 < (n + 63) div (64 :: nat)"
proof -
  assume "s < n"
  then have "(s + 64) div 64 \<le> (n + 63) div 64" by (intro div_le_mono) simp
  then show ?thesis by simp
qed

lemma cross_index:
  assumes "m < n" "b < 8"
  shows "cross_sample n k b = s \<and> cross_channel n k = m
    \<longleftrightarrow> k = s div 64 * n * 8 + m * 8 + s mod 64 div 8 \<and> b = s mod 64 mod 8"
proof
  assume l: "cross_sample n k b = s \<and> cross_channel n k = m"
  have "k mod 8 < 8" by simp
  from block_digits [OF this assms(2)] l
  have "s div 64 = k div 8 div n" "s mod 64 div 8 = k mod 8" "s mod 64 mod 8 = b"
    unfolding cross_sample_def by blast+
  moreover have "k div 8 div n * n + m = k div 8"
    using l div_mult_mod_eq [of "k div 8" n] by (simp add: cross_channel_def)
  then have "k = (k div 8 div n * n + m) * 8 + k mod 8" by simp
  ultimately show "k = s div 64 * n * 8 + m * 8 + s mod 64 div 8 \<and> b = s mod 64 mod 8"
    by (simp add: algebra_simps)
next
  assume r: "k = s div 64 * n * 8 + m * 8 + s mod 64 div 8 \<and> b = s mod 64 mod 8"
  have "s mod 64 div 8 < 8" by (rule block_byte)
  moreover from r have "k = (s div 64 * n + m) * 8 + s mod 64 div 8" by (simp add: algebra_simps)
  moreover have "r < 8 \<Longrightarrow> (a * 8 + r) div 8 = a \<and> (a * 8 + r) mod 8 = r" for a r :: nat by simp
  ultimately have k: "k div 8 = s div 64 * n + m" "k mod 8 = s mod 64 div 8" by blast+
  then have "k div 8 div n = s div 64" "(k div 8) mod n = m"
    using assms(1) by simp_all
  moreover have "s mod 64 = s mod 64 div 8 * 8 + s mod 64 mod 8" "s = s div 64 * 64 + s mod 64" by simp_all
  ultimately show "cross_sample n k b = s \<and> cross_channel n k = m"
    unfolding cross_sample_def cross_channel_def using k(2) r by linarith
qed

definition packed :: "feed_queue_logic \<Rightarrow> nat \<Rightarrow> nat \<Rightarrow> u8 list \<Rightarrow> bool" where
  "packed q s m cross \<longleftrightarrow> (\<forall>k < length cross. \<forall>b < 8. bit (cross ! k) b \<longleftrightarrow>
     (cross_sample (channel_count q) k b < s
       \<or> (cross_sample (channel_count q) k b = s \<and> cross_channel (channel_count q) k < m))
     \<and> sample_bit q (cross_sample (channel_count q) k b) (cross_channel (channel_count q) k))"

lemma packed_step:
  assumes "packed q s m cross" "m < channel_count q"
    "k = s div 64 * channel_count q * 8 + m * 8 + s mod 64 div 8" "k < length cross"
  shows "packed q s (Suc m)
    (if sample_bit q s m then cross[k := cross ! k OR push_bit (s mod 64 mod 8) 1] else cross)"
proof -
  let ?new = "if sample_bit q s m then cross[k := cross ! k OR push_bit (s mod 64 mod 8) 1] else cross"
  have idx: "cross_sample (channel_count q) i b = s \<and> cross_channel (channel_count q) i = m
      \<longleftrightarrow> i = k \<and> b = s mod 64 mod 8" if "b < 8" for i b
    using cross_index [OF assms(2) that, of i s] assms(3) by simp
  show ?thesis
    unfolding packed_def
  proof (intro allI impI)
    fix i b :: nat
    assume ib: "i < length ?new" "b < 8"
    then have i: "i < length cross" by (simp split: if_splits)
    let ?s = "cross_sample (channel_count q) i b" and ?c = "cross_channel (channel_count q) i"
    have "bit (?new ! i) b \<longleftrightarrow> bit (cross ! i) b \<or> (i = k \<and> b = s mod 64 mod 8 \<and> sample_bit q s m)"
      using ib i assms(4) by (auto simp: nth_list_update bit_or_iff bit_exp_iff)
    moreover have "bit (cross ! i) b \<longleftrightarrow> (?s < s \<or> (?s = s \<and> ?c < m)) \<and> sample_bit q ?s ?c"
      using assms(1) i ib(2) unfolding packed_def by blast
    moreover have "?s = s \<and> ?c = m \<longleftrightarrow> i = k \<and> b = s mod 64 mod 8" using idx [OF ib(2)] .
    ultimately show "bit (?new ! i) b \<longleftrightarrow> (?s < s \<or> (?s = s \<and> ?c < Suc m)) \<and> sample_bit q ?s ?c"
      unfolding less_Suc_eq by metis
  qed
qed

lemma pack_channels_spec:
  assumes "packed q s m cross" "m \<le> channel_count q" "length cross = blocks * channel_count q * 8"
    "s div 64 < blocks" "\<forall>ch < channel_count q. s * unit_size q + ch div 8 < length (data_bytes q)"
  shows "\<exists>cross'. pack_channels q s [m..<channel_count q] cross = Inr cross'
    \<and> packed q s (channel_count q) cross' \<and> length cross' = length cross"
  using assms(1-3)
proof (induction "channel_count q - m" arbitrary: m cross)
  case 0
  then show ?case by simp
next
  case (Suc d)
  then have m: "m < channel_count q" "[m..<channel_count q] = m # [Suc m..<channel_count q]"
    by (auto simp: upt_conv_Cons)
  let ?k = "s div 64 * channel_count q * 8 + m * 8 + s mod 64 div 8"
  have "s mod 64 div 8 < 8" by (rule block_byte)
  then have "?k < Suc (s div 64) * channel_count q * 8" using m(1) by (simp add: algebra_simps)
  also have "\<dots> \<le> length cross"
    unfolding Suc.prems(3) by (intro mult_le_mono1) (use assms(4) in simp)
  finally have k: "?k < length cross" .
  let ?new = "if sample_bit q s m then cross[?k := cross ! ?k OR push_bit (s mod 64 mod 8) 1] else cross"
  from packed_step [OF Suc.prems(1) m(1) refl k] have p: "packed q s (Suc m) ?new" .
  have "d = channel_count q - Suc m" "Suc m \<le> channel_count q"
    "length ?new = blocks * channel_count q * 8"
    using Suc.hyps(2) m(1) Suc.prems(3) by auto
  from Suc.hyps(1) [OF this(1) p this(2,3)] obtain cross' where c:
    "pack_channels q s [Suc m..<channel_count q] ?new = Inr cross'"
    "packed q s (channel_count q) cross'" "length cross' = length cross" by auto
  moreover have "pack_channels q s [m..<channel_count q] cross = Inr cross'"
    using c(1) m k assms(5) by (cases "sample_bit q s m") (simp_all add: Let_def sample_bit_def)
  ultimately show ?case by blast
qed

lemma packed_next: "packed q s (channel_count q) cross \<Longrightarrow> 0 < channel_count q \<Longrightarrow> packed q (Suc s) 0 cross"
  by (auto simp: packed_def less_Suc_eq cross_channel_def)

lemma pack_samples_spec:
  assumes "packed q s 0 cross" "s \<le> fill_count q" "0 < channel_count q"
    "length cross = (fill_count q + 63) div 64 * channel_count q * 8"
    "\<forall>s < fill_count q. \<forall>ch < channel_count q. s * unit_size q + ch div 8 < length (data_bytes q)"
  shows "\<exists>cross'. pack_samples q [s..<fill_count q] cross = Inr cross'
    \<and> packed q (fill_count q) 0 cross' \<and> length cross' = length cross"
  using assms(1,2,4)
proof (induction "fill_count q - s" arbitrary: s cross)
  case 0
  then show ?case by simp
next
  case (Suc d)
  then have s: "s < fill_count q" "[s..<fill_count q] = s # [Suc s..<fill_count q]"
    by (auto simp: upt_conv_Cons)
  have "s div 64 < (fill_count q + 63) div 64" using s(1) by (rule block_less)
  from pack_channels_spec [OF Suc.prems(1) _ Suc.prems(3) this] assms(5) s(1) obtain c1 where c1:
    "pack_channels q s [0..<channel_count q] cross = Inr c1" "packed q (Suc s) 0 c1"
    "length c1 = length cross"
    using packed_next assms(3) by (metis le0)
  from Suc.hyps(1) [of "Suc s" c1] Suc.hyps(2) s c1 Suc.prems(3) show ?case by auto
qed

text \<open>C19: Transposition. The transposed buffer of a full or partial queue holds 8 bytes per
  channel for every 64 samples; bit \<open>s mod 8\<close> of byte \<open>s mod 64 div 8\<close> of channel
  \<open>ch\<close> in block \<open>s div 64\<close> is the bit of channel \<open>ch\<close> in sample \<open>s\<close>, and the
  bits past the last sample are 0. No read or write leaves its buffer.\<close>

theorem pack_logic_cross_data_transposes:
  assumes "0 < channel_count q" "channel_count q \<le> 8 * unit_size q" "0 < fill_count q"
    and "fill_count q * unit_size q \<le> length (data_bytes q)"
  shows "\<exists>cross. pack_logic_cross_data q = Inr (Some cross)
    \<and> length cross = (fill_count q + 63) div 64 * channel_count q * 8
    \<and> (\<forall>s ch. ch < channel_count q \<longrightarrow> s < (fill_count q + 63) div 64 * 64 \<longrightarrow>
        (bit (cross ! (s div 64 * channel_count q * 8 + ch * 8 + s mod 64 div 8)) (s mod 8)
           \<longleftrightarrow> s < fill_count q \<and> sample_bit q s ch))"
proof -
  let ?blocks = "(fill_count q + 63) div 64"
  let ?len = "?blocks * channel_count q * 8"
  have "packed q 0 0 (replicate ?len 0)" by (simp add: packed_def)
  moreover have "s * unit_size q + ch div 8 < length (data_bytes q)"
    if "s < fill_count q" "ch < channel_count q" for s ch
  proof -
    have "ch div 8 < unit_size q" using that(2) assms(2) by auto
    then have "s * unit_size q + ch div 8 < Suc s * unit_size q" by simp
    also have "\<dots> \<le> fill_count q * unit_size q" using that(1) by (intro mult_le_mono1) simp
    finally show ?thesis using assms(4) by simp
  qed
  ultimately obtain cross where c: "pack_samples q [0..<fill_count q] (replicate ?len 0) = Inr cross"
    "packed q (fill_count q) 0 cross" "length cross = ?len"
    using pack_samples_spec [of q 0 "replicate ?len 0"] assms(1) by auto
  have "bit (cross ! (s div 64 * channel_count q * 8 + ch * 8 + s mod 64 div 8)) (s mod 8)
      \<longleftrightarrow> s < fill_count q \<and> sample_bit q s ch" if "ch < channel_count q" "s < ?blocks * 64" for s ch
  proof -
    let ?k = "s div 64 * channel_count q * 8 + ch * 8 + s mod 64 div 8"
    have "s mod 64 div 8 < 8" by (rule block_byte)
    then have "?k < Suc (s div 64) * channel_count q * 8" using that(1) by (simp add: algebra_simps)
    also have "\<dots> \<le> ?len" using that(2) by (intro mult_le_mono1) (simp add: less_mult_imp_div_less Suc_leI)
    finally have k: "?k < length cross" using c(3) by simp
    have "s mod 64 mod 8 = s mod 8" by (simp add: mod_mod_cancel)
    then have "cross_sample (channel_count q) ?k (s mod 8) = s" "cross_channel (channel_count q) ?k = ch"
      using cross_index [OF that(1), of "s mod 8" ?k s] by simp_all
    with c(2) k show ?thesis by (simp add: packed_def)
  qed
  moreover have "pack_logic_cross_data q = Inr (Some cross)"
    using c(1) assms(1-3) by (simp add: pack_logic_cross_data_def Let_def)
  ultimately show ?thesis using c(3) by blast
qed


section \<open>Streams\<close>

lemma logic_copy:
  assumes "logic_inv q" "fill_count q + c \<le> alloc_count q" "c * unit_size q \<le> length d"
  obtains bytes where
    "ebind (first_bytes (c * unit_size q) d) (blit (data_bytes q) (fill_count q * unit_size q)) = Inr bytes"
    "length bytes = length (data_bytes q)"
    "take ((fill_count q + c) * unit_size q) bytes = logic_pending q @ take (c * unit_size q) d"
proof -
  have "(fill_count q + c) * unit_size q \<le> alloc_count q * unit_size q"
    using assms(2) by (rule mult_le_mono1)
  then have "fill_count q * unit_size q + length (take (c * unit_size q) d) \<le> length (data_bytes q)"
    using assms(1,3) by (simp add: logic_inv_def add_mult_distrib)
  from blit_take [OF this] that show thesis
    using assms(3) by (auto simp: logic_pending_def first_bytes_def add_mult_distrib)
qed

lemma submit_many_loop_law:
  "logic_inv q \<Longrightarrow> alloc_count q < 2 ^ 64 \<Longrightarrow> length d = n * unit_size q \<Longrightarrow> n \<le> fuel \<Longrightarrow>
   \<exists>r q' out'. submit_many_loop fuel send d n (fill_count q * unit_size q) (q, out) = Some (Inr (r, q', out'))
     \<and> (r = SR_OK \<longrightarrow> logic_inv q'
         \<and> logic_sent out' @ logic_pending q' = logic_sent out @ logic_pending q @ d)"
proof (induction fuel arbitrary: n d q out)
  case 0
  then show ?case by simp
next
  case (Suc fuel)
  show ?case
  proof (cases n)
    case 0
    then show ?thesis using Suc.prems by simp
  next
    case (Suc n')
    define c where "c = min (alloc_count q - fill_count q) n"
    have space: "(if size_diff (alloc_count q) (fill_count q) < n
        then size_diff (alloc_count q) (fill_count q) else n) = c"
      using Suc.prems(1) by (simp add: c_def size_diff_def logic_inv_def min_def)
    have c: "0 < c" "c \<le> n" "fill_count q + c \<le> alloc_count q"
      using Suc.prems(1) Suc by (auto simp: c_def logic_inv_def)
    have "c * unit_size q \<le> length d" using c(2) Suc.prems(3) by simp
    from logic_copy [OF Suc.prems(1) c(3) this] obtain bytes where b:
      "ebind (first_bytes (c * unit_size q) d) (blit (data_bytes q) (fill_count q * unit_size q)) = Inr bytes"
      "length bytes = length (data_bytes q)"
      "take ((fill_count q + c) * unit_size q) bytes = logic_pending q @ take (c * unit_size q) d" by blast
    let ?q = "q\<lparr>data_bytes := bytes, fill_count := fill_count q + c\<rparr>"
    let ?d = "drop (c * unit_size q) d"
    have step: "submit_many_loop (Suc fuel) send d n (fill_count q * unit_size q) (q, out) =
        (if fill_count ?q = alloc_count ?q then
            (case feed_queue_logic_flush send (?q, out) of
               Inl f \<Rightarrow> Some (Inl f)
             | Inr (ret, qo') \<Rightarrow>
                 if ret \<noteq> SR_OK then Some (Inr (ret, qo'))
                 else submit_many_loop fuel send ?d (n - c) 0 qo')
          else submit_many_loop fuel send ?d (n - c) (fill_count ?q * unit_size ?q) (?q, out))"
      unfolding Suc submit_many_loop.simps Let_def space [unfolded Suc]
      by (simp add: b(1) add_mult_distrib)
    have pend: "logic_pending ?q @ ?d = logic_pending q @ d"
      using b(3) by (simp add: logic_pending_def)
    have d: "length ?d = (n - c) * unit_size q" "n - c \<le> fuel"
      using Suc.prems(3,4) c(1,2) Suc by (auto simp: diff_mult_distrib)
    show ?thesis
    proof (cases "fill_count ?q = alloc_count ?q")
      case True
      have "channel_count ?q = 0" "fill_count ?q \<le> alloc_count ?q" "0 < alloc_count ?q"
        "length (data_bytes ?q) = alloc_count ?q * unit_size ?q"
        using Suc.prems(1) b(2) c(3) by (auto simp: logic_inv_def)
      from logic_flush_law [OF this, of send out] obtain r q1 out1 where f:
        "feed_queue_logic_flush send (?q, out) = Inr (r, q1, out1)"
        "r = SR_OK \<longrightarrow> logic_inv q1 \<and> fill_count q1 = 0 \<and> unit_size q1 = unit_size ?q
          \<and> alloc_count q1 = alloc_count ?q \<and> logic_sent out1 = logic_sent out @ logic_pending ?q" by auto
      show ?thesis
      proof (cases "r = SR_OK")
        case ok: True
        from Suc.IH [of q1 ?d "n - c" out1] f ok d pend Suc.prems(2) step True show ?thesis
          by (auto simp: logic_pending_def [of q1])
      next
        case False
        with f step True show ?thesis by simp
      qed
    next
      case False
      then have "logic_inv ?q" using Suc.prems(1) b(2) c(3) by (auto simp: logic_inv_def)
      with Suc.IH [of ?q ?d "n - c" out] d pend Suc.prems(2) step False show ?thesis by auto
    qed
  qed
qed

text \<open>C18: Bulk submission. With one round of fuel per sample, submitting many samples at
  once ends; when it succeeds, the bytes sent so far followed by the bytes still in the queue
  are the old ones followed by the submitted ones, and the queue is fit for the next call.\<close>

theorem feed_queue_logic_submit_many_stream:
  assumes "logic_inv q" "alloc_count q < 2 ^ 64" "length d = n * unit_size q" "n \<le> fuel"
  shows "\<exists>r q' out'. feed_queue_logic_submit_many fuel send d n (q, out) = Some (Inr (r, q', out'))
    \<and> (r = SR_OK \<longrightarrow> logic_inv q'
        \<and> logic_sent out' @ logic_pending q' = logic_sent out @ logic_pending q @ d)"
  using submit_many_loop_law [OF assms, of send out] by (simp add: feed_queue_logic_submit_many_def)


text \<open>C36: Analog stream. The same for the analog queue: the values sent are the pending ones
  followed by the submitted ones, in order and as often as asked.\<close>

theorem feed_queue_analog_stream:
  assumes "analog_inv q" "\<forall>(x, n) \<in> set xs. length x = 1"
    and "submit_all (submit_value send) xs (q, out) = Inr (SR_OK, q1, out1)"
    and "feed_queue_analog_flush send (q1, out1) = Inr (SR_OK, q2, out2)"
  shows "analog_sent out2 = analog_sent out @ analog_pending q @ stream xs \<and> analog_pending q2 = []"
  using assms analog_q.submit_all_flush [of q xs send out q1 out1 q2 out2]
  by (auto simp: analog_item_def)

section \<open>Concrete queues\<close>

definition accept_all :: "'p link" where
  "accept_all sofar p = SR_OK"

definition demo_queue :: feed_queue_logic where
  "demo_queue = the (feed_queue_logic_alloc True 2 2)"

lemma feed_queue_logic_submit_many_stream_witness:
  "\<exists>r q' out'. feed_queue_logic_submit_many 3 accept_all [1, 2, 3, 4, 5, 6] 3 (demo_queue, []) = Some (Inr (r, q', out'))
    \<and> (r = SR_OK \<longrightarrow> logic_inv q' \<and> logic_sent out' @ logic_pending q' = [1, 2, 3, 4, 5, 6])"
proof -
  have "logic_inv demo_queue" "logic_pending demo_queue = []" "logic_sent [] = []" "unit_size demo_queue = 2"
    by code_simp+
  moreover have "alloc_count demo_queue < 2 ^ 64"
    by (simp add: demo_queue_def feed_queue_logic_alloc_def)
  ultimately show ?thesis
    using feed_queue_logic_submit_many_stream [of demo_queue "[1, 2, 3, 4, 5, 6]" 3 3 accept_all "[]"] by simp
qed


definition demo_analog_queue :: "int feed_queue_analog" where
  "demo_analog_queue = the (feed_queue_analog_alloc True 0 2 3 0)"

lemma feed_queue_analog_stream_witness:
  "let xs = [([5], 3), ([9], 1)] in
   \<exists>q2 out2. analog_sent out2 = stream xs \<and> analog_pending q2 = []
     \<and> ebind (submit_all (submit_value accept_all) xs (demo_analog_queue, []))
         (\<lambda>(r, qo). feed_queue_analog_flush accept_all qo) = Inr (SR_OK, q2, out2)"
proof -
  let ?xs = "[([5], 3), ([9], 1)]"
  let ?p = "\<lambda>d. \<lparr>sample_values = d, packet_encoding = a_encoding demo_analog_queue,
      packet_meaning = a_meaning demo_analog_queue\<rparr>"
  let ?q = "demo_analog_queue\<lparr>data_values := [5, 9]\<rparr>"
  have inv: "analog_inv demo_analog_queue" "analog_pending demo_analog_queue = []"
    "analog_sent ([] :: int analog_packet list) = []" "\<forall>(x, n) \<in> set ?xs. length x = 1"
    by code_simp+
  have run: "submit_all (submit_value accept_all) ?xs (demo_analog_queue, []) = Inr (SR_OK, ?q, [?p [5, 5], ?p [5, 9]])"
    "feed_queue_analog_flush accept_all (?q, [?p [5, 5], ?p [5, 9]]) = Inr (SR_OK, ?q, [?p [5, 5], ?p [5, 9]])"
    by code_simp+
  from feed_queue_analog_stream [OF inv(1,4) run] inv(2,3) run show ?thesis
    by (auto simp: Let_def)
qed

definition demo_cross :: feed_queue_logic where
  "demo_cross = (the (feed_queue_logic_alloc_cross_data True 64 2 10))
     \<lparr>data_bytes := replicate 64 1 @ replicate 64 2, fill_count := 3\<rparr>"

lemma pack_logic_cross_data_transposes_witness:
  "\<exists>cross. pack_logic_cross_data demo_cross = Inr (Some cross) \<and> length cross = 80"
proof -
  have "0 < channel_count demo_cross" "channel_count demo_cross \<le> 8 * unit_size demo_cross"
    "0 < fill_count demo_cross" "fill_count demo_cross * unit_size demo_cross \<le> length (data_bytes demo_cross)"
    "(fill_count demo_cross + 63) div 64 * channel_count demo_cross * 8 = 80"
    by (simp_all add: demo_cross_def feed_queue_logic_alloc_cross_data_def feed_queue_logic_alloc_def Let_def)
  with pack_logic_cross_data_transposes [of demo_cross] show ?thesis by auto
qed

text \<open>
  A transposing queue of fewer than 64 samples is told it holds 64, but its buffer has the
  size that was asked for: filling it leaves the buffer.
\<close>

lemma cross_queue_overflow:
  "feed_queue_logic_submit_one accept_all [1] 64 (the (feed_queue_logic_alloc_cross_data True 16 1 8), [])
   = Inl OutOfBounds"
  by code_simp

text \<open>
  After a flush that failed the queue is full; the next value is stored behind the buffer.
\<close>

lemma full_queue_overflow:
  "ebind (feed_queue_analog_submit_one (\<lambda>sofar p. SR_ERR) (7 :: int) 2 (demo_analog_queue, [])) (\<lambda>(r, qo).
     feed_queue_analog_submit_one accept_all 7 1 qo) = Inl OutOfBounds"
  by code_simp

end
