(* ===== verification/Device.thy ===== *)
theory Device
  imports PX_Prelude
begin

text \<open>
  Device instances and their channels (\<open>libsigrok/dsdevice.c\<close>), the source a device comes
  from and what it supports (\<open>libsigrok/device_source.c\<close>), and the generic driver layer
  (\<open>libsigrok/hwdriver.c\<close>). A driver is a function table: its entries are the fields of
  \<open>config_ops\<close>, None for a null pointer. A \<open>GVariant\<close> is kept as far as the code looks
  into it, an array of 32-bit integers or something else.
\<close>

section \<open>Channels and device instances\<close>

record sr_channel =
  ch_index :: u16
  ch_type :: int
  enabled :: bool
  ch_name :: "string option"
  trigger :: "string option"

record sr_channel_group =
  group_name :: "string option"
  group_channels :: "nat list"

record sr_usb_dev_inst =
  usb_dev :: nat
  bus :: u8
  address :: u8

text \<open>
  \<open>driver\<close> is the index of the function table, None for null. Handles and USB device
  pointers are numbers, 0 is the null handle.
\<close>

record sr_dev_inst =
  driver :: "nat option"
  handle :: nat
  dev_name :: "string option"
  dev_path :: "string option"
  dev_type :: int
  source_kind :: int
  status :: int
  mode :: int
  vendor :: "string option"
  version :: "string option"
  channels :: "sr_channel list"
  channel_groups :: "sr_channel_group list"
  conn :: "sr_usb_dev_inst option"
  actived_times :: int

abbreviation (input) DEV_TYPE_DEMO :: int where "DEV_TYPE_DEMO \<equiv> 1"
abbreviation (input) DEV_TYPE_FILELOG :: int where "DEV_TYPE_FILELOG \<equiv> 2"
abbreviation (input) DEV_TYPE_USB :: int where "DEV_TYPE_USB \<equiv> 3"
abbreviation (input) SR_ST_INITIALIZING :: int where "SR_ST_INITIALIZING \<equiv> 10001"
abbreviation (input) SR_ST_INACTIVE :: int where "SR_ST_INACTIVE \<equiv> 10002"
abbreviation (input) SR_ST_ACTIVE :: int where "SR_ST_ACTIVE \<equiv> 10004"

text \<open>\<open>mem\<close> says whether the allocation succeeds, \<open>ptr\<close> is the address it gets.\<close>

definition sr_dev_inst_new ::
  "bool \<Rightarrow> nat \<Rightarrow> int \<Rightarrow> int \<Rightarrow> string option \<Rightarrow> string option \<Rightarrow> string option \<Rightarrow> sr_dev_inst option" where
  "sr_dev_inst_new mem ptr md st vend model ver =
     (if \<not> mem then None
      else Some \<lparr>driver = None, handle = ptr,
        dev_name = (case model of None \<Rightarrow> None | Some m \<Rightarrow> if m = [] then None else Some m),
        dev_path = None, dev_type = 0, source_kind = 1, status = st, mode = md,
        vendor = vend, version = ver, channels = [], channel_groups = [], conn = None,
        actived_times = 0\<rparr>)"

definition sr_channel_new :: "bool \<Rightarrow> sr_dev_inst option \<Rightarrow> int \<Rightarrow> int \<Rightarrow> bool \<Rightarrow> string option \<Rightarrow>
    sr_channel option \<times> sr_dev_inst option" where
  "sr_channel_new mem sdi ix ty en name =
     (case sdi of
        None \<Rightarrow> (None, None)
      | Some d \<Rightarrow>
          if \<not> mem then (None, Some d)
          else let probe = \<lparr>ch_index = word_of_int ix, ch_type = ty, enabled = en, ch_name = name, trigger = None\<rparr>
            in (Some probe, Some (d\<lparr>channels := channels d @ [probe]\<rparr>)))"

definition sr_channel_group_new :: "bool \<Rightarrow> sr_dev_inst option \<Rightarrow> string option \<Rightarrow>
    sr_channel_group option \<times> sr_dev_inst option" where
  "sr_channel_group_new mem sdi name =
     (if \<not> mem then (None, sdi)
      else let group = \<lparr>group_name = (if name = Some [] then None else name), group_channels = []\<rparr> in
        (Some group, map_option (\<lambda>d. d\<lparr>channel_groups := channel_groups d @ [group]\<rparr>) sdi))"

definition sr_dev_probes_free :: "sr_dev_inst option \<Rightarrow> sr_dev_inst option" where
  "sr_dev_probes_free sdi = map_option (\<lambda>d. d\<lparr>channels := [], channel_groups := []\<rparr>) sdi"

section \<open>Comparing channels\<close>

definition sr_channels_differ :: "sr_channel option \<Rightarrow> sr_channel option \<Rightarrow> bool" where
  "sr_channels_differ c1 c2 =
     (case (c1, c2) of
        (Some a, Some b) \<Rightarrow> ch_type a \<noteq> ch_type b \<or> ch_name a \<noteq> ch_name b
      | _ \<Rightarrow> True)"

fun sr_channel_lists_differ :: "sr_channel option list \<Rightarrow> sr_channel option list \<Rightarrow> bool" where
  "sr_channel_lists_differ (c1 # l1) (c2 # l2) =
     (if c1 = None \<or> c2 = None \<or> sr_channels_differ c1 c2
         \<or> ch_index (the c1) \<noteq> ch_index (the c2) then True
      else sr_channel_lists_differ l1 l2)"
| "sr_channel_lists_differ [] [] = False"
| "sr_channel_lists_differ l1 l2 = True"

section \<open>Changing a channel of a device\<close>

text \<open>The loop of the channel setters: the first channel that fits is changed.\<close>

fun update_first :: "('a \<Rightarrow> bool) \<Rightarrow> ('a \<Rightarrow> 'a) \<Rightarrow> 'a list \<Rightarrow> 'a list option" where
  "update_first p f [] = None"
| "update_first p f (x # xs) =
     (if p x then Some (f x # xs) else map_option ((#) x) (update_first p f xs))"

definition change_probe ::
  "(sr_channel \<Rightarrow> sr_channel) \<Rightarrow> int \<Rightarrow> sr_dev_inst option \<Rightarrow> int \<times> sr_dev_inst option" where
  "change_probe f probenum sdi =
     (case sdi of
        None \<Rightarrow> (SR_ERR_ARG, None)
      | Some d \<Rightarrow>
          (case update_first (\<lambda>probe. uint (ch_index probe) = probenum) f (channels d) of
             None \<Rightarrow> (SR_ERR_ARG, Some d)
           | Some chs \<Rightarrow> (SR_OK, Some (d\<lparr>channels := chs\<rparr>))))"

definition sr_dev_probe_name_set ::
  "sr_dev_inst option \<Rightarrow> int \<Rightarrow> string option \<Rightarrow> int \<times> sr_dev_inst option" where
  "sr_dev_probe_name_set sdi probenum name = change_probe (\<lambda>p. p\<lparr>ch_name := name\<rparr>) probenum sdi"

definition sr_dev_probe_enable :: "sr_dev_inst option \<Rightarrow> int \<Rightarrow> bool \<Rightarrow> int \<times> sr_dev_inst option" where
  "sr_dev_probe_enable sdi probenum state = change_probe (\<lambda>p. p\<lparr>enabled := state\<rparr>) probenum sdi"

definition sr_dev_trigger_set ::
  "sr_dev_inst option \<Rightarrow> u16 \<Rightarrow> string option \<Rightarrow> int \<times> sr_dev_inst option" where
  "sr_dev_trigger_set sdi probenum trig = change_probe (\<lambda>p. p\<lparr>trigger := trig\<rparr>) (uint probenum) sdi"

definition sr_dev_channel_name_set :: "sr_channel option \<Rightarrow> string option \<Rightarrow> int \<times> sr_channel option" where
  "sr_dev_channel_name_set channel name =
     (case (channel, name) of
        (Some c, Some n) \<Rightarrow> (SR_OK, Some (c\<lparr>ch_name := Some n\<rparr>))
      | _ \<Rightarrow> (SR_ERR_ARG, channel))"

text \<open>A channel passed as a pointer is its position in the list; a position outside stands for a
  channel of another device.\<close>

definition sr_enable_device_channel ::
  "sr_dev_inst option \<Rightarrow> nat option \<Rightarrow> bool \<Rightarrow> int \<times> sr_dev_inst option" where
  "sr_enable_device_channel sdi probe enable =
     (case (sdi, probe) of
        (Some d, Some k) \<Rightarrow>
          if k < length (channels d)
          then (SR_OK, Some (d\<lparr>channels := (channels d)[k := (channels d ! k)\<lparr>enabled := enable\<rparr>]\<rparr>))
          else (SR_ERR_CALL_STATUS, Some d)
      | _ \<Rightarrow> (SR_ERR_ARG, sdi))"

section \<open>Sources and capabilities\<close>

definition ds_device_source_set :: "sr_dev_inst option \<Rightarrow> int \<Rightarrow> sr_dev_inst option" where
  "ds_device_source_set sdi kind = map_option (\<lambda>d. d\<lparr>source_kind := kind\<rparr>) sdi"

definition ds_device_source_get :: "sr_dev_inst option \<Rightarrow> int" where
  "ds_device_source_get sdi =
     (case sdi of
        None \<Rightarrow> 0
      | Some d \<Rightarrow>
          if source_kind d \<noteq> 0 then source_kind d
          else if dev_type d = DEV_TYPE_DEMO then 4
          else if dev_type d = DEV_TYPE_FILELOG then 3
          else if dev_type d = DEV_TYPE_USB then 1
          else 0)"

datatype variant = IntArray "int list" | OtherVariant string

type_synonym config_lister = "int \<Rightarrow> sr_dev_inst \<Rightarrow> int \<times> variant option"

fun variant_option_list_contains :: "variant option \<Rightarrow> int \<Rightarrow> bool" where
  "variant_option_list_contains None key = False"
| "variant_option_list_contains (Some (OtherVariant t)) key = False"
| "variant_option_list_contains (Some (IntArray is)) key = (key \<in> set is)"

text \<open>\<open>lister k\<close> is the \<open>config_list\<close> entry of driver \<open>k\<close>.\<close>

definition ds_device_supports_config_key ::
  "(nat \<Rightarrow> config_lister option) \<Rightarrow> sr_dev_inst option \<Rightarrow> int \<Rightarrow> bool" where
  "ds_device_supports_config_key lister sdi key =
     (case sdi of
        None \<Rightarrow> False
      | Some d \<Rightarrow>
          (case driver d of
             None \<Rightarrow> False
           | Some k \<Rightarrow>
               (case lister k of
                  None \<Rightarrow> False
                | Some lister_k \<Rightarrow>
                    let (ret, dat) = lister_k 30098 d in
                    if ret \<noteq> SR_OK \<or> dat = None then False
                    else variant_option_list_contains dat key)))"

definition ds_device_supports_capability ::
  "(nat \<Rightarrow> config_lister option) \<Rightarrow> sr_dev_inst option \<Rightarrow> int \<Rightarrow> bool" where
  "ds_device_supports_capability lister sdi capability =
     (case sdi of
        None \<Rightarrow> False
      | Some d \<Rightarrow>
          if capability = 1 then mode d = 0 \<or> mode d = 2 \<or> mode d = 1
          else if capability = 2 then mode d = 0
          else if capability = 3 then mode d = 2
          else if capability = 4 then mode d = 1
          else if capability = 5 then ds_device_supports_config_key lister sdi 30108
          else if capability = 6 then ds_device_supports_config_key lister sdi 30052
          else if capability = 7 then
            ds_device_supports_config_key lister sdi 60011 \<or> ds_device_supports_config_key lister sdi 60012
          else False)"

section \<open>The driver layer\<close>

definition is_supported_hotplug_device :: "u16 \<Rightarrow> u16 \<Rightarrow> bool" where
  "is_supported_hotplug_device vid pid =
     (if vid = 0x2A0E then True
      else if vid = 0x16c0 then pid = 0x05dc
      else if vid = 0x1a86 then pid = 0x5237
      else False)"

text \<open>
  \<open>ds_scan_all_device_list\<close> over the list libusb returns: a device is its pointer with the
  descriptor, or the error of reading the descriptor. A full buffer of \<open>size\<close> entries ends the
  scan.
\<close>

fun ds_scan_all_device_list :: "nat \<Rightarrow> (nat \<times> (u16 \<times> u16) option) list \<Rightarrow> nat list" where
  "ds_scan_all_device_list room [] = []"
| "ds_scan_all_device_list room ((dev, des) # devs) =
     (case des of
        None \<Rightarrow> ds_scan_all_device_list room devs
      | Some (vid, pid) \<Rightarrow>
          if is_supported_hotplug_device vid pid
          then (case room of 0 \<Rightarrow> [] | Suc room' \<Rightarrow> dev # ds_scan_all_device_list room' devs)
          else ds_scan_all_device_list room devs)"

record sr_config_info =
  info_key :: int
  info_type :: int
  info_name :: string

definition sr_config_info_data :: "sr_config_info list" where
  "sr_config_info_data =
    [\<lparr>info_key = 20000, info_type = 10002, info_name = ''Connection''\<rparr>,
     \<lparr>info_key = 20001, info_type = 10002, info_name = ''Serial communication''\<rparr>,
     \<lparr>info_key = 30000, info_type = 10000, info_name = ''Sample rate''\<rparr>,
     \<lparr>info_key = 50001, info_type = 10000, info_name = ''Sample count''\<rparr>,
     \<lparr>info_key = 50004, info_type = 10000, info_name = ''Sample count-actual''\<rparr>,
     \<lparr>info_key = 30063, info_type = 10003, info_name = ''Using External Clock''\<rparr>,
     \<lparr>info_key = 30064, info_type = 10003, info_name = ''Using Clock Negedge''\<rparr>,
     \<lparr>info_key = 30001, info_type = 10000, info_name = ''Pre-trigger capture ratio''\<rparr>,
     \<lparr>info_key = 30007, info_type = 10002, info_name = ''Operation Mode''\<rparr>,
     \<lparr>info_key = 30109, info_type = 10004, info_name = ''Amplitude''\<rparr>,
     \<lparr>info_key = 30110, info_type = 10004, info_name = ''Offset''\<rparr>,
     \<lparr>info_key = 30008, info_type = 10003, info_name = ''Run Length Encoding''\<rparr>,
     \<lparr>info_key = 30009, info_type = 10003, info_name = ''Wait Buffer Upload''\<rparr>,
     \<lparr>info_key = 30010, info_type = 10001, info_name = ''Trigger slope''\<rparr>,
     \<lparr>info_key = 30011, info_type = 10001, info_name = ''Trigger source''\<rparr>,
     \<lparr>info_key = 30012, info_type = 10001, info_name = ''Trigger channel''\<rparr>,
     \<lparr>info_key = 30014, info_type = 10001, info_name = ''Horizontal trigger position''\<rparr>,
     \<lparr>info_key = 30015, info_type = 10000, info_name = ''Trigger hold off''\<rparr>,
     \<lparr>info_key = 30016, info_type = 10001, info_name = ''Trigger margin''\<rparr>,
     \<lparr>info_key = 30017, info_type = 10000, info_name = ''Buffer size''\<rparr>,
     \<lparr>info_key = 30020, info_type = 10000, info_name = ''Time base''\<rparr>,
     \<lparr>info_key = 30069, info_type = 10002, info_name = ''Max Height''\<rparr>,
     \<lparr>info_key = 30070, info_type = 10001, info_name = ''Max Height value''\<rparr>,
     \<lparr>info_key = 30021, info_type = 10008, info_name = ''Filter Targets''\<rparr>,
     \<lparr>info_key = 50007, info_type = 10003, info_name = ''Datalog''\<rparr>,
     \<lparr>info_key = 30065, info_type = 10008, info_name = ''Operation Mode''\<rparr>,
     \<lparr>info_key = 30066, info_type = 10008, info_name = ''Stop Options''\<rparr>,
     \<lparr>info_key = 30067, info_type = 10008, info_name = ''Channel Mode''\<rparr>,
     \<lparr>info_key = 30071, info_type = 10008, info_name = ''Threshold Levels''\<rparr>,
     \<lparr>info_key = 30072, info_type = 10004, info_name = ''Threshold Level''\<rparr>,
     \<lparr>info_key = 30068, info_type = 10003, info_name = ''Enable RLE Compress''\<rparr>,
     \<lparr>info_key = 30077, info_type = 10008, info_name = ''Bandwidth Limit''\<rparr>,
     \<lparr>info_key = 30081, info_type = 10002, info_name = ''Coupling''\<rparr>,
     \<lparr>info_key = 30082, info_type = 10006, info_name = ''Volts/div''\<rparr>,
     \<lparr>info_key = 30083, info_type = 10000, info_name = ''Probe Factor''\<rparr>,
     \<lparr>info_key = 30084, info_type = 10003, info_name = ''Map Default''\<rparr>,
     \<lparr>info_key = 30085, info_type = 10002, info_name = ''Map Unit''\<rparr>,
     \<lparr>info_key = 30086, info_type = 10004, info_name = ''Map Min''\<rparr>,
     \<lparr>info_key = 30087, info_type = 10004, info_name = ''Map Max''\<rparr>,
     \<lparr>info_key = 60002, info_type = 10008, info_name = ''Ext Trigger Mode''\<rparr>,
     \<lparr>info_key = 60003, info_type = 10003, info_name = ''En Trigger Out''\<rparr>,
     \<lparr>info_key = 60004, info_type = 10003, info_name = ''PWM0 EN''\<rparr>,
     \<lparr>info_key = 60007, info_type = 10003, info_name = ''PWM1 EN''\<rparr>,
     \<lparr>info_key = 60005, info_type = 10004, info_name = ''PWM0 Freq''\<rparr>,
     \<lparr>info_key = 60008, info_type = 10004, info_name = ''PWM1 Freq''\<rparr>,
     \<lparr>info_key = 60006, info_type = 10004, info_name = ''PWM0 Duty''\<rparr>,
     \<lparr>info_key = 60009, info_type = 10004, info_name = ''PWM1 Duty''\<rparr>,
     \<lparr>info_key = 60010, info_type = 10004, info_name = ''Disk Buff Size (with cache)''\<rparr>,
     \<lparr>info_key = 60011, info_type = 10003, info_name = ''Disk Cache Enable''\<rparr>,
     \<lparr>info_key = 60012, info_type = 10002, info_name = ''Disk Cache Path''\<rparr>,
     \<lparr>info_key = 60013, info_type = 10004, info_name = ''Mem Buff Size (no cache)''\<rparr>]"

text \<open>The lookup stops at the row with key 0 behind the last one.\<close>

fun config_info_from :: "sr_config_info list \<Rightarrow> int \<Rightarrow> sr_config_info option" where
  "config_info_from [] key = None"
| "config_info_from (i # is) key = (if info_key i = key then Some i else config_info_from is key)"

definition sr_config_info_get :: "int \<Rightarrow> sr_config_info option" where
  "sr_config_info_get key = config_info_from sr_config_info_data key"

text \<open>
  The configuration entries of a driver. The driver pointer is an option, and so is each entry.
  A driver that answers \<open>SR_OK\<close> without a value fails the assertion.
\<close>

record config_ops =
  config_get :: "(int \<Rightarrow> sr_dev_inst option \<Rightarrow> int \<times> variant option) option"
  config_set :: "(int \<Rightarrow> variant \<Rightarrow> sr_dev_inst \<Rightarrow> int \<times> sr_dev_inst) option"
  config_list :: "(int \<Rightarrow> sr_dev_inst option \<Rightarrow> int \<times> variant option) option"

definition asserted :: "int \<times> variant option \<Rightarrow> fault + int \<times> variant option" where
  "asserted r = (if fst r = SR_OK \<and> snd r = None then Inl AssertFailed else Inr r)"

definition sr_config_get ::
  "config_ops option \<Rightarrow> sr_dev_inst option \<Rightarrow> bool \<Rightarrow> int \<Rightarrow> fault + int \<times> variant option" where
  "sr_config_get drv sdi data_ptr key =
     (case drv of
        None \<Rightarrow> Inr (SR_ERR, None)
      | Some ops \<Rightarrow>
          if \<not> data_ptr then Inr (SR_ERR, None)
          else (case config_get ops of None \<Rightarrow> Inr (SR_ERR_ARG, None) | Some f \<Rightarrow> asserted (f key sdi)))"

text \<open>\<open>ops k\<close> are the entries of driver \<open>k\<close>.\<close>

definition sr_config_set :: "(nat \<Rightarrow> config_ops) \<Rightarrow> sr_dev_inst option \<Rightarrow> int \<Rightarrow> variant option \<Rightarrow>
    fault + int \<times> sr_dev_inst option" where
  "sr_config_set ops sdi key dat =
     (case dat of
        None \<Rightarrow> Inl AssertFailed
      | Some v \<Rightarrow>
          Inr (case sdi of
                 None \<Rightarrow> (SR_ERR, None)
               | Some d \<Rightarrow>
                   (case driver d of
                      None \<Rightarrow> (SR_ERR, Some d)
                    | Some k \<Rightarrow>
                        (case config_set (ops k) of
                           None \<Rightarrow> (SR_ERR_ARG, Some d)
                         | Some f \<Rightarrow> let (ret, d') = f key v d in (ret, Some d')))))"

definition sr_config_list ::
  "config_ops option \<Rightarrow> sr_dev_inst option \<Rightarrow> bool \<Rightarrow> int \<Rightarrow> fault + int \<times> variant option" where
  "sr_config_list drv sdi data_ptr key =
     (case drv of
        None \<Rightarrow> Inr (SR_ERR, None)
      | Some ops \<Rightarrow>
          if \<not> data_ptr then Inr (SR_ERR, None)
          else (case config_list ops of None \<Rightarrow> Inr (SR_ERR_ARG, None) | Some f \<Rightarrow> asserted (f key sdi)))"

section \<open>Facts\<close>

lemma update_first_none: "update_first p f xs = None \<longleftrightarrow> (\<forall>x \<in> set xs. \<not> p x)"
  by (induction xs) auto

lemma update_first_at:
  "\<forall>z \<in> set pre. \<not> p z \<Longrightarrow> p x \<Longrightarrow> update_first p f (pre @ x # post) = Some (pre @ f x # post)"
  by (induction pre) auto

lemma update_first_eq:
  "update_first p f xs =
     (case dropWhile (\<lambda>x. \<not> p x) xs of
        [] \<Rightarrow> None
      | x # post \<Rightarrow> Some (takeWhile (\<lambda>x. \<not> p x) xs @ f x # post))"
  by (induction xs) (auto simp del: dropWhile_eq_Nil_conv split: list.splits)

lemma config_info_from_some:
  "config_info_from xs key = Some i \<Longrightarrow> i \<in> set xs \<and> info_key i = key"
  by (induction xs) (auto split: if_splits)

lemma sr_channel_lists_differ_refl: "sr_channel_lists_differ l (l :: sr_channel option list) \<longleftrightarrow> None \<in> set l"
  by (induction l) (auto simp: sr_channels_differ_def split: option.splits)

lemma scan_length: "length (ds_scan_all_device_list room devs) \<le> room"
  by (induction room devs rule: ds_scan_all_device_list.induct) (auto split: option.splits nat.splits)

lemma config_info_from_iff:
  "distinct (map info_key xs) \<Longrightarrow> config_info_from xs key = Some i \<longleftrightarrow> i \<in> set xs \<and> info_key i = key"
  by (induction xs) force+

lemma config_keys_distinct: "distinct (map info_key sr_config_info_data)"
  by code_simp

section \<open>Properties\<close>

text \<open>Setting a channel. The channel setters change exactly the first channel that has the
  wanted index, in the wanted field, and answer \<open>SR_OK\<close>; when no channel has it they
  answer \<open>SR_ERR_ARG\<close> and change nothing.\<close>

theorem channel_setters_first:
  "(case dropWhile (\<lambda>z. uint (ch_index z) \<noteq> n) (channels d) of
      [] \<Rightarrow> sr_dev_probe_enable (Some d) n en = (SR_ERR_ARG, Some d)
          \<and> sr_dev_probe_name_set (Some d) n name = (SR_ERR_ARG, Some d)
    | x # post \<Rightarrow>
        (let pre = takeWhile (\<lambda>z. uint (ch_index z) \<noteq> n) (channels d) in
         sr_dev_probe_enable (Some d) n en = (SR_OK, Some (d\<lparr>channels := pre @ x\<lparr>enabled := en\<rparr> # post\<rparr>))
       \<and> sr_dev_probe_name_set (Some d) n name = (SR_OK, Some (d\<lparr>channels := pre @ x\<lparr>ch_name := name\<rparr> # post\<rparr>))
       \<and> sr_dev_trigger_set (Some d) (ch_index x) name
           = (SR_OK, Some (d\<lparr>channels := pre @ x\<lparr>trigger := name\<rparr> # post\<rparr>))))"
proof (cases "dropWhile (\<lambda>z. uint (ch_index z) \<noteq> n) (channels d)")
  case Nil
  then show ?thesis
    by (simp add: sr_dev_probe_enable_def sr_dev_probe_name_set_def change_probe_def update_first_eq
        del: dropWhile_eq_Nil_conv)
next
  case (Cons x post)
  then have "uint (ch_index x) = n"
    using hd_dropWhile [of "\<lambda>z. uint (ch_index z) \<noteq> n" "channels d"] by auto
  with Cons show ?thesis
    by (simp add: sr_dev_probe_enable_def sr_dev_probe_name_set_def sr_dev_trigger_set_def
        change_probe_def update_first_eq Let_def del: dropWhile_eq_Nil_conv)
qed

text \<open>C39: The USB scan. Within a buffer of \<open>room\<close> entries the scan returns the supported devices
  in the order of the bus list, up to the size of the buffer.\<close>

theorem ds_scan_all_device_list_filter:
  "ds_scan_all_device_list room devs = take room
     [d. (d, Some (vid, pid)) \<leftarrow> devs, is_supported_hotplug_device vid pid]"
proof (induction room devs rule: ds_scan_all_device_list.induct)
  case (1 room)
  then show ?case by simp
next
  case (2 room dev des devs)
  then show ?case
    by (cases des; cases room) (auto split: prod.splits)
qed

end
