(* ===== verification/Lib_State.thy ===== *)
theory Lib_State
  imports Device Trigger Op_System
begin

text \<open>
  The state of the library front end (\<open>libsigrok/lib_main.c\<close>, \<open>struct sr_lib_context\<close>),
  the acquisition session it drives (\<open>libsigrok/session.c\<close>) and the calls it makes into the
  drivers.

  Device instances live in a heap: a \<open>did\<close> is an address, a freed instance is None, and
  reading one is the fault \<open>UseAfterFree\<close>. A driver is a table of functions; each may be
  null. What a driver function does is a parameter: it sees the calls made so far (so it can
  fail at any point of a history) and the instance, and returns a status with the changed
  instance. \<open>dev_destroy\<close> may free the instance or leave it.
\<close>

section \<open>Drivers\<close>

type_synonym did = nat

datatype driver_call =
    DevScan nat
  | DevOpen did
  | DevClose did
  | DevDestroy did
  | AcquisitionStart did
  | AcquisitionStop did

type_synonym dev_fun = "driver_call list \<Rightarrow> sr_dev_inst \<Rightarrow> int \<times> sr_dev_inst"

record sr_dev_driver =
  drv_name :: "string option"
  driver_type :: int
  drv_init :: int
  scan :: "driver_call list \<Rightarrow> sr_dev_inst list"
  dev_open :: "dev_fun option"
  dev_close :: "dev_fun option"
  dev_destroy :: "(driver_call list \<Rightarrow> sr_dev_inst \<Rightarrow> int \<times> sr_dev_inst option) option"
  dev_acquisition_start :: "dev_fun option"
  dev_acquisition_stop :: "dev_fun option"

text \<open>What is outside the library: the driver list, and libusb's bus numbers and addresses.\<close>

record lib_env =
  drivers :: "sr_dev_driver list"
  libusb_get_bus_number :: "nat \<Rightarrow> u8"
  libusb_get_device_address :: "nat \<Rightarrow> u8"
  sr_init_ret :: int

section \<open>State\<close>

record sr_session =
  running :: bool
  abort_session :: bool

text \<open>Where the collect thread is: created, or inside \<open>sr_session_run\<close>.\<close>

datatype collect_phase = Spawned | InSession

text \<open>
  \<open>collect_thread\<close> is the pointer the library tests, \<open>collect_proc\<close> the thread itself.
  \<open>events\<close> are the events the user's callback has been given, \<open>posted\<close> those of callback
  threads that have not run yet; \<open>calls\<close> is the log of driver calls. \<open>cur_trans_id\<close> is
  the local variable of the hotplug thread.
\<close>

record lib_context =
  sr_ctx :: bool
  event_callback :: bool
  data_forward_callback :: bool
  heap :: "sr_dev_inst option list"
  device_list :: "did list"
  lib_exit_flag :: bool
  attach_event_flag :: bool
  detach_event_flag :: bool
  is_waitting_reconnect :: bool
  check_reconnect_times :: int
  attach_device_handle :: nat
  detach_device_handle :: nat
  actived_device :: "did option"
  hotplug_thread :: bool
  collect_thread :: bool
  collect_proc :: "collect_phase option"
  callback_thread_count :: int
  is_delay_destory :: bool
  is_stop_by_detached :: bool
  transaction_id :: int
  transaction_command :: int
  cur_trans_id :: int
  last_error :: int
  session :: "sr_session option"
  trigger_state :: "ds_trigger option"
  events :: "int list"
  posted :: "int list"
  calls :: "driver_call list"

type_synonym 'a lib = "lib_context \<Rightarrow> fault + 'a \<times> lib_context"

definition lib_ctx :: lib_context where
  "lib_ctx = \<lparr>sr_ctx = False, event_callback = False, data_forward_callback = False, heap = [],
     device_list = [], lib_exit_flag = False, attach_event_flag = False, detach_event_flag = False,
     is_waitting_reconnect = False, check_reconnect_times = 0, attach_device_handle = 0,
     detach_device_handle = 0, actived_device = None, hotplug_thread = False, collect_thread = False,
     collect_proc = None, callback_thread_count = 0, is_delay_destory = False,
     is_stop_by_detached = False, transaction_id = 0, transaction_command = 0, cur_trans_id = 0,
     last_error = SR_OK, session = None, trigger_state = None, events = [], posted = [], calls = []\<rparr>"

section \<open>The heap\<close>

definition deref :: "lib_context \<Rightarrow> did \<Rightarrow> fault + sr_dev_inst" where
  "deref s i =
     (if i < length (heap s) then (case heap s ! i of None \<Rightarrow> Inl UseAfterFree | Some d \<Rightarrow> Inr d)
      else Inl UseAfterFree)"

definition store :: "did \<Rightarrow> sr_dev_inst option \<Rightarrow> lib_context \<Rightarrow> lib_context" where
  "store i d s = s\<lparr>heap := (heap s)[i := d]\<rparr>"

definition allocate :: "sr_dev_inst \<Rightarrow> lib_context \<Rightarrow> did \<times> lib_context" where
  "allocate d s = (length (heap s), s\<lparr>heap := heap s @ [Some d]\<rparr>)"

definition live :: "lib_context \<Rightarrow> did \<Rightarrow> bool" where
  "live s i \<longleftrightarrow> i < length (heap s) \<and> heap s ! i \<noteq> None"

definition inst :: "lib_context \<Rightarrow> did \<Rightarrow> sr_dev_inst" where
  "inst s i = the (heap s ! i)"

section \<open>Calls into the drivers\<close>

definition driver_of :: "lib_env \<Rightarrow> sr_dev_inst \<Rightarrow> sr_dev_driver option" where
  "driver_of E d =
     (case driver d of None \<Rightarrow> None | Some k \<Rightarrow> if k < length (drivers E) then Some (drivers E ! k) else None)"

text \<open>One call of a table entry on an instance.\<close>

definition call_driver :: "driver_call \<Rightarrow> dev_fun \<Rightarrow> did \<Rightarrow> sr_dev_inst \<Rightarrow> lib_context \<Rightarrow> int \<times> lib_context" where
  "call_driver c f i d s =
     (let (ret, d') = f (calls s) d in (ret, store i (Some d') (s\<lparr>calls := calls s @ [c]\<rparr>)))"

text \<open>A call the driver does not provide, or on a null device, gives the status \<open>missing\<close>.\<close>

definition open_device_instance :: "lib_env \<Rightarrow> did option \<Rightarrow> int lib" where
  "open_device_instance E dev s =
     (case dev of
        None \<Rightarrow> Inr (SR_ERR_ARG, s)
      | Some i \<Rightarrow>
          ebind (deref s i) (\<lambda>d.
          case driver_of E d of
            None \<Rightarrow> Inr (SR_ERR_ARG, s)
          | Some drv \<Rightarrow>
              (case dev_open drv of
                 Some f \<Rightarrow> Inr (call_driver (DevOpen i) f i d s)
               | None \<Rightarrow> Inr (SR_ERR_CALL_STATUS, s))))"

definition close_device_instance :: "lib_env \<Rightarrow> did option \<Rightarrow> int lib" where
  "close_device_instance E dev s =
     (case dev of
        None \<Rightarrow> Inr (SR_ERR_ARG, s)
      | Some i \<Rightarrow>
          ebind (deref s i) (\<lambda>d.
          case driver_of E d of
            None \<Rightarrow> Inr (SR_ERR_ARG, s)
          | Some drv \<Rightarrow>
              (case dev_close drv of
                 Some f \<Rightarrow> Inr (call_driver (DevClose i) f i d s)
               | None \<Rightarrow> Inr (SR_OK, s))))"

definition destroy_device_instance :: "lib_env \<Rightarrow> did option \<Rightarrow> int lib" where
  "destroy_device_instance E dev s =
     (case dev of
        None \<Rightarrow> Inr (SR_ERR_ARG, s)
      | Some i \<Rightarrow>
          ebind (deref s i) (\<lambda>d.
          case driver_of E d of
            None \<Rightarrow> Inr (SR_ERR_ARG, s)
          | Some drv \<Rightarrow>
              (case dev_destroy drv of
                 Some f \<Rightarrow>
                   let (ret, d') = f (calls s) d in
                   Inr (ret, store i d' (s\<lparr>calls := calls s @ [DevDestroy i]\<rparr>))
               | None \<Rightarrow>
                   (case dev_close drv of
                      Some f \<Rightarrow> Inr (call_driver (DevClose i) f i d s)
                    | None \<Rightarrow> Inr (SR_OK, s)))))"

section \<open>The acquisition session\<close>

text \<open>
  \<open>sr_session_run\<close> is cut in two: the checks and the start, and what follows when the last
  event source is gone. The polling in between is not part of this state.
\<close>

definition sr_session_destroy :: "lib_context \<Rightarrow> int \<times> lib_context" where
  "sr_session_destroy s =
     (case session s of None \<Rightarrow> (SR_ERR_BUG, s) | Some _ \<Rightarrow> (SR_OK, s\<lparr>session := None\<rparr>))"

definition sr_session_new :: "lib_context \<Rightarrow> lib_context" where
  "sr_session_new s =
     (let s1 = (if session s \<noteq> None then snd (sr_session_destroy s) else s) in
      s1\<lparr>session := Some \<lparr>running = False, abort_session = False\<rparr>\<rparr>)"

definition sr_session_stop :: "lib_context \<Rightarrow> int \<times> lib_context" where
  "sr_session_stop s =
     (case session s of
        None \<Rightarrow> (SR_ERR_BUG, s)
      | Some ss \<Rightarrow> (SR_OK, if running ss then s\<lparr>session := Some (ss\<lparr>abort_session := True\<rparr>)\<rparr> else s))"

definition sr_session_run_begin :: "lib_context \<Rightarrow> int \<times> lib_context" where
  "sr_session_run_begin s =
     (case session s of
        None \<Rightarrow> (SR_ERR_BUG, s)
      | Some ss \<Rightarrow>
          if running ss then (SR_ERR_CALL_STATUS, s)
          else (SR_OK, s\<lparr>session := Some (ss\<lparr>running := True\<rparr>)\<rparr>))"

definition current_device_acquisition_stop :: "lib_env \<Rightarrow> int lib" where
  "current_device_acquisition_stop E s =
     (case actived_device s of
        None \<Rightarrow> Inr (SR_ERR, s)
      | Some i \<Rightarrow>
          ebind (deref s i) (\<lambda>d.
          case driver_of E d of
            None \<Rightarrow> Inr (SR_ERR, s)
          | Some drv \<Rightarrow>
              (case dev_acquisition_stop drv of
                 None \<Rightarrow> Inr (SR_ERR, s)
               | Some f \<Rightarrow> Inr (call_driver (AcquisitionStop i) f i d s))))"

definition sr_session_run_end :: "lib_env \<Rightarrow> int lib" where
  "sr_session_run_end E s =
     (case session s of
        None \<Rightarrow> Inl NullDeref
      | Some _ \<Rightarrow>
          ebind (current_device_acquisition_stop E s) (\<lambda>(_, s1).
          case session s1 of
            None \<Rightarrow> Inl NullDeref
          | Some ss \<Rightarrow>
              Inr (SR_OK, s1\<lparr>session := Some (ss\<lparr>abort_session := False, running := False\<rparr>)\<rparr>)))"

section \<open>Events\<close>

definition send_event :: "int \<Rightarrow> lib_context \<Rightarrow> lib_context" where
  "send_event ev s = (if event_callback s then s\<lparr>events := events s @ [ev]\<rparr> else s)"

definition post_event_async :: "int \<Rightarrow> lib_context \<Rightarrow> lib_context" where
  "post_event_async ev s =
     s\<lparr>callback_thread_count := callback_thread_count s + 1, posted := posted s @ [ev]\<rparr>"

text \<open>A callback thread runs: any of those started and not yet run.\<close>

definition post_event_proc :: "nat \<Rightarrow> unit lib" where
  "post_event_proc k s =
     (if k < length (posted s) then
        let s1 = send_event (posted s ! k) (s\<lparr>posted := take k (posted s) @ drop (Suc k) (posted s)\<rparr>) in
        Inr ((), s1\<lparr>callback_thread_count := callback_thread_count s1 - 1\<rparr>)
      else Inr ((), s))"

definition post_message_callback :: "int \<Rightarrow> lib_context \<Rightarrow> int \<times> lib_context" where
  "post_message_callback msg s = (SR_OK, send_event msg s)"

end
