(* ===== verification/Lib_Main.thy ===== *)
theory Lib_Main
  imports Lib_State
begin

text \<open>
  The operations of \<open>libsigrok/lib_main.c\<close>: start and end of the library, the device list, the
  active device, collecting, and USB hotplug. Each is a step on the whole state; a loop over
  the device list is a recursion on the list. The mutex only serialises these steps and is not
  modelled; an operation is atomic, but for the collect thread, whose two halves are steps of
  their own.
\<close>

section \<open>Looking up devices\<close>

text \<open>The loop over the list that stops at the first device that fits.\<close>

fun find_dev :: "lib_context \<Rightarrow> (did \<Rightarrow> sr_dev_inst \<Rightarrow> bool) \<Rightarrow> did list \<Rightarrow> fault + did option" where
  "find_dev s p [] = Inr None"
| "find_dev s p (i # is) =
     ebind (deref s i) (\<lambda>d. if p i d then Inr (Some i) else find_dev s p is)"

definition usb_device_matches_dev_inst :: "lib_env \<Rightarrow> sr_dev_inst \<Rightarrow> nat \<Rightarrow> bool" where
  "usb_device_matches_dev_inst E d usb =
     (if usb = 0 then False
      else if handle d = usb then True
      else if dev_type d \<noteq> DEV_TYPE_USB then False
      else (case conn d of
              None \<Rightarrow> False
            | Some u \<Rightarrow> bus u = libusb_get_bus_number E usb \<and> address u = libusb_get_device_address E usb))"

definition device_instance_matches :: "did \<times> sr_dev_inst \<Rightarrow> did \<times> sr_dev_inst \<Rightarrow> bool" where
  "device_instance_matches ia jb =
     (case (ia, jb) of ((i, a), (j, b)) \<Rightarrow>
      if i = j \<or> handle a = handle b then True
      else if driver a \<noteq> driver b \<or> dev_type a \<noteq> dev_type b then False
      else if dev_type a = DEV_TYPE_USB then
        (case (conn a, conn b) of
           (Some u, Some v) \<Rightarrow> bus u = bus v \<and> address u = address v
         | _ \<Rightarrow> False)
      else False)"

definition sr_usb_device_is_exists :: "lib_env \<Rightarrow> nat \<Rightarrow> bool lib" where
  "sr_usb_device_is_exists E usb s =
     (if usb = 0 then Inr (False, s)
      else ebind (find_dev s (\<lambda>i d. usb_device_matches_dev_inst E d usb) (device_list s))
             (\<lambda>r. Inr (r \<noteq> None, s)))"

definition ds_is_collecting :: "lib_context \<Rightarrow> bool" where
  "ds_is_collecting s = collect_thread s"

section \<open>Growing the list\<close>

definition append_device_instance_if_new :: "lib_env \<Rightarrow> did \<Rightarrow> int lib" where
  "append_device_instance_if_new E dev s =
     ebind (deref s dev) (\<lambda>d.
     if status d = SR_ST_INITIALIZING then
       ebind (destroy_device_instance E (Some dev) s) (\<lambda>(_, s1). Inr (0, s1))
     else
       ebind (find_dev s (\<lambda>i a. device_instance_matches (i, a) (dev, d)) (device_list s)) (\<lambda>dup.
       case dup of
         Some _ \<Rightarrow> ebind (destroy_device_instance E (Some dev) s) (\<lambda>(_, s1). Inr (0, s1))
       | None \<Rightarrow> Inr (1, s\<lparr>device_list := device_list s @ [dev]\<rparr>)))"

text \<open>A scan hands over instances it has allocated.\<close>

fun allocate_all :: "sr_dev_inst list \<Rightarrow> lib_context \<Rightarrow> did list \<times> lib_context" where
  "allocate_all [] s = ([], s)"
| "allocate_all (d # ds) s =
     (let (i, s1) = allocate d s; (is, s2) = allocate_all ds s1 in (i # is, s2))"

definition scan_driver :: "nat \<Rightarrow> sr_dev_driver \<Rightarrow> lib_context \<Rightarrow> did list \<times> lib_context" where
  "scan_driver k drv s = allocate_all (scan drv (calls s)) (s\<lparr>calls := calls s @ [DevScan k]\<rparr>)"

fun append_new :: "lib_env \<Rightarrow> did list \<Rightarrow> int \<Rightarrow> int lib" where
  "append_new E [] num s = Inr (num, s)"
| "append_new E (i # is) num s =
     ebind (append_device_instance_if_new E i s) (\<lambda>(n, s1). append_new E is (num + n) s1)"

fun scan_hardware :: "lib_env \<Rightarrow> nat \<Rightarrow> sr_dev_driver list \<Rightarrow> int \<Rightarrow> int lib" where
  "scan_hardware E k [] num s = Inr (num, s)"
| "scan_hardware E k (drv # drvs) num s =
     (if driver_type drv = 2 then
        (case scan_driver k drv s of (is, s1) \<Rightarrow>
         ebind (append_new E is num s1) (\<lambda>(num', s2). scan_hardware E (Suc k) drvs num' s2))
      else scan_hardware E (Suc k) drvs num s)"

definition process_attach_event :: "lib_env \<Rightarrow> bool \<Rightarrow> unit lib" where
  "process_attach_event E is_event s =
     ebind (scan_hardware E 0 (drivers E) 0 s) (\<lambda>(num, s1).
     let s2 = (if 0 < num \<and> is_event then post_event_async 1 s1 else s1) in
     Inr ((), s2\<lparr>attach_device_handle := 0\<rparr>))"

fun scan_demo :: "nat \<Rightarrow> sr_dev_driver list \<Rightarrow> lib_context \<Rightarrow> lib_context" where
  "scan_demo k [] s = s"
| "scan_demo k (drv # drvs) s =
     scan_demo (Suc k) drvs
       (if driver_type drv = 0 then
          (case scan_driver k drv s of (is, s1) \<Rightarrow> s1\<lparr>device_list := device_list s1 @ is\<rparr>)
        else s)"

definition make_demo_device_to_list :: "lib_env \<Rightarrow> lib_context \<Rightarrow> lib_context" where
  "make_demo_device_to_list E s = scan_demo 0 (drivers E) s"

section \<open>Reading the list\<close>

text \<open>\<open>strncpy\<close> into a buffer of \<open>n\<close> bytes whose last byte is kept 0.\<close>

definition copy_name :: "nat \<Rightarrow> string option \<Rightarrow> fault + string" where
  "copy_name n name = (case name of None \<Rightarrow> Inl NullDeref | Some t \<Rightarrow> Inr (take (n - 1) t))"

fun base_infos :: "lib_context \<Rightarrow> did list \<Rightarrow> fault + (nat \<times> string) list" where
  "base_infos s [] = Inr []"
| "base_infos s (i # is) =
     ebind (deref s i) (\<lambda>d.
     ebind (copy_name 150 (dev_name d)) (\<lambda>name.
     ebind (base_infos s is) (\<lambda>rest. Inr ((handle d, name) # rest))))"

text \<open>The status, the buffer (None for null) and the count, which the code sets only for a list
  that is not empty.\<close>

definition ds_get_device_list ::
  "bool \<Rightarrow> bool \<Rightarrow> (int \<times> (nat \<times> string) list option \<times> int option) lib" where
  "ds_get_device_list out_list mem s =
     (if \<not> out_list then Inr ((SR_ERR_ARG, None, None), s)
      else if device_list s = [] then Inr ((SR_OK, None, None), s)
      else if \<not> mem then Inr ((SR_ERR_MALLOC, None, None), s)
      else ebind (base_infos s (device_list s)) (\<lambda>p.
        Inr ((SR_OK, Some (p @ [(0, [])]), Some (int (length (device_list s)))), s)))"

fun position :: "'a list \<Rightarrow> 'a \<Rightarrow> int \<Rightarrow> int" where
  "position [] x i = - 1"
| "position (y # ys) x i = (if y = x then i else position ys x (i + 1))"

definition ds_get_actived_device_index :: "lib_context \<Rightarrow> int" where
  "ds_get_actived_device_index s =
     (case actived_device s of None \<Rightarrow> - 1 | Some i \<Rightarrow> position (device_list s) i 0)"

definition ds_have_actived_device :: "lib_context \<Rightarrow> int" where
  "ds_have_actived_device s = (if actived_device s \<noteq> None then 1 else 0)"

record ds_device_full_info =
  full_handle :: nat
  full_name :: string
  full_path :: string
  full_driver_name :: string
  full_dev_type :: int
  full_di :: "did option"
  full_actived_times :: int

text \<open>The record the caller passes is cleared first. \<open>fill_info\<close> says that it is not null.\<close>

definition ds_get_actived_device_info :: "lib_env \<Rightarrow> bool \<Rightarrow> (int \<times> ds_device_full_info option) lib" where
  "ds_get_actived_device_info E fill_info s =
     (let p = \<lparr>full_handle = 0, full_name = [], full_path = [], full_driver_name = [], full_dev_type = 0,
        full_di = None, full_actived_times = 0\<rparr> in
      if \<not> fill_info then Inr ((SR_ERR_ARG, None), s)
      else case actived_device s of
        None \<Rightarrow> Inr ((SR_ERR_CALL_STATUS, Some p), s)
      | Some i \<Rightarrow>
          ebind (deref s i) (\<lambda>d.
          ebind (copy_name 150 (dev_name d)) (\<lambda>name.
          let drv = (case driver_of E d of None \<Rightarrow> [] | Some drv \<Rightarrow>
                (case drv_name drv of None \<Rightarrow> [] | Some t \<Rightarrow> take 19 t));
              path = (if dev_type d = DEV_TYPE_FILELOG \<or> dev_type d = DEV_TYPE_DEMO
                then (case dev_path d of None \<Rightarrow> [] | Some t \<Rightarrow> take 255 t) else []) in
          Inr ((SR_OK, Some \<lparr>full_handle = handle d, full_name = name, full_path = path, full_driver_name = drv,
                 full_dev_type = dev_type d, full_di = Some i, full_actived_times = actived_times d\<rparr>), s))))"

text \<open>A question about the active device, with an answer for when there is none.\<close>

definition ask_active :: "'a \<Rightarrow> (sr_dev_inst \<Rightarrow> 'a) \<Rightarrow> 'a lib" where
  "ask_active none f s =
     (case actived_device s of
        None \<Rightarrow> Inr (none, s)
      | Some i \<Rightarrow> ebind (deref s i) (\<lambda>d. Inr (f d, s)))"

definition ds_get_actived_device_mode :: "int lib" where
  "ds_get_actived_device_mode = ask_active 99 mode"

definition ds_get_actived_device_init_status :: "(int \<times> int option) lib" where
  "ds_get_actived_device_init_status = ask_active (SR_ERR, None) (\<lambda>d. (SR_OK, Some (status d)))"

definition ds_trigger_is_enabled :: "bool lib" where
  "ds_trigger_is_enabled =
     ask_active False (\<lambda>d. \<exists>p \<in> set (channels d). trigger p \<noteq> None \<and> trigger p \<noteq> Some [])"

definition ds_channel_is_enabled :: "bool lib" where
  "ds_channel_is_enabled = ask_active False (\<lambda>d. \<exists>p \<in> set (channels d). enabled p)"

definition ds_get_actived_device_channels :: "sr_channel list lib" where
  "ds_get_actived_device_channels = ask_active [] channels"

definition ds_actived_device_supports_capability ::
  "(nat \<Rightarrow> config_lister option) \<Rightarrow> int \<Rightarrow> bool lib" where
  "ds_actived_device_supports_capability lister capability =
     ask_active False (\<lambda>d. ds_device_supports_capability lister (Some d) capability)"

definition ds_actived_device_supports_config_key ::
  "(nat \<Rightarrow> config_lister option) \<Rightarrow> int \<Rightarrow> bool lib" where
  "ds_actived_device_supports_config_key lister key =
     ask_active False (\<lambda>d. ds_device_supports_config_key lister (Some d) key)"

text \<open>
  \<open>ds_get_actived_device_mode_list\<close> logs that there is no active device and then reads its
  driver all the same. \<open>modes k\<close> is the entry of driver \<open>k\<close>.
\<close>

definition ds_get_actived_device_mode_list ::
  "(nat \<Rightarrow> (sr_dev_inst \<Rightarrow> 'm list) option) \<Rightarrow> 'm list option lib" where
  "ds_get_actived_device_mode_list modes s =
     (case actived_device s of
        None \<Rightarrow> Inl NullDeref
      | Some i \<Rightarrow>
          ebind (deref s i) (\<lambda>d.
          case driver d of
            None \<Rightarrow> Inr (None, s)
          | Some k \<Rightarrow> Inr (map_option (\<lambda>f. f d) (modes k), s)))"

text \<open>A change of a channel of the active device.\<close>

definition change_active :: "(sr_dev_inst option \<Rightarrow> int \<times> sr_dev_inst option) \<Rightarrow> int lib" where
  "change_active f s =
     (case actived_device s of
        None \<Rightarrow> Inr (SR_ERR_CALL_STATUS, s)
      | Some i \<Rightarrow>
          ebind (deref s i) (\<lambda>d. let (ret, d') = f (Some d) in
          Inr (ret, case d' of None \<Rightarrow> s | Some e \<Rightarrow> store i (Some e) s)))"

definition ds_enable_device_channel :: "nat option \<Rightarrow> bool \<Rightarrow> int lib" where
  "ds_enable_device_channel ch enable = change_active (\<lambda>d. sr_enable_device_channel d ch enable)"

definition ds_enable_device_channel_index :: "int \<Rightarrow> bool \<Rightarrow> int lib" where
  "ds_enable_device_channel_index ch_ix enable = change_active (\<lambda>d. sr_dev_probe_enable d ch_ix enable)"

definition ds_set_device_channel_name :: "int \<Rightarrow> string option \<Rightarrow> int lib" where
  "ds_set_device_channel_name ch_ix name = change_active (\<lambda>d. sr_dev_probe_name_set d ch_ix name)"

text \<open>Configuration of the active device; \<open>ops k\<close> are the entries of driver \<open>k\<close>.\<close>

definition ds_get_actived_device_config ::
  "(nat \<Rightarrow> config_ops) \<Rightarrow> bool \<Rightarrow> int \<Rightarrow> (int \<times> variant option) lib" where
  "ds_get_actived_device_config ops data_ptr key s =
     (case actived_device s of
        None \<Rightarrow> Inr ((SR_ERR_CALL_STATUS, None), s)
      | Some i \<Rightarrow>
          ebind (deref s i) (\<lambda>d.
          ebind (sr_config_get (map_option ops (driver d)) (Some d) data_ptr key) (\<lambda>r. Inr (r, s))))"

definition ds_set_actived_device_config :: "(nat \<Rightarrow> config_ops) \<Rightarrow> int \<Rightarrow> variant option \<Rightarrow> int lib" where
  "ds_set_actived_device_config ops key dat s =
     (case actived_device s of
        None \<Rightarrow> Inr (SR_ERR_CALL_STATUS, s)
      | Some i \<Rightarrow>
          ebind (deref s i) (\<lambda>d.
          ebind (sr_config_set ops (Some d) key dat) (\<lambda>(ret, d').
          Inr (ret, case d' of None \<Rightarrow> s | Some e \<Rightarrow> store i (Some e) s))))"

definition ds_get_actived_device_config_list ::
  "(nat \<Rightarrow> config_ops) \<Rightarrow> bool \<Rightarrow> int \<Rightarrow> (int \<times> variant option) lib" where
  "ds_get_actived_device_config_list ops data_ptr key s =
     (case actived_device s of
        None \<Rightarrow> Inr ((SR_ERR_CALL_STATUS, None), s)
      | Some i \<Rightarrow>
          ebind (deref s i) (\<lambda>d.
          ebind (sr_config_list (map_option ops (driver d)) (Some d) data_ptr key) (\<lambda>r. Inr (r, s))))"

definition ds_get_actived_device_config_info :: "int \<Rightarrow> lib_context \<Rightarrow> sr_config_info option" where
  "ds_get_actived_device_config_info key s =
     (if actived_device s = None then None else sr_config_info_get key)"

section \<open>The active device\<close>

text \<open>The loop that opens the new device; \<open>old\<close> is the device that was closed for it.\<close>

definition switch_to :: "lib_env \<Rightarrow> did \<Rightarrow> did option \<Rightarrow> int lib" where
  "switch_to E dev old s =
     ebind (open_device_instance E (Some dev) s) (\<lambda>(ret, s1).
     if ret = SR_OK then
       ebind (deref s1 dev) (\<lambda>d.
       Inr (ret, store dev (Some (d\<lparr>actived_times := actived_times d + 1\<rparr>)) (s1\<lparr>actived_device := Some dev\<rparr>)))
     else
       let back = (case old of
                     Some i \<Rightarrow> Some i
                   | None \<Rightarrow> (case device_list s1 of [] \<Rightarrow> None | i # _ \<Rightarrow> Some i)) in
       case back of
         None \<Rightarrow> Inr (ret, s1)
       | Some i \<Rightarrow> open_device_instance E (Some i) (s1\<lparr>actived_device := Some i\<rparr>))"

text \<open>The device that was active is destroyed, when its unplugging had delayed that, or closed. The
  result is the status and the device to go back to.\<close>

definition leave_active :: "lib_env \<Rightarrow> (int \<times> did option) lib" where
  "leave_active E s =
     (case actived_device s of
        None \<Rightarrow> Inr ((SR_OK, None), s)
      | Some i \<Rightarrow>
          if is_delay_destory s then
            ebind (destroy_device_instance E (Some i) s) (\<lambda>(ret, s1).
            if ret \<noteq> SR_OK then Inr ((ret, None), s1)
            else Inr ((SR_OK, None), s1\<lparr>actived_device := None, is_delay_destory := False\<rparr>))
          else
            ebind (close_device_instance E (Some i) s) (\<lambda>(ret, s1). Inr ((ret, Some i), s1)))"

definition ds_active_device :: "lib_env \<Rightarrow> nat \<Rightarrow> int lib" where
  "ds_active_device E hdl s0 =
     (let s = s0\<lparr>last_error := SR_OK\<rparr> in
      if hdl = 0 then Inr (SR_ERR_ARG, s)
      else if ds_is_collecting s then Inr (SR_ERR_CALL_STATUS, s)
      else
        ebind (leave_active E s) (\<lambda>((ret, old), s1).
        if ret \<noteq> SR_OK then Inr (ret, s1)
        else
          ebind (find_dev s1 (\<lambda>i d. handle d = hdl) (device_list s1)) (\<lambda>found.
          case found of
            None \<Rightarrow> Inr (SR_ERR_CALL_STATUS, s1)
          | Some dev \<Rightarrow> switch_to E dev old s1)))"

text \<open>The loop over the list with the index, which remembers the last handle it saw.\<close>

fun nth_handle :: "lib_context \<Rightarrow> did list \<Rightarrow> int \<Rightarrow> int \<Rightarrow> nat \<Rightarrow> fault + nat \<times> nat" where
  "nth_handle s [] index i lst = Inr (0, lst)"
| "nth_handle s (dev # devs) index i lst =
     ebind (deref s dev) (\<lambda>d.
     if index = i then Inr (handle d, handle d) else nth_handle s devs index (i + 1) (handle d))"

definition ds_active_device_by_index :: "lib_env \<Rightarrow> int \<Rightarrow> int lib" where
  "ds_active_device_by_index E index s =
     ebind (nth_handle s (device_list s) index 0 0) (\<lambda>(h, lst).
     let hdl = (if index = - 1 then lst else h) in
     if hdl = 0 then Inr (SR_ERR_CALL_STATUS, s) else ds_active_device E hdl s)"

text \<open>\<open>sr_new_virtual_device\<close> reads the file; it gives a status and the new instance.\<close>

definition ds_device_from_file :: "string option \<Rightarrow> int + sr_dev_inst \<Rightarrow> int lib" where
  "ds_device_from_file file_path loaded s =
     (if file_path = None \<or> file_path = Some [] then Inr (SR_ERR_ARG, s)
      else (case loaded of
              Inl ret \<Rightarrow> Inr (ret, s)
            | Inr d \<Rightarrow> let (i, s1) = allocate d s in
                Inr (SR_OK, s1\<lparr>device_list := device_list s1 @ [i]\<rparr>)))"

text \<open>The two places where \<open>ds_remove_device\<close> destroys: the active device whose destruction was
  delayed, and the device in the list.\<close>

definition remove_delayed :: "lib_env \<Rightarrow> bool \<Rightarrow> bool lib" where
  "remove_delayed E is_active s =
     (if is_active \<and> is_delay_destory s then
        ebind (destroy_device_instance E (actived_device s) s) (\<lambda>(ret, s1).
        if ret \<noteq> SR_OK then Inr (False, s1)
        else Inr (True, s1\<lparr>actived_device := None, is_delay_destory := False\<rparr>))
      else Inr (True, s))"

definition remove_listed :: "lib_env \<Rightarrow> nat \<Rightarrow> int lib" where
  "remove_listed E hdl s =
     ebind (find_dev s (\<lambda>i d. handle d = hdl) (device_list s)) (\<lambda>found.
     case found of
       None \<Rightarrow> Inr (SR_ERR_CALL_STATUS, s)
     | Some i \<Rightarrow>
         ebind (destroy_device_instance E (Some i) s) (\<lambda>(ret, s1).
         if ret \<noteq> SR_OK then Inr (SR_ERR, s1)
         else
           let s2 = s1\<lparr>device_list := remove1 i (device_list s1)\<rparr> in
           Inr (SR_OK, if actived_device s2 = Some i then s2\<lparr>actived_device := None\<rparr> else s2)))"

definition ds_remove_device :: "lib_env \<Rightarrow> nat \<Rightarrow> int lib" where
  "ds_remove_device E hdl s =
     (if hdl = 0 then Inr (SR_ERR_ARG, s)
      else
        ebind (ask_active False (\<lambda>d. handle d = hdl) s) (\<lambda>(is_active, _).
        if is_active \<and> ds_is_collecting s then Inr (SR_ERR_CALL_STATUS, s)
        else
          ebind (remove_delayed E is_active s) (\<lambda>(ok, s1).
          if \<not> ok then Inr (SR_ERR, s1) else remove_listed E hdl s1)))"

section \<open>Collecting\<close>

text \<open>\<open>ds_start_collect\<close> up to the creation of the thread, and the store of its pointer.\<close>

definition start_collect_spawn :: "lib_env \<Rightarrow> int lib" where
  "start_collect_spawn E s0 =
     (let s = s0\<lparr>last_error := SR_OK\<rparr> in
      if ds_is_collecting s then Inr (SR_ERR_CALL_STATUS, s)
      else case actived_device s of
        None \<Rightarrow> Inr (SR_ERR_CALL_STATUS, s)
      | Some i \<Rightarrow>
          ebind (deref s i) (\<lambda>d.
          if status d = SR_ST_INITIALIZING then Inr (SR_ERR_CALL_STATUS, s)
          else if \<not> (\<exists>p \<in> set (channels d). enabled p) then Inr (SR_ERR_CALL_STATUS, s)
          else if \<not> data_forward_callback s then Inr (SR_ERR_CALL_STATUS, s)
          else
            let s1 = sr_session_new s in
            ebind (if status d \<noteq> SR_ST_ACTIVE then open_device_instance E (Some i) s1
                   else Inr (SR_OK, s1)) (\<lambda>(ret, s2).
            if ret \<noteq> SR_OK then Inr (ret, s2)
            else Inr (SR_OK, s2\<lparr>collect_proc := Some Spawned\<rparr>))))"

definition start_collect_store :: "lib_context \<Rightarrow> lib_context" where
  "start_collect_store s = s\<lparr>collect_thread := True\<rparr>"

definition ds_start_collect :: "lib_env \<Rightarrow> int lib" where
  "ds_start_collect E s =
     ebind (start_collect_spawn E s) (\<lambda>(ret, s1).
     Inr (ret, if ret = SR_OK then start_collect_store s1 else s1))"

text \<open>The end of the collect thread, at the label \<open>END\<close>.\<close>

definition collect_run_end :: "bool \<Rightarrow> lib_context \<Rightarrow> lib_context" where
  "collect_run_end failed s =
     (let s1 = s\<lparr>collect_thread := False, collect_proc := None\<rparr>;
          s2 = (if failed then send_event 106 s1
                else if is_stop_by_detached s1 then post_event_async 105 s1
                else send_event 102 s1) in
      s2\<lparr>is_stop_by_detached := False\<rparr>)"

text \<open>The thread up to the main loop of the session, and from there to its end.\<close>

definition collect_run_begin :: "lib_env \<Rightarrow> unit lib" where
  "collect_run_begin E s =
     (let s1 = send_event 101 s in
      case actived_device s1 of
        None \<Rightarrow> Inr ((), collect_run_end True s1)
      | Some i \<Rightarrow>
          ebind (deref s1 i) (\<lambda>d.
          case driver_of E d of
            None \<Rightarrow> Inr ((), collect_run_end True s1)
          | Some drv \<Rightarrow>
              (case dev_acquisition_start drv of
                 None \<Rightarrow> Inr ((), collect_run_end True s1)
               | Some f \<Rightarrow>
                   let (ret, s2) = call_driver (AcquisitionStart i) f i d s1 in
                   if ret \<noteq> SR_OK then Inr ((), collect_run_end True s2)
                   else
                     let (ret, s3) = sr_session_run_begin (send_event 103 s2) in
                     if ret \<noteq> SR_OK then Inr ((), collect_run_end True (send_event 104 s3))
                     else Inr ((), s3\<lparr>collect_proc := Some InSession\<rparr>))))"

definition collect_run_finish :: "lib_env \<Rightarrow> unit lib" where
  "collect_run_finish E s =
     ebind (sr_session_run_end E s) (\<lambda>(_, s1).
     Inr ((), collect_run_end False (send_event 104 s1)))"

definition collect_run_proc :: "lib_env \<Rightarrow> unit lib" where
  "collect_run_proc E s =
     (case collect_proc s of
        None \<Rightarrow> Inr ((), s)
      | Some Spawned \<Rightarrow>
          ebind (collect_run_begin E s) (\<lambda>(_, s1).
          if collect_proc s1 = Some InSession then collect_run_finish E s1 else Inr ((), s1))
      | Some InSession \<Rightarrow> collect_run_finish E s)"

text \<open>Waiting for the thread is running what is left of it. \<open>self\<close> says that the caller is the
  collect thread.\<close>

definition ds_stop_collect :: "lib_env \<Rightarrow> bool \<Rightarrow> int lib" where
  "ds_stop_collect E self s =
     (if \<not> ds_is_collecting s then Inr (SR_ERR_CALL_STATUS, s)
      else
        let s1 = snd (sr_session_stop s) in
        if collect_thread s1 \<and> self then Inr (SR_OK, s1)
        else
          ebind (if collect_thread s1 then collect_run_proc E s1 else Inr ((), s1)) (\<lambda>(_, s2).
          Inr (SR_OK, s2\<lparr>collect_thread := False\<rparr>)))"

definition ds_release_actived_device :: "lib_env \<Rightarrow> bool \<Rightarrow> int lib" where
  "ds_release_actived_device E self s =
     (case actived_device s of
        None \<Rightarrow> Inr (SR_ERR_CALL_STATUS, s)
      | Some _ \<Rightarrow>
          if ds_is_collecting s \<and> collect_thread s \<and> self then
            Inr (SR_OK, snd (sr_session_stop s))
          else
            ebind (if ds_is_collecting s then ds_stop_collect E self s else Inr (SR_OK, s)) (\<lambda>(_, s1).
            case actived_device s1 of
              None \<Rightarrow> Inl NullDeref
            | Some i \<Rightarrow>
                ebind (deref s1 i) (\<lambda>_.
                ebind (close_device_instance E (Some i) s1) (\<lambda>(ret, s2).
                if ret \<noteq> SR_OK then Inr (ret, s2)
                else Inr (SR_OK, snd (sr_session_destroy s2))))))"

definition ds_set_event_callback :: "bool \<Rightarrow> lib_context \<Rightarrow> lib_context" where
  "ds_set_event_callback cb s = s\<lparr>event_callback := cb\<rparr>"

definition ds_set_datafeed_callback :: "bool \<Rightarrow> lib_context \<Rightarrow> lib_context" where
  "ds_set_datafeed_callback cb s = s\<lparr>data_forward_callback := cb\<rparr>"

definition ds_set_last_error :: "int \<Rightarrow> lib_context \<Rightarrow> lib_context" where
  "ds_set_last_error err s = s\<lparr>last_error := err\<rparr>"

definition ds_get_last_error :: "lib_context \<Rightarrow> int" where
  "ds_get_last_error s = last_error s"

definition ds_data_forward :: "bool \<Rightarrow> bool \<Rightarrow> lib_context \<Rightarrow> int" where
  "ds_data_forward sdi packet s =
     (if \<not> sdi then SR_ERR_ARG else if \<not> packet then SR_ERR_ARG
      else if data_forward_callback s then SR_OK else SR_ERR)"

section \<open>USB hotplug\<close>

definition update_device_handle :: "lib_env \<Rightarrow> nat \<Rightarrow> nat \<Rightarrow> int lib" where
  "update_device_handle E old new s =
     ebind (find_dev s (\<lambda>i d. conn d \<noteq> None \<and> usb_device_matches_dev_inst E d old) (device_list s)) (\<lambda>found.
     case found of
       None \<Rightarrow> Inr (SR_ERR, s)
     | Some i \<Rightarrow>
         ebind (if actived_device s = Some i then close_device_instance E (Some i) s else Inr (SR_OK, s)) (\<lambda>(ret, s1).
         if ret \<noteq> SR_OK then Inr (SR_ERR, s1)
         else
           ebind (deref s1 i) (\<lambda>d.
           let u = \<lparr>usb_dev = new, bus = libusb_get_bus_number E new, address = libusb_get_device_address E new\<rparr>;
               s2 = store i (Some (d\<lparr>conn := Some u, handle := new\<rparr>)) s1 in
           Inr (SR_OK, if actived_device s2 = Some i
             then s2\<lparr>transaction_id := transaction_id s2 + 1, transaction_command := 1\<rparr> else s2))))"

text \<open>The devices libusb lists now, of which the code looks at the first 20.\<close>

fun first_unlisted :: "nat list \<Rightarrow> nat lib" where
  "first_unlisted [] s = Inr (0, s)"
| "first_unlisted (u # us) s =
     ebind (find_dev s (\<lambda>i d. handle d = u) (device_list s)) (\<lambda>found.
     case found of None \<Rightarrow> Inr (u, s) | Some _ \<Rightarrow> first_unlisted us s)"

definition get_new_attached_usb_device :: "nat list \<Rightarrow> nat lib" where
  "get_new_attached_usb_device usb = first_unlisted (take 20 usb)"

definition get_new_detached_usb_device :: "nat list \<Rightarrow> nat lib" where
  "get_new_detached_usb_device usb s =
     ebind (find_dev s (\<lambda>i d. dev_type d = DEV_TYPE_USB \<and> handle d \<notin> set (take 20 usb)) (device_list s)) (\<lambda>found.
     case found of
       None \<Rightarrow> Inr (0, s)
     | Some i \<Rightarrow> ebind (deref s i) (\<lambda>d. Inr (handle d, s)))"

text \<open>
  The hotplug callback. \<open>usb\<close> is the current device list of libusb, \<open>self\<close> says whether the
  collect thread is the one that handles the USB events; a null \<open>dev\<close> makes the code look for
  the device itself. The events are 1 for attach and 2 for detach.
\<close>

definition hotplug_attached :: "lib_env \<Rightarrow> nat \<Rightarrow> unit lib" where
  "hotplug_attached E dev s =
     ebind (sr_usb_device_is_exists E dev s) (\<lambda>(known, _).
     if known then Inr ((), s)
     else
       ebind (if is_waitting_reconnect s \<and> detach_device_handle s \<noteq> 0 then
                ebind (update_device_handle E (detach_device_handle s) dev s) (\<lambda>(ret, s1).
                Inr (ret = SR_OK, s1\<lparr>detach_device_handle := 0\<rparr>))
              else Inr (False, s)) (\<lambda>(done, s1).
       let s2 = (if done then s1 else s1\<lparr>attach_event_flag := True, attach_device_handle := dev\<rparr>) in
       Inr ((), s2\<lparr>is_waitting_reconnect := False\<rparr>)))"

text \<open>A second unplugged device is ignored while the first is pending.\<close>

definition ignore_detach :: "lib_env \<Rightarrow> nat \<Rightarrow> bool lib" where
  "ignore_detach E dev s =
     (if detach_device_handle s = 0 then Inr (False, s)
      else
        ebind (sr_usb_device_is_exists E (detach_device_handle s) s) (\<lambda>(pending, _).
        if \<not> pending then Inr (False, s)
        else ebind (sr_usb_device_is_exists E dev s) (\<lambda>(known, _). Inr (\<not> known, s))))"

definition hotplug_detached :: "lib_env \<Rightarrow> bool \<Rightarrow> nat \<Rightarrow> unit lib" where
  "hotplug_detached E self dev s =
     ebind (ignore_detach E dev s) (\<lambda>(ignored, _).
     if ignored then Inr ((), s)
     else
       ebind (ask_active False (\<lambda>d. usb_device_matches_dev_inst E d dev) s) (\<lambda>(is_active, _).
       ebind (if is_active \<and> ds_is_collecting s
              then ds_release_actived_device E self (s\<lparr>is_stop_by_detached := True\<rparr>)
              else Inr (SR_OK, s)) (\<lambda>(_, s1).
       Inr ((), s1\<lparr>is_waitting_reconnect := True, check_reconnect_times := 0,
                   detach_device_handle := dev\<rparr>))))"

definition hotplug_event_listen_callback :: "lib_env \<Rightarrow> nat list \<Rightarrow> bool \<Rightarrow> nat \<Rightarrow> int \<Rightarrow> unit lib" where
  "hotplug_event_listen_callback E usb self dev0 event s =
     ebind (if dev0 = 0 then
              (if event = 1 then get_new_attached_usb_device usb s else get_new_detached_usb_device usb s)
            else Inr (dev0, s)) (\<lambda>(dev, _).
     if dev = 0 then Inr ((), s)
     else if event = 1 then hotplug_attached E dev s
     else if event = 2 then hotplug_detached E self dev s
     else Inr ((), s))"

text \<open>
  The last part of \<open>process_detach_event\<close>: the device is logged, and so read, after it
  may have been destroyed.
\<close>

definition process_detach_event :: "lib_env \<Rightarrow> unit lib" where
  "process_detach_event E s =
     (let ev_dev = detach_device_handle s in
      if ev_dev = 0 then Inr ((), s)
      else
        let s0 = s\<lparr>detach_device_handle := 0\<rparr> in
        ebind (find_dev s0 (\<lambda>i d. usb_device_matches_dev_inst E d ev_dev) (device_list s0)) (\<lambda>found.
        case found of
          None \<Rightarrow> Inr ((), s0)
        | Some i \<Rightarrow>
            ebind (if actived_device s0 = Some i then Inr ((SR_OK, 2), s0\<lparr>is_delay_destory := True\<rparr>)
                   else ebind (destroy_device_instance E (Some i) s0) (\<lambda>(ret, s1). Inr ((ret, 3), s1)))
              (\<lambda>((ret, ev), s1).
            if ret \<noteq> SR_OK then Inr ((), s1)
            else
              ebind (deref s1 i) (\<lambda>_.
              Inr ((), post_event_async ev (s1\<lparr>device_list := remove1 i (device_list s1)\<rparr>))))))"

definition poll_usb_hotplug_fallback :: "lib_env \<Rightarrow> nat list \<Rightarrow> unit lib" where
  "poll_usb_hotplug_fallback E usb s =
     (if \<not> sr_ctx s then Inr ((), s)
      else if attach_event_flag s \<or> detach_event_flag s \<or> is_waitting_reconnect s then Inr ((), s)
      else
        ebind (get_new_attached_usb_device usb s) (\<lambda>(dev, _).
        if dev \<noteq> 0 then hotplug_event_listen_callback E usb False dev 1 s
        else
          ebind (get_new_detached_usb_device usb s) (\<lambda>(dev, _).
          if dev \<noteq> 0 then hotplug_event_listen_callback E usb False dev 2 s else Inr ((), s))))"

text \<open>The reconnect timer and the reopening of the current device, at the end of a round.\<close>

definition check_reconnect :: "lib_context \<Rightarrow> lib_context" where
  "check_reconnect s =
     (if is_waitting_reconnect s then
        let s1 = s\<lparr>check_reconnect_times := check_reconnect_times s + 1\<rparr> in
        if check_reconnect_times s1 = 5
        then s1\<lparr>detach_event_flag := True, is_waitting_reconnect := False\<rparr> else s1
      else s)"

definition run_transaction :: "lib_env \<Rightarrow> unit lib" where
  "run_transaction E s =
     (if transaction_id s \<noteq> cur_trans_id s then
        let s1 = s\<lparr>cur_trans_id := transaction_id s\<rparr> in
        if transaction_command s1 = 1 \<and> actived_device s1 \<noteq> None
        then ebind (open_device_instance E (actived_device s1) s1) (\<lambda>(_, s2). Inr ((), s2))
        else Inr ((), s1)
      else Inr ((), s))"

text \<open>One round of the loop of the hotplug thread.\<close>

definition hotplug_round :: "lib_env \<Rightarrow> nat list \<Rightarrow> unit lib" where
  "hotplug_round E usb s =
     ebind (poll_usb_hotplug_fallback E usb s) (\<lambda>(_, s1).
     ebind (if attach_event_flag s1 then
              ebind (process_attach_event E True s1) (\<lambda>(_, t). Inr ((), t\<lparr>attach_event_flag := False\<rparr>))
            else Inr ((), s1)) (\<lambda>(_, s2).
     ebind (if detach_event_flag s2 then
              ebind (process_detach_event E s2) (\<lambda>(_, t). Inr ((), t\<lparr>detach_event_flag := False\<rparr>))
            else Inr ((), s2)) (\<lambda>(_, s3).
     run_transaction E (check_reconnect s3))))"

section \<open>Start and end of the library\<close>

fun init_drivers :: "sr_dev_driver list \<Rightarrow> int" where
  "init_drivers [] = SR_OK"
| "init_drivers (drv # drvs) = (if drv_init drv \<noteq> SR_OK then SR_ERR else init_drivers drvs)"

definition ds_lib_init :: "lib_env \<Rightarrow> int lib" where
  "ds_lib_init E s =
     (if sr_ctx s then Inr (SR_ERR_HAVE_DONE, s)
      else if sr_init_ret E \<noteq> SR_OK then Inr (sr_init_ret E, s)
      else
        let s1 = s\<lparr>sr_ctx := True, lib_exit_flag := False,
              trigger_state := snd (ds_trigger_init True (trigger_state s))\<rparr> in
        if init_drivers (drivers E) \<noteq> SR_OK then Inr (SR_ERR, s1)
        else
          ebind (process_attach_event E False (make_demo_device_to_list E s1)) (\<lambda>(_, s2).
          Inr (SR_OK, s2\<lparr>hotplug_thread := True, cur_trans_id := 0\<rparr>)))"

fun destroy_all :: "lib_env \<Rightarrow> did list \<Rightarrow> int lib" where
  "destroy_all E [] s = Inr (SR_OK, s)"
| "destroy_all E (i # is) s =
     ebind (destroy_device_instance E (Some i) s) (\<lambda>(ret, s1).
     if ret \<noteq> SR_OK then Inr (ret, s1) else destroy_all E is s1)"

definition ds_lib_exit :: "lib_env \<Rightarrow> int lib" where
  "ds_lib_exit E s =
     (if \<not> sr_ctx s then Inr (SR_ERR_HAVE_DONE, s)
      else
        ebind (ds_release_actived_device E False s) (\<lambda>(ret, s1).
        if ret \<noteq> SR_OK \<and> ret \<noteq> SR_ERR_CALL_STATUS then Inr (ret, s1)
        else
          let s2 = s1\<lparr>lib_exit_flag := True, hotplug_thread := False\<rparr> in
          ebind (if is_delay_destory s2 \<and> actived_device s2 \<noteq> None then
                   ebind (destroy_device_instance E (actived_device s2) s2) (\<lambda>(ret, t).
                   if ret \<noteq> SR_OK then Inr (ret, t)
                   else Inr (SR_OK, t\<lparr>actived_device := None, is_delay_destory := False\<rparr>))
                 else Inr (SR_OK, s2)) (\<lambda>(ret, s3).
          if ret \<noteq> SR_OK then Inr (ret, s3)
          else
            ebind (destroy_all E (device_list s3) s3) (\<lambda>(ret, s4).
            if ret \<noteq> SR_OK then Inr (ret, s4)
            else Inr (SR_OK, s4\<lparr>device_list := [], sr_ctx := False,
              trigger_state := snd (ds_trigger_destroy (trigger_state s4))\<rparr>)))))"

end
