(* ===== verification/Lib_Invariant.thy ===== *)
theory Lib_Invariant
  imports Lib_Main
begin

text \<open>
  The device registry of the library never dangles: an invariant of the state, kept by every
  operation but the end of the library, together with the fact that no operation reads a
  freed device, but the log line of the detach event. Both are proved operation by operation
  with one predicate, \<open>ok\<close>, which says what a computation may fault with and what holds of
  its result; \<open>ok\<close> of a sequence is \<open>ok\<close> of its parts.
\<close>

section \<open>Results that are as they should be\<close>

definition ok :: "fault set \<Rightarrow> fault + 'a \<Rightarrow> ('a \<Rightarrow> bool) \<Rightarrow> bool" where
  "ok F x Q = (case x of Inl f \<Rightarrow> f \<in> F | Inr y \<Rightarrow> Q y)"

named_theorems ok_rules \<open>the predicate ok of each operation\<close>

lemma ok_simps [simp]:
  "ok F (Inl f) Q \<longleftrightarrow> f \<in> F"
  "ok F (Inr y) Q \<longleftrightarrow> Q y"
  by (simp_all add: ok_def)

lemma ok_bind: "ok F x R \<Longrightarrow> (\<And>y. x = Inr y \<Longrightarrow> R y \<Longrightarrow> ok F (k y) Q) \<Longrightarrow> ok F (ebind x k) Q"
  by (cases x) (auto simp: ok_def)

lemma ok_bind2:
  "ok F x (\<lambda>(a, b). R a b) \<Longrightarrow> (\<And>a b. x = Inr (a, b) \<Longrightarrow> R a b \<Longrightarrow> ok F (k a b) Q) \<Longrightarrow>
   ok F (ebind x (\<lambda>(a, b). k a b)) Q"
  by (cases x) (auto simp: ok_def)

lemma ok_mono: "ok F x R \<Longrightarrow> (\<And>y. R y \<Longrightarrow> Q y) \<Longrightarrow> ok F x Q"
  by (cases x) (auto simp: ok_def)

lemma ok_if: "(c \<Longrightarrow> ok F x Q) \<Longrightarrow> (\<not> c \<Longrightarrow> ok F y Q) \<Longrightarrow> ok F (if c then x else y) Q"
  by simp

section \<open>The invariant\<close>

text \<open>
  The devices of the list are different and alive. The active device is alive; it is in the
  list, or it was unplugged and its destruction is delayed, and then it is not in the list.
\<close>

definition registry_ok :: "lib_context \<Rightarrow> bool" where
  "registry_ok s \<longleftrightarrow> distinct (device_list s) \<and> (\<forall>i \<in> set (device_list s). live s i)
     \<and> (case actived_device s of
          None \<Rightarrow> \<not> is_delay_destory s
        | Some i \<Rightarrow> live s i \<and> (is_delay_destory s \<longleftrightarrow> i \<notin> set (device_list s)))"

text \<open>The contract of the drivers: an instance whose destruction failed is still there.\<close>

definition drivers_ok :: "lib_env \<Rightarrow> bool" where
  "drivers_ok E \<longleftrightarrow> (\<forall>drv \<in> set (drivers E). \<forall>f. dev_destroy drv = Some f \<longrightarrow>
     (\<forall>h d. fst (f h d) \<noteq> SR_OK \<longrightarrow> snd (f h d) \<noteq> None))"

text \<open>What an operation that only works on instances leaves alone.\<close>

definition same_registry :: "lib_context \<Rightarrow> lib_context \<Rightarrow> bool" where
  "same_registry s t \<longleftrightarrow> device_list t = device_list s \<and> actived_device t = actived_device s
     \<and> is_delay_destory t = is_delay_destory s \<and> (\<forall>i. live s i \<longrightarrow> live t i)"

lemma same_registry_refl [simp]: "same_registry s s"
  by (simp add: same_registry_def)

lemma same_registry_trans: "same_registry s t \<Longrightarrow> same_registry t u \<Longrightarrow> same_registry s u"
  by (simp add: same_registry_def)

lemma same_registry_ok: "same_registry s t \<Longrightarrow> registry_ok s \<Longrightarrow> registry_ok t"
  by (auto simp: same_registry_def registry_ok_def split: option.splits)

lemma same_registryI:
  "device_list t = device_list s \<Longrightarrow> actived_device t = actived_device s \<Longrightarrow>
   is_delay_destory t = is_delay_destory s \<Longrightarrow> heap t = heap s \<Longrightarrow> same_registry s t"
  by (simp add: same_registry_def live_def)

text \<open>Fields the registry does not depend on.\<close>

lemma live_fields [simp]:
  "live (s\<lparr>sr_ctx := x_sr_ctx\<rparr>) i = live s i" "live (s\<lparr>event_callback := x_event_callback\<rparr>) i = live s i"
  "live (s\<lparr>data_forward_callback := x_data_forward_callback\<rparr>) i = live s i" "live (s\<lparr>lib_exit_flag := x_lib_exit_flag\<rparr>) i = live s i"
  "live (s\<lparr>attach_event_flag := x_attach_event_flag\<rparr>) i = live s i" "live (s\<lparr>detach_event_flag := x_detach_event_flag\<rparr>) i = live s i"
  "live (s\<lparr>is_waitting_reconnect := x_is_waitting_reconnect\<rparr>) i = live s i" "live (s\<lparr>check_reconnect_times := x_check_reconnect_times\<rparr>) i = live s i"
  "live (s\<lparr>attach_device_handle := x_attach_device_handle\<rparr>) i = live s i" "live (s\<lparr>detach_device_handle := x_detach_device_handle\<rparr>) i = live s i"
  "live (s\<lparr>hotplug_thread := x_hotplug_thread\<rparr>) i = live s i" "live (s\<lparr>collect_thread := x_collect_thread\<rparr>) i = live s i"
  "live (s\<lparr>collect_proc := x_collect_proc\<rparr>) i = live s i" "live (s\<lparr>callback_thread_count := x_callback_thread_count\<rparr>) i = live s i"
  "live (s\<lparr>is_stop_by_detached := x_is_stop_by_detached\<rparr>) i = live s i" "live (s\<lparr>transaction_id := x_transaction_id\<rparr>) i = live s i"
  "live (s\<lparr>transaction_command := x_transaction_command\<rparr>) i = live s i" "live (s\<lparr>cur_trans_id := x_cur_trans_id\<rparr>) i = live s i"
  "live (s\<lparr>last_error := x_last_error\<rparr>) i = live s i" "live (s\<lparr>session := x_session\<rparr>) i = live s i"
  "live (s\<lparr>trigger_state := x_trigger_state\<rparr>) i = live s i" "live (s\<lparr>events := x_events\<rparr>) i = live s i"
  "live (s\<lparr>posted := x_posted\<rparr>) i = live s i" "live (s\<lparr>calls := x_calls\<rparr>) i = live s i"
  by (simp_all add: live_def)

lemma inst_fields [simp]:
  "inst (s\<lparr>sr_ctx := x_sr_ctx\<rparr>) i = inst s i" "inst (s\<lparr>event_callback := x_event_callback\<rparr>) i = inst s i"
  "inst (s\<lparr>data_forward_callback := x_data_forward_callback\<rparr>) i = inst s i" "inst (s\<lparr>lib_exit_flag := x_lib_exit_flag\<rparr>) i = inst s i"
  "inst (s\<lparr>attach_event_flag := x_attach_event_flag\<rparr>) i = inst s i" "inst (s\<lparr>detach_event_flag := x_detach_event_flag\<rparr>) i = inst s i"
  "inst (s\<lparr>is_waitting_reconnect := x_is_waitting_reconnect\<rparr>) i = inst s i" "inst (s\<lparr>check_reconnect_times := x_check_reconnect_times\<rparr>) i = inst s i"
  "inst (s\<lparr>attach_device_handle := x_attach_device_handle\<rparr>) i = inst s i" "inst (s\<lparr>detach_device_handle := x_detach_device_handle\<rparr>) i = inst s i"
  "inst (s\<lparr>hotplug_thread := x_hotplug_thread\<rparr>) i = inst s i" "inst (s\<lparr>collect_thread := x_collect_thread\<rparr>) i = inst s i"
  "inst (s\<lparr>collect_proc := x_collect_proc\<rparr>) i = inst s i" "inst (s\<lparr>callback_thread_count := x_callback_thread_count\<rparr>) i = inst s i"
  "inst (s\<lparr>is_stop_by_detached := x_is_stop_by_detached\<rparr>) i = inst s i" "inst (s\<lparr>transaction_id := x_transaction_id\<rparr>) i = inst s i"
  "inst (s\<lparr>transaction_command := x_transaction_command\<rparr>) i = inst s i" "inst (s\<lparr>cur_trans_id := x_cur_trans_id\<rparr>) i = inst s i"
  "inst (s\<lparr>last_error := x_last_error\<rparr>) i = inst s i" "inst (s\<lparr>session := x_session\<rparr>) i = inst s i"
  "inst (s\<lparr>trigger_state := x_trigger_state\<rparr>) i = inst s i" "inst (s\<lparr>events := x_events\<rparr>) i = inst s i"
  "inst (s\<lparr>posted := x_posted\<rparr>) i = inst s i" "inst (s\<lparr>calls := x_calls\<rparr>) i = inst s i"
  by (simp_all add: inst_def)

lemma registry_ok_fields [simp]:
  "registry_ok (s\<lparr>sr_ctx := x_sr_ctx\<rparr>) = registry_ok s" "registry_ok (s\<lparr>event_callback := x_event_callback\<rparr>) = registry_ok s"
  "registry_ok (s\<lparr>data_forward_callback := x_data_forward_callback\<rparr>) = registry_ok s" "registry_ok (s\<lparr>lib_exit_flag := x_lib_exit_flag\<rparr>) = registry_ok s"
  "registry_ok (s\<lparr>attach_event_flag := x_attach_event_flag\<rparr>) = registry_ok s" "registry_ok (s\<lparr>detach_event_flag := x_detach_event_flag\<rparr>) = registry_ok s"
  "registry_ok (s\<lparr>is_waitting_reconnect := x_is_waitting_reconnect\<rparr>) = registry_ok s" "registry_ok (s\<lparr>check_reconnect_times := x_check_reconnect_times\<rparr>) = registry_ok s"
  "registry_ok (s\<lparr>attach_device_handle := x_attach_device_handle\<rparr>) = registry_ok s" "registry_ok (s\<lparr>detach_device_handle := x_detach_device_handle\<rparr>) = registry_ok s"
  "registry_ok (s\<lparr>hotplug_thread := x_hotplug_thread\<rparr>) = registry_ok s" "registry_ok (s\<lparr>collect_thread := x_collect_thread\<rparr>) = registry_ok s"
  "registry_ok (s\<lparr>collect_proc := x_collect_proc\<rparr>) = registry_ok s" "registry_ok (s\<lparr>callback_thread_count := x_callback_thread_count\<rparr>) = registry_ok s"
  "registry_ok (s\<lparr>is_stop_by_detached := x_is_stop_by_detached\<rparr>) = registry_ok s" "registry_ok (s\<lparr>transaction_id := x_transaction_id\<rparr>) = registry_ok s"
  "registry_ok (s\<lparr>transaction_command := x_transaction_command\<rparr>) = registry_ok s" "registry_ok (s\<lparr>cur_trans_id := x_cur_trans_id\<rparr>) = registry_ok s"
  "registry_ok (s\<lparr>last_error := x_last_error\<rparr>) = registry_ok s" "registry_ok (s\<lparr>session := x_session\<rparr>) = registry_ok s"
  "registry_ok (s\<lparr>trigger_state := x_trigger_state\<rparr>) = registry_ok s" "registry_ok (s\<lparr>events := x_events\<rparr>) = registry_ok s"
  "registry_ok (s\<lparr>posted := x_posted\<rparr>) = registry_ok s" "registry_ok (s\<lparr>calls := x_calls\<rparr>) = registry_ok s"
  by (simp_all add: registry_ok_def cong: option.case_cong)

lemma same_registry_fields [simp]:
  "same_registry s (t\<lparr>sr_ctx := x_sr_ctx\<rparr>) = same_registry s t" "same_registry s (t\<lparr>event_callback := x_event_callback\<rparr>) = same_registry s t"
  "same_registry s (t\<lparr>data_forward_callback := x_data_forward_callback\<rparr>) = same_registry s t" "same_registry s (t\<lparr>lib_exit_flag := x_lib_exit_flag\<rparr>) = same_registry s t"
  "same_registry s (t\<lparr>attach_event_flag := x_attach_event_flag\<rparr>) = same_registry s t" "same_registry s (t\<lparr>detach_event_flag := x_detach_event_flag\<rparr>) = same_registry s t"
  "same_registry s (t\<lparr>is_waitting_reconnect := x_is_waitting_reconnect\<rparr>) = same_registry s t" "same_registry s (t\<lparr>check_reconnect_times := x_check_reconnect_times\<rparr>) = same_registry s t"
  "same_registry s (t\<lparr>attach_device_handle := x_attach_device_handle\<rparr>) = same_registry s t" "same_registry s (t\<lparr>detach_device_handle := x_detach_device_handle\<rparr>) = same_registry s t"
  "same_registry s (t\<lparr>hotplug_thread := x_hotplug_thread\<rparr>) = same_registry s t" "same_registry s (t\<lparr>collect_thread := x_collect_thread\<rparr>) = same_registry s t"
  "same_registry s (t\<lparr>collect_proc := x_collect_proc\<rparr>) = same_registry s t" "same_registry s (t\<lparr>callback_thread_count := x_callback_thread_count\<rparr>) = same_registry s t"
  "same_registry s (t\<lparr>is_stop_by_detached := x_is_stop_by_detached\<rparr>) = same_registry s t" "same_registry s (t\<lparr>transaction_id := x_transaction_id\<rparr>) = same_registry s t"
  "same_registry s (t\<lparr>transaction_command := x_transaction_command\<rparr>) = same_registry s t" "same_registry s (t\<lparr>cur_trans_id := x_cur_trans_id\<rparr>) = same_registry s t"
  "same_registry s (t\<lparr>last_error := x_last_error\<rparr>) = same_registry s t" "same_registry s (t\<lparr>session := x_session\<rparr>) = same_registry s t"
  "same_registry s (t\<lparr>trigger_state := x_trigger_state\<rparr>) = same_registry s t" "same_registry s (t\<lparr>events := x_events\<rparr>) = same_registry s t"
  "same_registry s (t\<lparr>posted := x_posted\<rparr>) = same_registry s t" "same_registry s (t\<lparr>calls := x_calls\<rparr>) = same_registry s t"
  by (simp_all add: same_registry_def)

lemma live_store [simp]: "live (store i (Some d) s) j \<longleftrightarrow> live s j \<or> (j = i \<and> i < length (heap s))"
  by (cases "j = i") (auto simp: live_def store_def)

lemma live_store_free: "live s j \<Longrightarrow> j \<noteq> i \<Longrightarrow> live (store i d s) j"
  by (auto simp: live_def store_def nth_list_update)

lemma store_fields [simp]:
  "device_list (store i d s) = device_list s" "actived_device (store i d s) = actived_device s"
  "is_delay_destory (store i d s) = is_delay_destory s" "calls (store i d s) = calls s"
  "session (store i d s) = session s" "collect_proc (store i d s) = collect_proc s"
  "collect_thread (store i d s) = collect_thread s" "events (store i d s) = events s"
  "posted (store i d s) = posted s" "event_callback (store i d s) = event_callback s"
  "is_stop_by_detached (store i d s) = is_stop_by_detached s"
  by (simp_all add: store_def)

lemma live_eq_heap: "heap t = heap s \<Longrightarrow> live t i = live s i"
  by (simp add: live_def)

lemma deref_live [ok_rules]: "live s i \<Longrightarrow> deref s i = Inr (inst s i)"
  by (auto simp: live_def deref_def inst_def)

lemma same_store [simp]: "live s i \<Longrightarrow> same_registry s (store i (Some d) s)"
  by (simp add: same_registry_def)

section \<open>Calls into the drivers\<close>

lemma call_driver_same: "live s i \<Longrightarrow> same_registry s (snd (call_driver c f i d s))"
  by (auto simp: call_driver_def Let_def split_def same_registry_def live_def store_def nth_list_update)

lemma open_ok:
  "live s i \<Longrightarrow> ok F (open_device_instance E (Some i) s) (\<lambda>(r, t). same_registry s t)"
  using call_driver_same [of s i]
  by (auto simp: open_device_instance_def deref_live split_def split: option.splits)

lemma close_ok:
  "live s i \<Longrightarrow> ok F (close_device_instance E (Some i) s) (\<lambda>(r, t). same_registry s t)"
  using call_driver_same [of s i]
  by (auto simp: close_device_instance_def deref_live split_def split: option.splits)

lemma stop_ok:
  "registry_ok s \<Longrightarrow> ok F (current_device_acquisition_stop E s) (\<lambda>(r, t). same_registry s t)"
  using call_driver_same [of s "the (actived_device s)"]
  by (auto simp: current_device_acquisition_stop_def deref_live registry_ok_def split_def split: option.splits)

text \<open>Destroying keeps the list and the other devices; when it fails, it keeps the device too.\<close>

definition destroyed :: "did \<Rightarrow> lib_context \<Rightarrow> int \<times> lib_context \<Rightarrow> bool" where
  "destroyed i s rt \<longleftrightarrow>
     device_list (snd rt) = device_list s \<and> actived_device (snd rt) = actived_device s
     \<and> is_delay_destory (snd rt) = is_delay_destory s
     \<and> (\<forall>j. live s j \<longrightarrow> j \<noteq> i \<or> fst rt \<noteq> SR_OK \<longrightarrow> live (snd rt) j)"

lemma destroy_ok:
  assumes "live s i" "drivers_ok E"
  shows "ok F (destroy_device_instance E (Some i) s) (destroyed i s)"
proof -
  have keep: "snd (f h d) \<noteq> None"
    if "driver_of E e = Some drv" "dev_destroy drv = Some f" "fst (f h d) \<noteq> SR_OK" for e drv f h d
    using that assms(2)
    by (simp add: drivers_ok_def driver_of_def split: option.splits if_splits) (metis nth_mem)
  have store: "live (store i d' t) j" if "live s j" "heap t = heap s" "j \<noteq> i \<or> d' \<noteq> None" for d' t j
    using that by (cases "i = j") (auto simp: live_def store_def)
  show ?thesis
    using assms(1) call_driver_same [of s i] keep store
    by (auto simp: destroy_device_instance_def deref_live Let_def split_def destroyed_def same_registry_def
        split: option.splits)
qed

lemma destroyed_registry_fail: "destroyed i s (r, t) \<Longrightarrow> r \<noteq> SR_OK \<Longrightarrow> same_registry s t"
  by (auto simp: destroyed_def same_registry_def)

section \<open>The list\<close>

lemma find_dev_ok:
  "\<forall>i \<in> set devs. live s i \<Longrightarrow>
   ok F (find_dev s p devs) (\<lambda>r. case r of
        None \<Rightarrow> \<forall>i \<in> set devs. \<not> p i (inst s i)
      | Some i \<Rightarrow> i \<in> set devs \<and> p i (inst s i))"
  by (induction devs) (auto simp: deref_live ok_def split: sum.splits option.splits)

lemma find_dev_list:
  assumes "registry_ok s"
  shows "ok F (find_dev s p (device_list s)) (\<lambda>r. \<forall>i. r = Some i \<longrightarrow>
     i \<in> set (device_list s) \<and> live s i)"
proof -
  have "\<forall>i \<in> set (device_list s). live s i" using assms by (simp add: registry_ok_def)
  then show ?thesis
    by (intro ok_mono [OF find_dev_ok]) auto
qed

lemma usb_exists_ok: "registry_ok s \<Longrightarrow> ok F (sr_usb_device_is_exists E usb s) (\<lambda>(r, t). t = s)"
  by (auto simp: sr_usb_device_is_exists_def intro!: ok_bind [OF find_dev_list])

lemma live_mono_append:
  "live s i \<Longrightarrow> heap t = heap s @ ds \<Longrightarrow> live t i"
  by (auto simp: live_def nth_append)

lemma allocate_all_ok:
  "allocate_all ds s = (is, t) \<Longrightarrow>
     is = [length (heap s)..<length (heap s) + length ds] \<and> t = s\<lparr>heap := heap s @ map Some ds\<rparr>"
proof (induction ds arbitrary: s "is" t)
  case Nil
  then show ?case by simp
next
  case (Cons d ds)
  obtain js u where r: "allocate_all ds (s\<lparr>heap := heap s @ [Some d]\<rparr>) = (js, u)" by force
  with Cons.prems have "is = length (heap s) # js" "t = u"
    by (auto simp: allocate_def Let_def split_def)
  with Cons.IH [OF r] show ?case by (simp add: upt_conv_Cons del: upt_Suc)
qed

text \<open>New devices: alive, different, and not known to the registry.\<close>

definition fresh :: "lib_context \<Rightarrow> did list \<Rightarrow> bool" where
  "fresh s is \<longleftrightarrow> distinct is \<and> (\<forall>i \<in> set is. live s i \<and> i \<notin> set (device_list s) \<and> actived_device s \<noteq> Some i)"

lemma registry_below:
  "registry_ok s \<Longrightarrow> i \<in> set (device_list s) \<or> actived_device s = Some i \<Longrightarrow> i < length (heap s)"
  by (auto simp: registry_ok_def live_def split: option.splits)

lemma scan_driver_ok:
  assumes "registry_ok s" "scan_driver k drv s = (is, t)"
  shows "registry_ok t" "fresh t is"
proof -
  let ?s = "s\<lparr>calls := calls s @ [DevScan k]\<rparr>"
  from assms(2) allocate_all_ok [of "scan drv (calls s)" ?s "is" t]
  have t: "is = [length (heap s)..<length (heap s) + length (scan drv (calls s))]"
    "t = ?s\<lparr>heap := heap s @ map Some (scan drv (calls s))\<rparr>"
    by (simp_all add: scan_driver_def)
  have live: "live t j" if "live s j" for j
    using that t by (auto intro: live_mono_append)
  then show "registry_ok t"
    using assms(1) t by (auto simp: registry_ok_def split: option.splits)
  have "live t i" if "i \<in> set is" for i
    using that t by (auto simp: live_def nth_append)
  moreover have "i \<notin> set (device_list t) \<and> actived_device t \<noteq> Some i" if "i \<in> set is" for i
    using that t registry_below [OF assms(1), of i] by auto
  ultimately show "fresh t is" using t by (simp add: fresh_def)
qed

lemma append_one_ok:
  assumes "registry_ok s" "fresh s (i # is)" "drivers_ok E"
  shows "ok F (append_device_instance_if_new E i s) (\<lambda>(n, t). registry_ok t \<and> fresh t is)"
proof -
  have i: "live s i" "i \<notin> set (device_list s)" "actived_device s \<noteq> Some i" "i \<notin> set is"
    using assms(2) by (auto simp: fresh_def)
  have gone: "ok F (ebind (destroy_device_instance E (Some i) s) (\<lambda>(_, s1). Inr (0 :: int, s1)))
      (\<lambda>(n, t). registry_ok t \<and> fresh t is)"
    using destroy_ok [OF i(1) assms(3)] i assms(1,2)
    by (auto intro!: ok_bind simp: destroyed_def registry_ok_def fresh_def split: option.splits)
      (metis option.distinct(1) option.sel)+
  have add: "registry_ok (s\<lparr>device_list := device_list s @ [i]\<rparr>)" "fresh (s\<lparr>device_list := device_list s @ [i]\<rparr>) is"
    using i assms(1,2) by (auto simp: registry_ok_def fresh_def live_def split: option.splits)
  show ?thesis
    unfolding append_device_instance_if_new_def
    using gone add
    by (auto simp: deref_live [OF i(1)] intro!: ok_if ok_bind [OF find_dev_list [OF assms(1)]] split: option.splits)
qed

lemma append_new_ok:
  "registry_ok s \<Longrightarrow> fresh s is \<Longrightarrow> drivers_ok E \<Longrightarrow>
   ok F (append_new E is num s) (\<lambda>(n, t). registry_ok t)"
proof (induction E "is" num s rule: append_new.induct)
  case (1 E num s)
  then show ?case by simp
next
  case (2 E i "is" num s)
  then show ?case
    by (auto intro!: ok_bind [OF append_one_ok])
qed

lemma scan_hardware_ok:
  "registry_ok s \<Longrightarrow> drivers_ok E \<Longrightarrow> ok F (scan_hardware E k drvs num s) (\<lambda>(n, t). registry_ok t)"
proof (induction E k drvs num s rule: scan_hardware.induct)
  case (1 E k num s)
  then show ?case by simp
next
  case (2 E k drv drvs num s)
  obtain "is" s1 where sc: "scan_driver k drv s = (is, s1)" by force
  show ?case
    using 2
    by (auto simp: sc intro!: ok_bind [OF append_new_ok [OF scan_driver_ok [OF 2(3) sc] 2(4)]])
qed

section \<open>Every operation keeps the invariant\<close>

text \<open>What an operation gives that keeps the invariant, whatever it returns.\<close>

abbreviation (input) keeps :: "fault set \<Rightarrow> fault + 'a \<times> lib_context \<Rightarrow> bool" where
  "keeps F x \<equiv> ok F x (\<lambda>(r, t). registry_ok t)"

lemma keeps_same: "registry_ok s \<Longrightarrow> ok F x (\<lambda>(r, t). same_registry s t) \<Longrightarrow> keeps F x"
  by (erule ok_mono) (auto intro: same_registry_ok)

lemma process_attach_keeps [ok_rules]:
  assumes "registry_ok s" "drivers_ok E"
  shows "keeps F (process_attach_event E ev s)"
  unfolding process_attach_event_def
  by (rule ok_bind [OF scan_hardware_ok [OF assms]])
    (auto simp: Let_def post_event_async_def)

lemma fresh_append_registry:
  assumes "registry_ok s" "fresh s is"
  shows "registry_ok (s\<lparr>device_list := device_list s @ is\<rparr>)"
  using assms by (auto simp: registry_ok_def fresh_def live_def split: option.splits)

lemma scan_demo_keeps: "registry_ok s \<Longrightarrow> registry_ok (scan_demo k drvs s)"
proof (induction k drvs s rule: scan_demo.induct)
  case (1 k s)
  then show ?case by simp
next
  case (2 k drv drvs s)
  then show ?case
    using scan_driver_ok [of s k drv] fresh_append_registry
    by (auto split: prod.splits)
qed

lemma active_live: "registry_ok s \<Longrightarrow> actived_device s = Some i \<Longrightarrow> live s i"
  by (auto simp: registry_ok_def)

lemma ask_active_same: "registry_ok s \<Longrightarrow> ok F (ask_active none f s) (\<lambda>(r, t). t = s)"
  by (auto simp: ask_active_def deref_live active_live split: option.splits)

lemma change_active_keeps: "registry_ok s \<Longrightarrow> keeps F (change_active f s)"
  by (auto simp: change_active_def deref_live active_live Let_def split_def split: option.splits
      intro: same_registry_ok [OF same_store])

lemma base_infos_ok:
  "\<forall>i \<in> set is. live s i \<Longrightarrow> ok {NullDeref} (base_infos s is) (\<lambda>r. map fst r = map (\<lambda>i. handle (inst s i)) is)"
  by (induction "is") (auto simp: deref_live copy_name_def ok_def split: option.splits sum.splits)

lemma leave_active_ok:
  assumes "registry_ok s" "drivers_ok E"
  shows "ok F (leave_active E s) (\<lambda>((r, old), t). registry_ok t
    \<and> (r = SR_OK \<longrightarrow> \<not> is_delay_destory t \<and> device_list t = device_list s \<and> set_option old \<subseteq> set (device_list t)))"
proof (cases "actived_device s")
  case None
  then show ?thesis using assms(1) by (simp add: leave_active_def registry_ok_def)
next
  case (Some i)
  then have i: "live s i" "is_delay_destory s \<longleftrightarrow> i \<notin> set (device_list s)"
    using assms(1) by (auto simp: registry_ok_def)
  show ?thesis
  proof (cases "is_delay_destory s")
    case True
    have ready: "registry_ok (t\<lparr>actived_device := None, is_delay_destory := False\<rparr>)"
      "device_list t = device_list s" if "destroyed i s (r, t)" for r t
      using that True i assms(1) by (auto simp: destroyed_def registry_ok_def live_def)
    have failed: "registry_ok t" if "destroyed i s (r, t)" "r \<noteq> SR_OK" for r t
      using destroyed_registry_fail [OF that] assms(1) by (rule same_registry_ok)
    show ?thesis
      using Some True ready failed
      by (auto simp: leave_active_def intro!: ok_bind [OF destroy_ok [OF i(1) assms(2)]])
  next
    case False
    have keep: "registry_ok t \<and> \<not> is_delay_destory t \<and> device_list t = device_list s" if "same_registry s t" for t
      using same_registry_ok [OF that assms(1)] that False by (simp add: same_registry_def)
    have eq: "leave_active E s = ebind (close_device_instance E (Some i) s) (\<lambda>(ret, s1). Inr ((ret, Some i), s1))"
      using Some False by (simp add: leave_active_def)
    show ?thesis
      unfolding eq using i(2) False
      by (intro ok_bind [OF close_ok [OF i(1)]]) (auto dest!: keep)
  qed
qed

lemma registry_activate:
  "registry_ok s \<Longrightarrow> \<not> is_delay_destory s \<Longrightarrow> i \<in> set (device_list s) \<Longrightarrow>
   registry_ok (s\<lparr>actived_device := Some i\<rparr>)"
  by (auto simp: registry_ok_def live_def)

lemma switch_to_keeps:
  assumes "registry_ok s" "\<not> is_delay_destory s" "dev \<in> set (device_list s)"
    "set_option old \<subseteq> set (device_list s)"
  shows "keeps F (switch_to E dev old s)"
proof -
  have live: "live s dev" using assms(1,3) by (auto simp: registry_ok_def)
  show ?thesis
    unfolding switch_to_def
  proof (rule ok_bind [OF open_ok [OF live]], clarify)
    fix ret t assume "same_registry s t"
    then have t: "registry_ok t" "\<not> is_delay_destory t" "device_list t = device_list s" "live t dev"
      using assms live by (auto intro: same_registry_ok) (auto simp: same_registry_def)
    note act = registry_activate [OF t(1,2), unfolded t(3)]
    have ok_open: "keeps F (open_device_instance E (Some i) (t\<lparr>actived_device := Some i\<rparr>))"
      if "i \<in> set (device_list s)" for i
      using act [OF that] by (intro keeps_same [OF _ open_ok]) (auto intro: active_live)
    have step: "registry_ok (store dev (Some d) (t\<lparr>actived_device := Some dev\<rparr>))" for d
      by (rule same_registry_ok [OF same_store act [OF assms(3)]]) (use t(4) in \<open>simp add: live_def\<close>)
    show "keeps F (if ret = SR_OK then
        ebind (deref t dev) (\<lambda>d. Inr (ret, store dev (Some (d\<lparr>actived_times := actived_times d + 1\<rparr>)) (t\<lparr>actived_device := Some dev\<rparr>)))
      else let back = (case old of Some i \<Rightarrow> Some i
                       | None \<Rightarrow> (case device_list t of [] \<Rightarrow> None | i # _ \<Rightarrow> Some i)) in
       case back of None \<Rightarrow> Inr (ret, t) | Some i \<Rightarrow> open_device_instance E (Some i) (t\<lparr>actived_device := Some i\<rparr>))"
      using t step ok_open assms(4)
      by (auto simp: deref_live Let_def split: option.splits list.splits)
  qed
qed

lemma active_device_keeps [ok_rules]:
  assumes "registry_ok s" "drivers_ok E"
  shows "keeps F (ds_active_device E hdl s)"
proof -
  let ?s = "s\<lparr>last_error := SR_OK\<rparr>"
  have s: "registry_ok ?s" using assms(1) by simp
  show ?thesis
    unfolding ds_active_device_def Let_def
    using s
    by (auto intro!: ok_if ok_bind [OF leave_active_ok [OF s assms(2)]] ok_bind [OF find_dev_list]
        switch_to_keeps split: option.splits)
qed

lemma nth_handle_ok:
  "\<forall>i \<in> set devs. live s i \<Longrightarrow> ok F (nth_handle s devs index k lst) (\<lambda>_. True)"
  by (induction devs arbitrary: k lst) (auto simp: deref_live)

lemma active_by_index_keeps [ok_rules]:
  assumes "registry_ok s" "drivers_ok E"
  shows "keeps F (ds_active_device_by_index E index s)"
proof -
  have "\<forall>i \<in> set (device_list s). live s i" using assms(1) by (simp add: registry_ok_def)
  then show ?thesis
    unfolding ds_active_device_by_index_def Let_def
    by (auto intro!: ok_bind [OF nth_handle_ok] ok_if active_device_keeps assms)
qed

lemma from_file_keeps [ok_rules]: "registry_ok s \<Longrightarrow> keeps F (ds_device_from_file p loaded s)"
  by (auto simp: ds_device_from_file_def allocate_def Let_def registry_ok_def live_def nth_append
      split: sum.splits option.splits)

lemma destroyed_drop:
  assumes "registry_ok s" "destroyed i s (r, t)" "i \<in> set (device_list s)"
  shows "registry_ok (if actived_device t = Some i
    then t\<lparr>device_list := remove1 i (device_list t), actived_device := None\<rparr>
    else t\<lparr>device_list := remove1 i (device_list t)\<rparr>)"
  using assms by (auto simp: destroyed_def registry_ok_def live_def split: option.splits)

lemma remove_listed_keeps:
  assumes "registry_ok s" "drivers_ok E"
  shows "keeps F (remove_listed E hdl s)"
  unfolding remove_listed_def
proof (rule ok_bind [OF find_dev_list [OF assms(1)]])
  fix found assume found: "\<forall>i. found = Some i \<longrightarrow> i \<in> set (device_list s) \<and> live s i"
  have failed: "registry_ok t" if "destroyed i s (r, t)" "r \<noteq> SR_OK" for i r t
    using destroyed_registry_fail [OF that] assms(1) by (rule same_registry_ok)
  show "keeps F (case found of
       None \<Rightarrow> Inr (SR_ERR_CALL_STATUS, s)
     | Some i \<Rightarrow>
         ebind (destroy_device_instance E (Some i) s) (\<lambda>(ret, s1).
         if ret \<noteq> SR_OK then Inr (SR_ERR, s1)
         else
           let s2 = s1\<lparr>device_list := remove1 i (device_list s1)\<rparr> in
           Inr (SR_OK, if actived_device s2 = Some i then s2\<lparr>actived_device := None\<rparr> else s2)))"
  proof (cases found)
    case None
    then show ?thesis using assms(1) by simp
  next
    case (Some i)
    then have i: "i \<in> set (device_list s)" "live s i" using found by auto
    show ?thesis
      using failed destroyed_drop [OF assms(1) _ i(1)]
      by (auto simp: Some Let_def intro!: ok_bind [OF destroy_ok [OF i(2) assms(2)]])
  qed
qed

lemma remove_delayed_keeps:
  assumes "registry_ok s" "drivers_ok E"
  shows "keeps F (remove_delayed E a s)"
proof (cases "a \<and> is_delay_destory s")
  case False
  then show ?thesis using assms(1) by (auto simp: remove_delayed_def)
next
  case True
  with assms(1) obtain i where i: "actived_device s = Some i" "live s i" "i \<notin> set (device_list s)"
    by (auto simp: registry_ok_def split: option.splits)
  have "registry_ok (t\<lparr>actived_device := None, is_delay_destory := False\<rparr>)" if "destroyed i s (r, t)" for r t
    using that i(3) assms(1) by (auto simp: destroyed_def registry_ok_def live_def split: option.splits)
  moreover have "registry_ok t" if "destroyed i s (r, t)" "r \<noteq> SR_OK" for r t
    using destroyed_registry_fail [OF that] assms(1) by (rule same_registry_ok)
  ultimately show ?thesis
    using True by (auto simp: remove_delayed_def i(1) intro!: ok_bind [OF destroy_ok [OF i(2) assms(2)]])
qed

lemma remove_device_keeps [ok_rules]:
  assumes "registry_ok s" "drivers_ok E"
  shows "keeps F (ds_remove_device E hdl s)"
  unfolding ds_remove_device_def
  apply (rule ok_if, simp add: assms(1))
  apply (rule ok_bind2 [OF ask_active_same [OF assms(1)]])
  apply (rule ok_if, simp add: assms(1))
  apply (rule ok_bind2 [OF remove_delayed_keeps [OF assms]])
  apply (rule ok_if, simp)
  apply (erule remove_listed_keeps [OF _ assms(2)])
  done

section \<open>Collecting keeps the registry\<close>

lemma send_event_same [simp]: "same_registry s (send_event ev t) = same_registry s t"
  by (simp add: send_event_def)

lemma collect_run_end_same [simp]: "same_registry s (collect_run_end b t) = same_registry s t"
  by (simp add: collect_run_end_def Let_def post_event_async_def)

lemma session_same [simp]:
  "same_registry s (snd (sr_session_destroy t)) = same_registry s t"
  "same_registry s (sr_session_new t) = same_registry s t"
  "same_registry s (snd (sr_session_stop t)) = same_registry s t"
  "same_registry s (snd (sr_session_run_begin t)) = same_registry s t"
  by (simp_all add: sr_session_destroy_def sr_session_new_def sr_session_stop_def
      sr_session_run_begin_def Let_def split: option.splits)

lemma session_run_end_same:
  "registry_ok s \<Longrightarrow> NullDeref \<in> F \<Longrightarrow> ok F (sr_session_run_end E s) (\<lambda>(r, t). same_registry s t)"
  by (auto simp: sr_session_run_end_def split: option.splits intro!: ok_bind [OF stop_ok])

lemma collect_finish_same:
  "registry_ok s \<Longrightarrow> NullDeref \<in> F \<Longrightarrow> ok F (collect_run_finish E s) (\<lambda>(r, t). same_registry s t)"
  by (auto simp: collect_run_finish_def intro!: ok_bind [OF session_run_end_same])

lemma collect_begin_same:
  assumes "registry_ok s"
  shows "ok F (collect_run_begin E s) (\<lambda>(r, t). same_registry s t)"
proof -
  have act: "actived_device (send_event ev s) = actived_device s" "live (send_event ev s) i = live s i" for ev i
    by (simp_all add: send_event_def)
  have call: "same_registry s (snd (call_driver c f i d (send_event ev s)))" if "live s i" for c f i d ev
    using call_driver_same [of "send_event ev s" i] that same_registry_trans [of s "send_event ev s"] act(2)
    by fastforce
  show ?thesis
  proof (cases "actived_device s")
    case None
    then show ?thesis by (simp add: collect_run_begin_def Let_def act)
  next
    case (Some i)
    then have i: "live s i" "live (send_event 101 s) i" using assms act by (auto intro: active_live)
    show ?thesis
      using Some call [OF i(1)] session_same(4)
      by (auto simp: collect_run_begin_def Let_def act deref_live [OF i(2)] split_def split: option.splits)
  qed
qed

lemma collect_proc_same:
  assumes "registry_ok s" "NullDeref \<in> F"
  shows "ok F (collect_run_proc E s) (\<lambda>(r, t). same_registry s t)"
proof (cases "collect_proc s")
  case None
  then show ?thesis by (simp add: collect_run_proc_def)
next
  case (Some ph)
  have second: "ok F (collect_run_finish E t) (\<lambda>(r, u). same_registry s u)" if "same_registry s t" for t
    by (rule ok_mono [OF collect_finish_same [OF same_registry_ok [OF that assms(1)] assms(2)]])
      (auto intro: same_registry_trans [OF that])
  show ?thesis
    using Some collect_finish_same [OF assms]
    by (cases ph) (auto simp: collect_run_proc_def intro!: ok_bind [OF collect_begin_same [OF assms(1)]] second)
qed

lemma stop_collect_same:
  assumes "registry_ok s" "NullDeref \<in> F"
  shows "ok F (ds_stop_collect E self s) (\<lambda>(r, t). same_registry s t)"
proof -
  let ?t = "snd (sr_session_stop s)"
  have t: "same_registry s ?t" "registry_ok ?t"
    using assms(1) by (auto intro: same_registry_ok [of s])
  have run: "ok F (collect_run_proc E ?t) (\<lambda>(r, u). same_registry s u)"
    using collect_proc_same [OF t(2) assms(2)] by (rule ok_mono) (auto intro: same_registry_trans [OF t(1)])
  show ?thesis
    unfolding ds_stop_collect_def Let_def
    using t(1) run by (auto intro!: ok_bind [OF run])
qed

lemma start_spawn_same:
  assumes "registry_ok s"
  shows "ok F (start_collect_spawn E s) (\<lambda>(r, t). same_registry s t)"
proof (cases "actived_device s")
  case None
  then show ?thesis by (simp add: start_collect_spawn_def Let_def)
next
  case (Some i)
  let ?s = "s\<lparr>last_error := SR_OK\<rparr>"
  have i: "live s i" "live ?s i" using Some assms active_live by auto
  have "same_registry s (sr_session_new ?s)" by simp
  then have "ok F (open_device_instance E (Some i) (sr_session_new ?s)) (\<lambda>(r, t). same_registry s t)"
    using i(1) by (intro ok_mono [OF open_ok]) (auto intro: same_registry_trans simp: same_registry_def)
  then show ?thesis
    using Some
    by (auto simp: start_collect_spawn_def Let_def deref_live [OF i(2)] intro!: ok_if intro: ok_bind)
qed

lemma release_same:
  assumes "registry_ok s" "NullDeref \<in> F"
  shows "ok F (ds_release_actived_device E self s) (\<lambda>(r, t). same_registry s t)"
proof (cases "actived_device s")
  case None
  then show ?thesis by (simp add: ds_release_actived_device_def)
next
  case (Some i)
  have first: "ok F (if ds_is_collecting s then ds_stop_collect E self s else Inr (SR_OK, s)) (\<lambda>(r, t). same_registry s t)"
    using stop_collect_same [OF assms] by simp
  have second: "ok F (case actived_device t of
        None \<Rightarrow> Inl NullDeref
      | Some i \<Rightarrow>
          ebind (deref t i) (\<lambda>_.
          ebind (close_device_instance E (Some i) t) (\<lambda>(ret, s2).
          if ret \<noteq> SR_OK then Inr (ret, s2) else Inr (SR_OK, snd (sr_session_destroy s2)))))
      (\<lambda>(r, u). same_registry s u)" if t: "same_registry s t" for t
  proof -
    have act: "actived_device t = Some i" "live t i"
      using t Some assms(1) active_live by (auto simp: same_registry_def)
    show ?thesis
      using same_registry_trans [OF t]
      by (auto simp: act deref_live intro!: ok_bind [OF close_ok [OF act(2)]])
  qed
  have eq: "ds_release_actived_device E self s =
     (if ds_is_collecting s \<and> collect_thread s \<and> self then Inr (SR_OK, snd (sr_session_stop s))
      else ebind (if ds_is_collecting s then ds_stop_collect E self s else Inr (SR_OK, s)) (\<lambda>(_, t).
        case actived_device t of
          None \<Rightarrow> Inl NullDeref
        | Some i \<Rightarrow>
            ebind (deref t i) (\<lambda>_.
            ebind (close_device_instance E (Some i) t) (\<lambda>(ret, s2).
            if ret \<noteq> SR_OK then Inr (ret, s2) else Inr (SR_OK, snd (sr_session_destroy s2))))))"
    using Some by (simp add: ds_release_actived_device_def)
  show ?thesis
    unfolding eq
    apply (rule ok_if, simp)
    apply (rule ok_bind2 [OF first])
    apply (erule second)
    done
qed

end
