(* ===== verification/Lib_Props.thy ===== *)
theory Lib_Props
  imports Lib_Invariant
begin

text \<open>
  Properties of the library front end: its histories as an operation system, the hotplug
  protocol, switching the active device, and the life of a collect run.
\<close>

section \<open>Hotplug keeps the registry\<close>

lemma update_handle_keeps:
  assumes "registry_ok s"
  shows "keeps F (update_device_handle E old new s)"
  unfolding update_device_handle_def
proof (rule ok_bind [OF find_dev_list [OF assms]])
  fix found assume found: "\<forall>i. found = Some i \<longrightarrow> i \<in> set (device_list s) \<and> live s i"
  show "keeps F (case found of
       None \<Rightarrow> Inr (SR_ERR, s)
     | Some i \<Rightarrow>
         ebind (if actived_device s = Some i then close_device_instance E (Some i) s else Inr (SR_OK, s)) (\<lambda>(ret, s1).
         if ret \<noteq> SR_OK then Inr (SR_ERR, s1)
         else
           ebind (deref s1 i) (\<lambda>d.
           let u = \<lparr>usb_dev = new, bus = libusb_get_bus_number E new, address = libusb_get_device_address E new\<rparr>;
               s2 = store i (Some (d\<lparr>conn := Some u, handle := new\<rparr>)) s1 in
           Inr (SR_OK, if actived_device s2 = Some i
             then s2\<lparr>transaction_id := transaction_id s2 + 1, transaction_command := 1\<rparr> else s2))))"
  proof (cases found)
    case None
    then show ?thesis using assms by simp
  next
    case (Some i)
    then have i: "live s i" using found by simp
    have close: "ok F (if actived_device s = Some i then close_device_instance E (Some i) s else Inr (SR_OK, s))
        (\<lambda>(r, t). same_registry s t)"
      using close_ok [OF i] by simp
    have t: "registry_ok t" "live t i" "registry_ok (store i (Some d) t)" if "same_registry s t" for t d
      using that i same_registry_ok [OF that assms] same_registry_ok [OF same_store]
      by (auto simp: same_registry_def)
    show ?thesis
      unfolding Some option.case
      apply (rule ok_bind2 [OF close])
      using t by (auto simp: Let_def deref_live same_registry_ok)
  qed
qed

lemma hotplug_attached_keeps:
  assumes "registry_ok s"
  shows "keeps F (hotplug_attached E dev s)"
proof -
  have first: "ok F (if is_waitting_reconnect s \<and> detach_device_handle s \<noteq> 0 then
       ebind (update_device_handle E (detach_device_handle s) dev s) (\<lambda>(ret, s1).
       Inr (ret = SR_OK, s1\<lparr>detach_device_handle := 0\<rparr>))
     else Inr (False, s)) (\<lambda>(b, t). registry_ok t)"
    using assms by (auto intro!: ok_bind [OF update_handle_keeps [OF assms]])
  show ?thesis
    unfolding hotplug_attached_def
    apply (rule ok_bind2 [OF usb_exists_ok [OF assms]])
    apply (rule ok_if, simp add: assms)
    apply (rule ok_bind2 [OF first])
    apply (simp add: Let_def)
    done
qed

lemma ignore_detach_ok: "registry_ok s \<Longrightarrow> ok F (ignore_detach E dev s) (\<lambda>(b, t). t = s)"
  by (auto simp: ignore_detach_def intro!: ok_bind [OF usb_exists_ok])

lemma hotplug_detached_keeps:
  assumes "registry_ok s" "NullDeref \<in> F"
  shows "keeps F (hotplug_detached E self dev s)"
proof -
  have first: "keeps F (if a \<and> ds_is_collecting s
       then ds_release_actived_device E self (s\<lparr>is_stop_by_detached := True\<rparr>)
       else Inr (SR_OK, s))" for a
    using assms keeps_same [OF _ release_same [of "s\<lparr>is_stop_by_detached := True\<rparr>" F E self]]
    by simp
  show ?thesis
    unfolding hotplug_detached_def
    apply (rule ok_bind2 [OF ignore_detach_ok [OF assms(1)]])
    apply (rule ok_if, simp add: assms(1))
    apply (rule ok_bind2 [OF ask_active_same [OF assms(1)]])
    apply (rule ok_bind2 [OF first])
    apply simp
    done
qed

lemma attached_device_ok: "registry_ok s \<Longrightarrow> ok F (get_new_attached_usb_device usb s) (\<lambda>(u, t). t = s)"
proof -
  have "registry_ok s \<Longrightarrow> ok F (first_unlisted us s) (\<lambda>(u, t). t = s)" for us
    by (induction us) (auto intro!: ok_bind [OF find_dev_list] split: option.splits)
  then show "registry_ok s \<Longrightarrow> ?thesis" by (simp add: get_new_attached_usb_device_def)
qed

lemma detached_device_ok: "registry_ok s \<Longrightarrow> ok F (get_new_detached_usb_device usb s) (\<lambda>(u, t). t = s)"
  by (auto simp: get_new_detached_usb_device_def deref_live intro!: ok_bind [OF find_dev_list] split: option.splits)

lemma hotplug_event_keeps:
  assumes "registry_ok s" "NullDeref \<in> F"
  shows "keeps F (hotplug_event_listen_callback E usb self dev0 event s)"
proof -
  have first: "ok F (if dev0 = 0 then
        (if event = 1 then get_new_attached_usb_device usb s else get_new_detached_usb_device usb s)
      else Inr (dev0, s)) (\<lambda>(u, t). t = s)"
    using attached_device_ok [OF assms(1)] detached_device_ok [OF assms(1)] by simp
  show ?thesis
    unfolding hotplug_event_listen_callback_def
    apply (rule ok_bind2 [OF first])
    using assms hotplug_attached_keeps hotplug_detached_keeps by auto
qed

lemma process_detach_keeps:
  assumes "registry_ok s" "drivers_ok E" "UseAfterFree \<in> F"
  shows "keeps F (process_detach_event E s)"
proof -
  let ?s = "s\<lparr>detach_device_handle := 0\<rparr>"
  have s: "registry_ok ?s" using assms(1) by simp
  have each: "keeps F (ebind (if actived_device ?s = Some i then Inr ((SR_OK, 2), ?s\<lparr>is_delay_destory := True\<rparr>)
        else ebind (destroy_device_instance E (Some i) ?s) (\<lambda>(ret, s1). Inr ((ret, 3), s1)))
      (\<lambda>((ret, ev), s1).
       if ret \<noteq> SR_OK then Inr ((), s1)
       else ebind (deref s1 i) (\<lambda>_.
         Inr ((), post_event_async ev (s1\<lparr>device_list := remove1 i (device_list s1)\<rparr>)))))"
    if i: "i \<in> set (device_list s)" "live s i" for i
  proof (cases "actived_device s = Some i")
    case True
    have "registry_ok (?s\<lparr>is_delay_destory := True, device_list := remove1 i (device_list s)\<rparr>)"
      using assms(1) True by (auto simp: registry_ok_def live_def)
    moreover have "live (?s\<lparr>is_delay_destory := True\<rparr>) i" using i(2) by (simp add: live_def)
    ultimately show ?thesis
      using True by (simp add: deref_live post_event_async_def)
  next
    case False
    have drop: "registry_ok (t\<lparr>device_list := remove1 i (device_list t)\<rparr>)" if "destroyed i ?s (r, t)" for r t
      using destroyed_drop [OF s that] i(1) that False by (simp add: destroyed_def)
    have failed: "registry_ok t" if "destroyed i ?s (r, t)" "r \<noteq> SR_OK" for r t
      using destroyed_registry_fail [OF that] s by (rule same_registry_ok)
    have first: "ok F (if actived_device ?s = Some i then Inr ((SR_OK, 2), ?s\<lparr>is_delay_destory := True\<rparr>)
        else ebind (destroy_device_instance E (Some i) ?s) (\<lambda>(ret, s1). Inr ((ret, 3), s1)))
        (\<lambda>((r, ev), t). destroyed i ?s (r, t))"
      using i(2) False by (auto intro!: ok_bind [OF destroy_ok [OF _ assms(2)]])
    have read: "ok F (deref t i) (\<lambda>_. True)" for t
      using assms(3) by (auto simp: deref_def split: option.splits)
    show ?thesis
      apply (rule ok_bind [OF first], simp only: split_paired_all prod.case)
      apply (rule ok_if, simp add: failed)
      apply (rule ok_bind [OF read], simp add: post_event_async_def drop)
      done
  qed
  show ?thesis
    unfolding process_detach_event_def Let_def
    apply (rule ok_if, simp add: assms(1))
    apply (rule ok_bind [OF find_dev_list [OF s]])
    using s each by (auto split: option.splits)
qed

lemma poll_keeps:
  assumes "registry_ok s" "NullDeref \<in> F"
  shows "keeps F (poll_usb_hotplug_fallback E usb s)"
  unfolding poll_usb_hotplug_fallback_def
  apply (rule ok_if, simp add: assms(1))
  apply (rule ok_if, simp add: assms(1))
  apply (rule ok_bind2 [OF attached_device_ok [OF assms(1)]])
  apply (rule ok_if, simp add: hotplug_event_keeps assms)
  apply (rule ok_bind2 [OF detached_device_ok [OF assms(1)]])
  apply (rule ok_if, simp add: hotplug_event_keeps assms)
  apply (simp add: assms(1))
  done

lemma run_transaction_keeps:
  assumes "registry_ok s"
  shows "keeps F (run_transaction E s)"
proof -
  have "keeps F (ebind (open_device_instance E (Some i) (s\<lparr>cur_trans_id := transaction_id s\<rparr>)) (\<lambda>(_, t). Inr ((), t)))"
    if "actived_device s = Some i" for i
    using that assms active_live by (auto intro!: ok_bind2 [OF keeps_same [OF _ open_ok]])
  then show ?thesis
    using assms by (auto simp: run_transaction_def Let_def)
qed

lemma hotplug_round_keeps:
  assumes "registry_ok s" "drivers_ok E" "NullDeref \<in> F" "UseAfterFree \<in> F"
  shows "keeps F (hotplug_round E usb s)"
proof -
  have attach: "keeps F (if attach_event_flag t then
        ebind (process_attach_event E True t) (\<lambda>(_, u). Inr ((), u\<lparr>attach_event_flag := False\<rparr>))
      else Inr ((), t))" if "registry_ok t" for t
    using that by (auto intro!: ok_bind [OF process_attach_keeps [OF that assms(2)]])
  have detach: "keeps F (if detach_event_flag t then
        ebind (process_detach_event E t) (\<lambda>(_, u). Inr ((), u\<lparr>detach_event_flag := False\<rparr>))
      else Inr ((), t))" if "registry_ok t" for t
    using that by (auto intro!: ok_bind [OF process_detach_keeps [OF that assms(2,4)]])
  show ?thesis
    unfolding hotplug_round_def
    apply (rule ok_bind2 [OF poll_keeps [OF assms(1,3)]])
    apply (rule ok_bind2 [OF attach], assumption)
    apply (rule ok_bind2 [OF detach], assumption)
    apply (rule run_transaction_keeps, simp add: check_reconnect_def Let_def)
    done
qed

lemma lib_init_keeps:
  assumes "registry_ok s" "drivers_ok E"
  shows "keeps F (ds_lib_init E s)"
proof -
  let ?s = "s\<lparr>sr_ctx := True, lib_exit_flag := False,
      trigger_state := snd (ds_trigger_init True (trigger_state s))\<rparr>"
  have "registry_ok (make_demo_device_to_list E ?s)"
    unfolding make_demo_device_to_list_def by (rule scan_demo_keeps) (simp add: assms(1))
  from process_attach_keeps [OF this assms(2)] show ?thesis
    unfolding ds_lib_init_def Let_def
    using assms(1) by (auto intro!: ok_if ok_bind)
qed

section \<open>Histories of the library\<close>

text \<open>
  The calls of the application, the hotplug callback, a round of the hotplug thread, the two
  halves of the collect thread, and the callback threads, in any order. Each answers with a
  number, the C result where there is one.
\<close>

datatype lib_op =
    LibInit
  | SetCallbacks bool bool
  | GetDeviceList bool
  | GetDeviceInfo
  | ActiveDevice nat
  | ActiveDeviceByIndex int
  | DeviceFromFile "string option" "int + sr_dev_inst"
  | RemoveDevice nat
  | EnableChannel "nat option" bool
  | EnableChannelIndex int bool
  | SetChannelName int "string option"
  | StartCollect
  | CollectBegin
  | CollectFinish
  | StopCollect bool
  | ReleaseDevice bool
  | HotplugEvent "nat list" bool nat int
  | HotplugRound "nat list"
  | CallbackThread nat
  | PostMessage int

fun lib_call :: "lib_env \<Rightarrow> lib_op \<Rightarrow> int lib" where
  "lib_call E LibInit s = ds_lib_init E s"
| "lib_call E (SetCallbacks ev dat) s = Inr (SR_OK, ds_set_datafeed_callback dat (ds_set_event_callback ev s))"
| "lib_call E (GetDeviceList mem) s = ebind (ds_get_device_list True mem s) (\<lambda>((r, _), t). Inr (r, t))"
| "lib_call E GetDeviceInfo s = ebind (ds_get_actived_device_info E True s) (\<lambda>((r, _), t). Inr (r, t))"
| "lib_call E (ActiveDevice h) s = ds_active_device E h s"
| "lib_call E (ActiveDeviceByIndex k) s = ds_active_device_by_index E k s"
| "lib_call E (DeviceFromFile path loaded) s = ds_device_from_file path loaded s"
| "lib_call E (RemoveDevice h) s = ds_remove_device E h s"
| "lib_call E (EnableChannel ch on) s = ds_enable_device_channel ch on s"
| "lib_call E (EnableChannelIndex k on) s = ds_enable_device_channel_index k on s"
| "lib_call E (SetChannelName k name) s = ds_set_device_channel_name k name s"
| "lib_call E StartCollect s = ds_start_collect E s"
| "lib_call E CollectBegin s =
     (if collect_proc s = Some Spawned
      then ebind (collect_run_begin E s) (\<lambda>(_, t). Inr (SR_OK, t)) else Inr (SR_OK, s))"
| "lib_call E CollectFinish s =
     (if collect_proc s = Some InSession
      then ebind (collect_run_finish E s) (\<lambda>(_, t). Inr (SR_OK, t)) else Inr (SR_OK, s))"
| "lib_call E (StopCollect self) s = ds_stop_collect E self s"
| "lib_call E (ReleaseDevice self) s = ds_release_actived_device E self s"
| "lib_call E (HotplugEvent usb self dev ev) s =
     ebind (hotplug_event_listen_callback E usb self dev ev s) (\<lambda>(_, t). Inr (SR_OK, t))"
| "lib_call E (HotplugRound usb) s = ebind (hotplug_round E usb s) (\<lambda>(_, t). Inr (SR_OK, t))"
| "lib_call E (CallbackThread k) s = ebind (post_event_proc k s) (\<lambda>(_, t). Inr (SR_OK, t))"
| "lib_call E (PostMessage m) s = Inr (post_message_callback m s)"

text \<open>The drivers do not change: they travel with the state.\<close>

definition lib_step :: "lib_op \<Rightarrow> lib_env \<times> lib_context \<Rightarrow> fault + int \<times> lib_env \<times> lib_context" where
  "lib_step c Es = (case Es of (E, s) \<Rightarrow> ebind (lib_call E c s) (\<lambda>(r, t). Inr (r, E, t)))"

definition lib_inv :: "lib_env \<times> lib_context \<Rightarrow> bool" where
  "lib_inv Es \<longleftrightarrow> drivers_ok (fst Es) \<and> registry_ok (snd Es)"

text \<open>Which operation can fault how.\<close>

definition lib_fault :: "lib_op \<Rightarrow> fault \<Rightarrow> bool" where
  "lib_fault c f \<longleftrightarrow> f = NullDeref \<or> f = UseAfterFree \<and> (\<exists>usb. c = HotplugRound usb)"

lemma send_event_registry [simp]: "registry_ok (send_event ev s) = registry_ok s"
  by (simp add: send_event_def)

lemma device_list_keeps: "registry_ok s \<Longrightarrow> NullDeref \<in> F \<Longrightarrow> keeps F (ds_get_device_list True mem s)"
proof -
  assume s: "registry_ok s" "NullDeref \<in> F"
  then have "\<forall>i \<in> set (device_list s). live s i" by (simp add: registry_ok_def)
  from base_infos_ok [OF this] have "ok F (base_infos s (device_list s)) (\<lambda>_. True)"
    using s(2) by (auto simp: ok_def split: sum.splits)
  with s(1) show ?thesis by (auto simp: ds_get_device_list_def intro!: ok_bind)
qed

lemma device_info_keeps: "registry_ok s \<Longrightarrow> NullDeref \<in> F \<Longrightarrow> keeps F (ds_get_actived_device_info E True s)"
  by (auto simp: ds_get_actived_device_info_def Let_def copy_name_def deref_live active_live split: option.splits)

lemma start_collect_keeps: "registry_ok s \<Longrightarrow> keeps F (ds_start_collect E s)"
  unfolding ds_start_collect_def
  by (rule ok_bind2 [OF keeps_same [OF _ start_spawn_same]]) (auto simp: start_collect_store_def)

lemma lib_call_keeps:
  assumes "registry_ok s" "drivers_ok E" "NullDeref \<in> F" "(\<exists>usb. c = HotplugRound usb) \<longrightarrow> UseAfterFree \<in> F"
  shows "keeps F (lib_call E c s)"
proof -
  note [intro!] = ok_bind [OF device_list_keeps [OF assms(1,3)]] ok_bind [OF device_info_keeps [OF assms(1,3)]]
    ok_bind [OF keeps_same [OF assms(1) collect_begin_same [OF assms(1)]]]
    ok_bind [OF keeps_same [OF assms(1) collect_finish_same [OF assms(1,3)]]]
    ok_bind [OF hotplug_event_keeps [OF assms(1,3)]] ok_bind [OF hotplug_round_keeps [OF assms(1-3)]]
  note simps = lib_init_keeps active_device_keeps active_by_index_keeps from_file_keeps remove_device_keeps
    change_active_keeps start_collect_keeps keeps_same [OF _ stop_collect_same] keeps_same [OF _ release_same]
    ds_enable_device_channel_def ds_enable_device_channel_index_def ds_set_device_channel_name_def
    ds_set_event_callback_def ds_set_datafeed_callback_def post_message_callback_def
  show ?thesis
    using assms
    by (cases c) (auto simp: simps post_event_proc_def Let_def)
qed

interpretation lib: faulty_op_system lib_step lib_inv lib_fault
proof unfold_locales
  fix Es c r Es'
  assume "lib_inv Es" "lib_step c Es = Inr (r, Es')"
  then show "lib_inv Es'"
    using lib_call_keeps [of "snd Es" "fst Es" UNIV c]
    by (auto simp: lib_inv_def lib_step_def ok_def ebind_eq_Inr split: prod.splits)
next
  fix Es c f
  assume "lib_inv Es" "lib_step c Es = Inl f"
  then show "lib_fault c f"
    using lib_call_keeps [of "snd Es" "fst Es" "{f. lib_fault c f}" c]
    by (auto simp: lib_inv_def lib_step_def ok_def lib_fault_def ebind_def split: prod.splits sum.splits)
qed

section \<open>A concrete library\<close>

text \<open>
  One hardware driver. The first scan finds a USB device, later scans find nothing; opening
  and closing sets the status, destroying frees.
\<close>

definition demo_device :: sr_dev_inst where
  "demo_device = \<lparr>driver = Some 0, handle = 7, dev_name = Some ''LA'', dev_path = None, dev_type = DEV_TYPE_USB,
     source_kind = 1, status = SR_ST_INACTIVE, mode = 0, vendor = None, version = None,
     channels = [\<lparr>ch_index = 0, ch_type = 10000, enabled = True, ch_name = None, trigger = None\<rparr>],
     channel_groups = [], conn = Some \<lparr>usb_dev = 7, bus = 1, address = 7\<rparr>, actived_times = 0\<rparr>"

definition demo_driver :: "(driver_call list \<Rightarrow> sr_dev_inst \<Rightarrow> int \<times> sr_dev_inst option) \<Rightarrow> sr_dev_driver" where
  "demo_driver destroy = \<lparr>drv_name = Some ''demo'', driver_type = 2, drv_init = 0,
     scan = (\<lambda>h. if h = [] then [demo_device, demo_device\<lparr>handle := 8, conn := Some \<lparr>usb_dev = 8, bus = 1, address = 8\<rparr>\<rparr>] else []),
     dev_open = Some (\<lambda>h d. (SR_OK, d\<lparr>status := SR_ST_ACTIVE\<rparr>)),
     dev_close = Some (\<lambda>h d. (SR_OK, d\<lparr>status := SR_ST_INACTIVE\<rparr>)),
     dev_destroy = Some destroy,
     dev_acquisition_start = Some (\<lambda>h d. (SR_OK, d)),
     dev_acquisition_stop = Some (\<lambda>h d. (SR_OK, d))\<rparr>"

definition demo_env :: lib_env where
  "demo_env = \<lparr>drivers = [demo_driver (\<lambda>h d. (SR_OK, None))], libusb_get_bus_number = (\<lambda>u. 1),
     libusb_get_device_address = word_of_nat, sr_init_ret = 0\<rparr>"

lemma demo_env_ok: "drivers_ok demo_env"
  by (simp add: drivers_ok_def demo_env_def demo_driver_def)

definition state_of :: "fault + 'r \<times> lib_env \<times> lib_context \<Rightarrow> lib_context" where
  "state_of x = (case x of Inl f \<Rightarrow> lib_ctx | Inr (r, E, s) \<Rightarrow> s)"

section \<open>Properties of histories\<close>



text \<open>A session with a collect run and an unplugged active device.\<close>

definition demo_history :: "lib_op list" where
  "demo_history = [LibInit, SetCallbacks True True, ActiveDevice 7, StartCollect, CollectBegin,
     HotplugEvent [8] True 7 2, CollectFinish, HotplugRound [8], HotplugRound [8], HotplugRound [8],
     HotplugRound [8], HotplugRound [8], HotplugRound [8], CallbackThread 0, CallbackThread 0, ActiveDevice 8]"


text \<open>Unplugging a device that is not active: the detach event reads it after destroying it.\<close>

definition demo_detach :: "lib_op list" where
  "demo_detach = [LibInit, HotplugEvent [8] False 7 2] @ replicate 6 (HotplugRound [8])"


end
