(* ===== verification/Lib_Protocol.thy ===== *)
theory Lib_Protocol
  imports Lib_Props
begin

text \<open>
  What the library front end promises step by step: which driver calls a switch of the active
  device makes, when collecting may start, which events a collect run sends, what happens to a
  device that is unplugged, with and without coming back, and that the list of devices is a
  list of handles to the client. At the end, the situations in which the code does not do what
  it means to.
\<close>

section \<open>The active device\<close>

text \<open>Partial correctness: a result that is not a fault satisfies the predicate.\<close>

abbreviation (input) returns :: "fault + 'a \<Rightarrow> ('a \<Rightarrow> bool) \<Rightarrow> bool" where
  "returns x Q \<equiv> ok UNIV x Q"

lemma returnsD: "returns x Q \<Longrightarrow> x = Inr y \<Longrightarrow> Q y"
  by simp

lemma returns_ebind [simp]: "returns (ebind x k) Q \<longleftrightarrow> (\<forall>y. x = Inr y \<longrightarrow> returns (k y) Q)"
  by (cases x) auto

text \<open>The driver calls of one operation.\<close>

lemma open_calls:
  "returns (open_device_instance E (Some i) s) (\<lambda>(r, t).
     (r = SR_OK \<longrightarrow> calls t = calls s @ [DevOpen i]) \<and> actived_device t = actived_device s
     \<and> device_list t = device_list s \<and> (calls t = calls s \<or> calls t = calls s @ [DevOpen i]))"
  by (auto simp: open_device_instance_def call_driver_def Let_def split_def split: option.split)

text \<open>The calls that take leave of the active device: it is destroyed when that was delayed, with
  the function its driver has for it, and closed otherwise.\<close>

definition close_call :: "lib_env \<Rightarrow> did \<Rightarrow> lib_context \<Rightarrow> driver_call list" where
  "close_call E i s = (case deref s i of Inl f \<Rightarrow> [] | Inr d \<Rightarrow>
     (case driver_of E d of None \<Rightarrow> [] | Some drv \<Rightarrow> if dev_close drv \<noteq> None then [DevClose i] else []))"

definition destroy_call :: "lib_env \<Rightarrow> did \<Rightarrow> lib_context \<Rightarrow> driver_call list" where
  "destroy_call E i s = (case deref s i of Inl f \<Rightarrow> [] | Inr d \<Rightarrow>
     (case driver_of E d of None \<Rightarrow> [] | Some drv \<Rightarrow>
        if dev_destroy drv \<noteq> None then [DevDestroy i] else close_call E i s))"

definition leave_calls :: "lib_env \<Rightarrow> lib_context \<Rightarrow> driver_call list" where
  "leave_calls E s = (case actived_device s of
     None \<Rightarrow> []
   | Some i \<Rightarrow> if is_delay_destory s then destroy_call E i s else close_call E i s)"

lemma close_calls:
  "returns (close_device_instance E (Some i) s) (\<lambda>(r, t).
     calls t = calls s @ close_call E i s \<and> device_list t = device_list s)"
  by (auto simp: close_device_instance_def close_call_def call_driver_def Let_def split_def split: option.split)

lemma destroy_calls:
  "returns (destroy_device_instance E (Some i) s) (\<lambda>(r, t).
     calls t = calls s @ destroy_call E i s \<and> device_list t = device_list s)"
  by (auto simp: destroy_device_instance_def destroy_call_def close_call_def call_driver_def Let_def split_def
      split: option.split)

lemma leave_active_calls:
  "returns (leave_active E s) (\<lambda>((r, old), t).
     calls t = calls s @ leave_calls E s \<and> device_list t = device_list s)"
proof (cases "actived_device s")
  case None
  then show ?thesis by (simp add: leave_active_def leave_calls_def)
next
  case (Some i)
  have gone: "calls t = calls s @ destroy_call E i s \<and> device_list t = device_list s"
    if "destroy_device_instance E (Some i) s = Inr (r, t)" for r t
    using returnsD [OF destroy_calls that] by simp
  have closed: "calls t = calls s @ close_call E i s \<and> device_list t = device_list s"
    if "close_device_instance E (Some i) s = Inr (r, t)" for r t
    using returnsD [OF close_calls that] by simp
  show ?thesis
    using gone closed by (auto simp: leave_active_def leave_calls_def Some)
qed

text \<open>Drivers do not change the handle of an instance.\<close>

definition handles_kept :: "lib_env \<Rightarrow> bool" where
  "handles_kept E \<longleftrightarrow> (\<forall>drv \<in> set (drivers E).
     (\<forall>f \<in> set_option (dev_open drv) \<union> set_option (dev_close drv). \<forall>h d. handle (snd (f h d)) = handle d)
   \<and> (\<forall>f \<in> set_option (dev_destroy drv). \<forall>h d d'. snd (f h d) = Some d' \<longrightarrow> handle d' = handle d))"

definition same_handles :: "lib_context \<Rightarrow> lib_context \<Rightarrow> bool" where
  "same_handles s t \<longleftrightarrow> (\<forall>j d'. deref t j = Inr d' \<longrightarrow> (\<exists>d. deref s j = Inr d \<and> handle d = handle d'))"

lemma driver_of_member: "driver_of E d = Some drv \<Longrightarrow> drv \<in> set (drivers E)"
  by (auto simp: driver_of_def split: option.splits if_splits)

lemma same_handles_store:
  "deref s i = Inr d \<Longrightarrow> (\<And>d'. x = Some d' \<Longrightarrow> handle d' = handle d) \<Longrightarrow> heap t = heap s \<Longrightarrow>
   same_handles s (store i x t)"
  unfolding same_handles_def
proof (intro allI impI)
  fix j d'
  assume a: "deref s i = Inr d" "\<And>d'. x = Some d' \<Longrightarrow> handle d' = handle d" "heap t = heap s"
    "deref (store i x t) j = Inr d'"
  show "\<exists>d. deref s j = Inr d \<and> handle d = handle d'"
  proof (cases "j = i")
    case True
    with a(3,4) have "x = Some d'" by (auto simp: deref_def store_def split: if_splits option.splits)
    with a(1,2) True show ?thesis by auto
  next
    case False
    with a(3,4) have "deref s j = Inr d'" by (simp add: deref_def store_def split: if_splits)
    then show ?thesis by auto
  qed
qed

lemma same_handles_refl [simp]: "same_handles s s"
  by (simp add: same_handles_def)

lemma deref_last_error [simp]: "deref (s\<lparr>last_error := x\<rparr>) i = deref s i"
  by (simp add: deref_def)

lemma calls_last_error [simp]:
  "close_call E i (s\<lparr>last_error := x\<rparr>) = close_call E i s"
  "destroy_call E i (s\<lparr>last_error := x\<rparr>) = destroy_call E i s"
  "leave_calls E (s\<lparr>last_error := x\<rparr>) = leave_calls E s"
  by (simp_all add: close_call_def destroy_call_def leave_calls_def split: option.split sum.split)

lemma close_handles: "handles_kept E \<Longrightarrow> returns (close_device_instance E (Some i) s) (\<lambda>(r, t). same_handles s t)"
  by (auto simp: close_device_instance_def call_driver_def Let_def split_def handles_kept_def
      dest: driver_of_member intro!: same_handles_store split: option.split)

lemma destroy_handles: "handles_kept E \<Longrightarrow> returns (destroy_device_instance E (Some i) s) (\<lambda>(r, t). same_handles s t)"
  by (auto simp: destroy_device_instance_def call_driver_def Let_def split_def handles_kept_def
      dest: driver_of_member intro!: same_handles_store split: option.split)

lemma leave_active_handles:
  assumes "handles_kept E"
  shows "returns (leave_active E s) (\<lambda>(_, t). same_handles s t)"
proof (cases "actived_device s")
  case None
  then show ?thesis by (simp add: leave_active_def same_handles_def)
next
  case (Some i)
  have upd: "same_handles s (t\<lparr>actived_device := a, is_delay_destory := b\<rparr>) = same_handles s t" for t a b
    by (simp add: same_handles_def deref_def)
  from close_handles [OF assms, of i s] destroy_handles [OF assms, of i s] Some show ?thesis
    by (auto simp: leave_active_def upd ok_def split: sum.splits if_splits)
qed

lemma switch_to_calls:
  assumes "switch_to E dev old s = Inr (SR_OK, t)"
  shows "(calls t = calls s @ [DevOpen dev] \<and> actived_device t = Some dev)
    \<or> (\<exists>back. calls t \<in> {calls s @ [DevOpen dev, DevOpen back], calls s @ [DevOpen back]} \<and> actived_device t = Some back)"
proof -
  from assms obtain r u where o1: "open_device_instance E (Some dev) s = Inr (r, u)"
    by (auto simp: switch_to_def ebind_eq_Inr)
  note calls1 = returnsD [OF open_calls o1]
  show ?thesis
  proof (cases "r = SR_OK")
    case True
    with assms o1 calls1 show ?thesis
      by (auto simp: switch_to_def ebind_eq_Inr)
  next
    case False
    with assms o1 obtain prev where b: "open_device_instance E (Some prev) (u\<lparr>actived_device := Some prev\<rparr>) = Inr (SR_OK, t)"
      by (auto simp: switch_to_def Let_def split: option.splits list.splits)
    from returnsD [OF open_calls b] calls1 show ?thesis by auto
  qed
qed

text \<open>C25: Switching devices. When activating a handle succeeds, nothing was being collected, the
  device that was active before was closed or destroyed before any other was opened, and the
  last driver call opened the device that is active now. That is a device of the list with the
  handle asked for, unless it could not be opened and the library went back to another one.
  (Drivers are taken not to change handles.)\<close>

theorem ds_active_device_protocol:
  assumes "handles_kept E" "ds_active_device E hdl s = Inr (SR_OK, t)"
  shows "\<not> ds_is_collecting s \<and> (\<exists>dev d.
    dev \<in> set (device_list s) \<and> deref s dev = Inr d \<and> handle d = hdl
    \<and> (calls t = calls s @ leave_calls E s @ [DevOpen dev] \<and> actived_device t = Some dev
       \<or> (\<exists>back. calls t \<in> {calls s @ leave_calls E s @ [DevOpen dev, DevOpen back],
             calls s @ leave_calls E s @ [DevOpen back]}
            \<and> actived_device t = Some back)))"
proof -
  have found: "find_dev u p devs = Inr (Some d) \<Longrightarrow> d \<in> set devs \<and> (\<exists>e. deref u d = Inr e \<and> p d e)" for u p devs d
    by (induction devs) (auto simp: ebind_eq_Inr split: if_splits)
  let ?s = "s\<lparr>last_error := SR_OK\<rparr>"
  from assms(2) obtain old u dev where l: "leave_active E ?s = Inr ((SR_OK, old), u)"
    and f: "find_dev u (\<lambda>i d. handle d = hdl) (device_list u) = Inr (Some dev)"
    and sw: "switch_to E dev old u = Inr (SR_OK, t)" and idle: "\<not> ds_is_collecting s"
    by (auto simp: ds_active_device_def Let_def ds_is_collecting_def ebind_eq_Inr split: if_splits option.splits)
  from returnsD [OF leave_active_calls l] have cs: "calls u = calls s @ leave_calls E s"
    "device_list u = device_list s" by simp_all
  from found [OF f] obtain e where e: "dev \<in> set (device_list u)" "deref u dev = Inr e" "handle e = hdl" by auto
  with returnsD [OF leave_active_handles [OF assms(1)] l] obtain d where
    d: "deref s dev = Inr d" "handle d = hdl"
    by (auto simp: same_handles_def)
  from switch_to_calls [OF sw] cs e(1) d idle show ?thesis by auto
qed

lemma demo_env_handles: "handles_kept demo_env"
  by (simp add: handles_kept_def demo_env_def demo_driver_def)

lemma ds_active_device_protocol_witness:
  "\<exists>t. ds_active_device demo_env 8 (state_of (run_ops lib_step [LibInit, ActiveDevice 7] (demo_env, lib_ctx)))
       = Inr (SR_OK, t) \<and> last (calls t) = DevOpen (the (actived_device t))"
proof -
  let ?s = "state_of (run_ops lib_step [LibInit, ActiveDevice 7] (demo_env, lib_ctx))"
  have "(case ds_active_device demo_env 8 ?s of Inl f \<Rightarrow> False | Inr (r, t) \<Rightarrow> r = SR_OK)"
    by code_simp
  then obtain t where t: "ds_active_device demo_env 8 ?s = Inr (SR_OK, t)"
    by (auto split: sum.splits)
  from ds_active_device_protocol [OF demo_env_handles t] have "last (calls t) = DevOpen (the (actived_device t))"
    by (elim conjE exE disjE insertE emptyE) simp_all
  with t show ?thesis by blast
qed

section \<open>Collecting\<close>

definition collect_ready :: "lib_context \<Rightarrow> bool" where
  "collect_ready s \<longleftrightarrow> \<not> collect_thread s \<and> data_forward_callback s
     \<and> (\<exists>i. actived_device s = Some i \<and> status (inst s i) \<noteq> SR_ST_INITIALIZING
         \<and> (\<exists>p \<in> set (channels (inst s i)). enabled p))"



lemma events_session [simp]:
  "events (snd (sr_session_run_begin s)) = events s" "posted (snd (sr_session_run_begin s)) = posted s"
  "is_stop_by_detached (snd (sr_session_run_begin s)) = is_stop_by_detached s"
  "event_callback (snd (sr_session_run_begin s)) = event_callback s"
  by (simp_all add: sr_session_run_begin_def split: option.splits)

text \<open>What the two halves of the collect thread report.\<close>

definition same_reports :: "lib_context \<Rightarrow> lib_context \<Rightarrow> bool" where
  "same_reports s t \<longleftrightarrow> events t = events s \<and> posted t = posted s
     \<and> is_stop_by_detached t = is_stop_by_detached s \<and> event_callback t = event_callback s"

lemma acquisition_stop_reports:
  "returns (current_device_acquisition_stop E s) (\<lambda>(r, t). same_reports s t)"
  by (auto simp: current_device_acquisition_stop_def call_driver_def Let_def split_def same_reports_def
      split: option.split)

lemma run_end_reports: "returns (sr_session_run_end E s) (\<lambda>(r, t). same_reports s t)"
  using returnsD [OF acquisition_stop_reports, of E s]
  by (auto simp: sr_session_run_end_def same_reports_def split: option.split)

lemma collect_begin_events:
  assumes "event_callback s"
  shows "returns (collect_run_begin E s) (\<lambda>(u, t).
      collect_proc t = Some InSession \<and> events t = events s @ [101, 103] \<and> posted t = posted s
      \<and> is_stop_by_detached t = is_stop_by_detached s \<and> event_callback t
    \<or> collect_proc t = None \<and> \<not> collect_thread t \<and> \<not> is_stop_by_detached t \<and> posted t = posted s
      \<and> (events t = events s @ [101, 106] \<or> events t = events s @ [101, 103, 104, 106]))"
  using assms
  by (auto simp: collect_run_begin_def collect_run_end_def send_event_def Let_def call_driver_def
      split_def split: option.split)

lemma collect_finish_events:
  assumes "event_callback s"
  shows "returns (collect_run_finish E s) (\<lambda>(u, t). collect_proc t = None \<and> \<not> collect_thread t \<and> \<not> is_stop_by_detached t
    \<and> (if is_stop_by_detached s then events t = events s @ [104] \<and> posted t = posted s @ [105]
       else events t = events s @ [104, 102] \<and> posted t = posted s))"
  using assms returnsD [OF run_end_reports, of E s]
  by (auto simp: collect_run_finish_def collect_run_end_def send_event_def post_event_async_def Let_def same_reports_def)

text \<open>C23: The life of a collect run. A collect thread that was created and runs to its end reports
  its start, and then exactly one end: by error, before or after the device ran, by the
  unplugging of the device (posted to a callback thread), or a normal end; a device reported
  running is reported stopped before. Then the thread is gone and the next run may start.\<close>

theorem collect_run_events:
  assumes "collect_proc s = Some Spawned" "event_callback s" "collect_run_proc E s = Inr (u, t)"
  shows "collect_proc t = None \<and> \<not> collect_thread t \<and> \<not> is_stop_by_detached t
    \<and> (events t = events s @ [101, 106] \<and> posted t = posted s
      \<or> events t = events s @ [101, 103, 104, 106] \<and> posted t = posted s
      \<or> events t = events s @ [101, 103, 104] \<and> posted t = posted s @ [105] \<and> is_stop_by_detached s
      \<or> events t = events s @ [101, 103, 104, 102] \<and> posted t = posted s \<and> \<not> is_stop_by_detached s)"
proof -
  from assms(1,3) obtain v w where b: "collect_run_begin E s = Inr (v, w)"
    and rest: "(if collect_proc w = Some InSession then collect_run_finish E w else Inr ((), w)) = Inr (u, t)"
    by (auto simp: collect_run_proc_def ebind_eq_Inr)
  from returnsD [OF collect_begin_events [OF assms(2)] b, simplified] show ?thesis
  proof (elim disjE conjE)
    assume w: "collect_proc w = Some InSession" "events w = events s @ [101, 103]" "posted w = posted s"
      "is_stop_by_detached w = is_stop_by_detached s" "event_callback w"
    then have "collect_run_finish E w = Inr (u, t)" using rest by simp
    from returnsD [OF collect_finish_events [OF w(5)] this] w show ?thesis by (auto split: if_splits)
  qed (use rest in auto)
qed

lemma collect_run_events_witness:
  "\<exists>t :: lib_context. collect_proc t = None \<and> \<not> collect_thread t \<and> events t = [101, 103, 104, 102]"
proof -
  let ?s = "state_of (run_ops lib_step [LibInit, SetCallbacks True True, ActiveDevice 7, StartCollect] (demo_env, lib_ctx))"
  have s: "collect_proc ?s = Some Spawned" "event_callback ?s" by code_simp+
  have "(case collect_run_proc demo_env ?s of Inl f \<Rightarrow> False | Inr (r, t) \<Rightarrow> events t = [101, 103, 104, 102])"
    by code_simp
  then obtain t where t: "collect_run_proc demo_env ?s = Inr ((), t)" "events t = [101, 103, 104, 102]"
    by (auto split: sum.splits)
  from collect_run_events [OF s t(1)] have "collect_proc t = None \<and> \<not> collect_thread t" by (elim conjE, intro conjI)
  with t(2) show ?thesis by blast
qed

end
