(* ===== verification/Lib_Hotplug.thy ===== *)
theory Lib_Hotplug
  imports Lib_Protocol
begin

text \<open>
  The hotplug protocol over several rounds of the hotplug thread, and the device list as the
  client sees it: a list of handles.
\<close>

section \<open>Unplugging\<close>

fun hotplug_rounds :: "lib_env \<Rightarrow> nat list list \<Rightarrow> unit lib" where
  "hotplug_rounds E [] s = Inr ((), s)"
| "hotplug_rounds E (usb # usbs) s = ebind (hotplug_round E usb s) (\<lambda>(_, t). hotplug_rounds E usbs t)"

text \<open>The state after a detach event: round \<open>n\<close> of waiting for the device \<open>h\<close> to come back.\<close>

definition waiting :: "nat \<Rightarrow> int \<Rightarrow> lib_context \<Rightarrow> bool" where
  "waiting h n s \<longleftrightarrow> is_waitting_reconnect s \<and> \<not> attach_event_flag s \<and> \<not> detach_event_flag s
     \<and> detach_device_handle s = h \<and> check_reconnect_times s = n \<and> transaction_id s = cur_trans_id s"

lemma round_waiting:
  assumes "waiting h n s"
  shows "hotplug_round E usb s = Inr ((), if n + 1 = 5
    then s\<lparr>check_reconnect_times := 5, detach_event_flag := True, is_waitting_reconnect := False\<rparr>
    else s\<lparr>check_reconnect_times := n + 1\<rparr>)"
  using assms
  by (simp add: waiting_def hotplug_round_def poll_usb_hotplug_fallback_def check_reconnect_def
      run_transaction_def Let_def)

lemma waiting_next: "waiting h n s \<Longrightarrow> waiting h (n + 1) (s\<lparr>check_reconnect_times := n + 1\<rparr>)"
  by (simp add: waiting_def)

lemma five_rounds:
  assumes "waiting h 0 s"
  shows "hotplug_rounds E [a, b, c, d, e] s
    = Inr ((), s\<lparr>check_reconnect_times := 5, detach_event_flag := True, is_waitting_reconnect := False\<rparr>)"
proof -
  note w1 = waiting_next [OF assms] note w2 = waiting_next [OF w1]
  note w3 = waiting_next [OF w2] note w4 = waiting_next [OF w3]
  show ?thesis
    using round_waiting [OF assms, of E a] round_waiting [OF w1, of E b] round_waiting [OF w2, of E c]
      round_waiting [OF w3, of E d] round_waiting [OF w4, of E e]
    by simp
qed

text \<open>The device the detach event is about.\<close>

lemma find_unique:
  assumes "\<forall>j \<in> set devs. live s j" "i \<in> set devs" "\<forall>j \<in> set devs. p j (inst s j) \<longleftrightarrow> j = i"
  shows "find_dev s p devs = Inr (Some i)"
  using assms by (induction devs) (auto simp: deref_live)

text \<open>C10: Unplugging the active device. Once its detach event is noted and nothing attaches it
  again, the fifth round of the hotplug thread gives up waiting and the sixth takes the device off
  the list, posts \<open>DS_EV_CURRENT_DEVICE_DETACH\<close> to the user exactly once and delays its
  destruction: the device itself is not touched and stays the active one.\<close>

theorem active_detach_timeout:
  assumes "registry_ok s" "waiting h 0 s" "h \<noteq> 0" "actived_device s = Some i" "i \<in> set (device_list s)"
    and "\<forall>j \<in> set (device_list s). usb_device_matches_dev_inst E (inst s j) h \<longleftrightarrow> j = i"
    and "length usbs = 6"
  shows "\<exists>t. hotplug_rounds E usbs s = Inr ((), t) \<and> device_list t = remove1 i (device_list s)
    \<and> actived_device t = Some i \<and> is_delay_destory t \<and> heap t = heap s \<and> posted t = posted s @ [2]
    \<and> \<not> is_waitting_reconnect t \<and> detach_device_handle t = 0 \<and> registry_ok t"
proof -
  from assms(7) obtain a b c d e f where usbs: "usbs = [a, b, c, d, e] @ [f]"
    by (auto simp: length_Suc_conv eval_nat_numeral)
  let ?s5 = "s\<lparr>check_reconnect_times := 5, detach_event_flag := True, is_waitting_reconnect := False\<rparr>"
  let ?s6 = "s\<lparr>check_reconnect_times := 5, detach_event_flag := False, is_waitting_reconnect := False,
    detach_device_handle := 0, is_delay_destory := True, device_list := remove1 i (device_list s),
    callback_thread_count := callback_thread_count s + 1, posted := posted s @ [2]\<rparr>"
  have live: "\<forall>j \<in> set (device_list s). live s j" using assms(1) by (simp add: registry_ok_def)
  have app: "hotplug_rounds E (xs @ ys) u = ebind (hotplug_rounds E xs u) (\<lambda>(_, t). hotplug_rounds E ys t)" for xs ys u
    by (induction xs arbitrary: u) (auto simp: ebind_def split: sum.splits)
  have found: "find_dev (?s5\<lparr>detach_device_handle := 0\<rparr>) (\<lambda>i d. usb_device_matches_dev_inst E d h) (device_list s) = Inr (Some i)"
    using live assms(5,6) by (intro find_unique) auto
  have "live (?s5\<lparr>detach_device_handle := 0, is_delay_destory := True\<rparr>) i"
    using live assms(5) by (simp add: live_def)
  then have "hotplug_round E f ?s5 = Inr ((), ?s6)"
    using assms(2-4) found
    by (simp add: waiting_def hotplug_round_def poll_usb_hotplug_fallback_def process_detach_event_def
        deref_live post_event_async_def check_reconnect_def run_transaction_def Let_def)
  moreover have "registry_ok ?s6"
    using assms(1,4,5) by (auto simp: registry_ok_def live_def)
  ultimately show ?thesis
    using five_rounds [OF assms(2), of E a b c d e] assms(4) by (simp only: usbs app) simp
qed

text \<open>The library with the device 7 active and unplugged.\<close>

definition unplugged :: lib_context where
  "unplugged = state_of (run_ops lib_step [LibInit, SetCallbacks True True, ActiveDevice 7, HotplugEvent [8] False 7 2]
     (demo_env, lib_ctx))"

lemma unplugged_facts:
  "device_list unplugged = [0, 1]" "actived_device unplugged = Some 0" "\<not> is_delay_destory unplugged"
  "length (heap unplugged) = 2" "heap unplugged ! 1 \<noteq> None"
  "heap unplugged ! 0 = Some (demo_device\<lparr>status := SR_ST_ACTIVE, actived_times := 1\<rparr>)"
  "handle (inst unplugged 1) = 8" "conn (inst unplugged 1) = Some \<lparr>usb_dev = 8, bus = 1, address = 8\<rparr>"
  "is_waitting_reconnect unplugged" "\<not> attach_event_flag unplugged" "\<not> detach_event_flag unplugged"
  "detach_device_handle unplugged = 7" "check_reconnect_times unplugged = 0"
  "transaction_id unplugged = cur_trans_id unplugged" "posted unplugged = []"
  by code_simp+

lemma unplugged_ok: "registry_ok unplugged" "waiting 7 0 unplugged"
  using unplugged_facts by (auto simp: registry_ok_def waiting_def live_def)

lemma active_detach_timeout_witness:
  "\<exists>t. hotplug_rounds demo_env (replicate 6 [8]) unplugged = Inr ((), t) \<and> device_list t = [1] \<and> posted t = [2]"
proof -
  have m: "\<forall>j \<in> set (device_list unplugged). usb_device_matches_dev_inst demo_env (inst unplugged j) 7 \<longleftrightarrow> j = 0"
    using unplugged_facts
    by (auto simp: usb_device_matches_dev_inst_def demo_env_def inst_def demo_device_def)
  have "actived_device unplugged = Some 0" "(0 :: nat) \<in> set (device_list unplugged)" "length (replicate 6 [8 :: nat]) = 6"
    using unplugged_facts by simp_all
  from active_detach_timeout [OF unplugged_ok _ this(1,2) m this(3)] unplugged_facts(1,15)
  show ?thesis by auto
qed

section \<open>Loose contact\<close>

lemma close_fields:
  "returns (close_device_instance E (Some i) s) (\<lambda>(r, t). posted t = posted s
     \<and> attach_event_flag t = attach_event_flag s \<and> transaction_id t = transaction_id s)"
  by (auto simp: close_device_instance_def call_driver_def store_def Let_def split_def split: option.split)



section \<open>The list as the client sees it\<close>

definition handles :: "lib_context \<Rightarrow> nat list" where
  "handles s = map (\<lambda>i. handle (inst s i)) (device_list s)"

text \<open>The abstract registry: what adding and removing does to the list of handles.\<close>

fun registry_spec :: "lib_op \<Rightarrow> int \<Rightarrow> nat list \<Rightarrow> nat list" where
  "registry_spec (DeviceFromFile path (Inr d)) r hs = (if r = SR_OK then hs @ [handle d] else hs)"
| "registry_spec (RemoveDevice h) r hs = (if r = SR_OK then remove1 h hs else hs)"
| "registry_spec c r hs = hs"

definition registry_op :: "lib_op \<Rightarrow> bool" where
  "registry_op c \<longleftrightarrow> (case c of DeviceFromFile p l \<Rightarrow> True | RemoveDevice h \<Rightarrow> True
     | GetDeviceList m \<Rightarrow> True | GetDeviceInfo \<Rightarrow> True | PostMessage m \<Rightarrow> True | SetCallbacks a b \<Rightarrow> True | _ \<Rightarrow> False)"

lemma handles_cong:
  "device_list t = device_list s \<Longrightarrow> (\<And>i. i \<in> set (device_list s) \<Longrightarrow> handle (inst t i) = handle (inst s i)) \<Longrightarrow>
   handles t = handles s"
  by (simp add: handles_def)

lemma destroy_others:
  "returns (destroy_device_instance E (Some i) s) (\<lambda>(r, t). device_list t = device_list s
     \<and> (\<forall>j. j \<noteq> i \<longrightarrow> inst t j = inst s j))"
  by (auto simp: destroy_device_instance_def call_driver_def store_def inst_def Let_def split_def split: option.split)

lemma remove_first:
  assumes "\<forall>i \<in> set devs. live s i" "find_dev s (\<lambda>i d. handle d = h) devs = Inr (Some i)"
  shows "map (\<lambda>j. handle (inst s j)) (remove1 i devs) = remove1 h (map (\<lambda>j. handle (inst s j)) devs)
    \<and> h \<in> set (map (\<lambda>j. handle (inst s j)) devs) \<and> i \<in> set devs \<and> handle (inst s i) = h"
  using assms by (induction devs) (auto simp: deref_live split: if_splits)

lemma failed_destroy_handles:
  assumes "registry_ok s" "drivers_ok E" "handles_kept E" "live s i"
    "destroy_device_instance E (Some i) s = Inr (r, t)" "r \<noteq> SR_OK"
  shows "handles t = handles s"
proof (rule handles_cong)
  show "device_list t = device_list s" using returnsD [OF destroy_others assms(5)] by simp
  fix j assume "j \<in> set (device_list s)"
  then have "live s j" using assms(1) by (simp add: registry_ok_def)
  moreover have "live t j"
    using returnsD [OF destroy_ok [OF assms(4,2)] assms(5)] assms(6) \<open>live s j\<close> by (simp add: destroyed_def)
  ultimately show "handle (inst t j) = handle (inst s j)"
    using returnsD [OF destroy_handles [OF assms(3)] assms(5)] unfolding same_handles_def prod.case
    by (metis deref_live Inr_inject)
qed

text \<open>The part of \<open>ds_remove_device\<close> behind the checks.\<close>

lemma remove_found_spec:
  assumes "registry_ok s" "drivers_ok E" "handles_kept E"
    and found: "find_dev s (\<lambda>i d. handle d = h) (device_list s) = Inr (Some i)"
    and d: "destroy_device_instance E (Some i) s = Inr (r, u)"
  shows "r \<noteq> SR_OK \<Longrightarrow> handles u = handles s"
    and "h \<in> set (handles s)"
    and "map (\<lambda>j. handle (inst u j)) (remove1 i (device_list u)) = remove1 h (handles s)"
proof -
  have live: "\<forall>i \<in> set (device_list s). live s i" "distinct (device_list s)"
    using assms(1) by (auto simp: registry_ok_def)
  note rem = remove_first [OF live(1) found]
  then have i: "live s i" using live(1) by blast
  show "handles u = handles s" if "r \<noteq> SR_OK"
    using failed_destroy_handles [OF assms(1-3) i d that] .
  show "h \<in> set (handles s)" using rem by (simp add: handles_def)
  have "map (\<lambda>j. handle (inst u j)) (remove1 i (device_list s)) = map (\<lambda>j. handle (inst s j)) (remove1 i (device_list s))"
    using returnsD [OF destroy_others d] live(2) by (intro map_cong) auto
  with rem show "map (\<lambda>j. handle (inst u j)) (remove1 i (device_list u)) = remove1 h (handles s)"
    using returnsD [OF destroy_others d] by (simp add: handles_def)
qed

lemma remove_listed_spec:
  assumes "registry_ok s" "drivers_ok E" "handles_kept E"
  shows "returns (remove_listed E h s) (\<lambda>(r, t).
    handles t = (if r = SR_OK then remove1 h (handles s) else handles s) \<and> (r = SR_OK \<longrightarrow> h \<in> set (handles s)))"
proof -
  have upd: "handles (v\<lparr>device_list := l, actived_device := a\<rparr>) = map (\<lambda>j. handle (inst v j)) l"
    "handles (v\<lparr>device_list := l\<rparr>) = map (\<lambda>j. handle (inst v j)) l" for v a l
    by (simp_all add: handles_def inst_def)
  show ?thesis
    using remove_found_spec [OF assms]
    by (auto simp: remove_listed_def Let_def upd split: option.split)
qed

lemma remove_delayed_spec:
  assumes "registry_ok s"
  shows "returns (remove_delayed E a s) (\<lambda>(b, t). handles t = handles s)"
proof (cases "a \<and> is_delay_destory s")
  case False
  then show ?thesis by (auto simp: remove_delayed_def)
next
  case True
  with assms obtain i where i: "actived_device s = Some i" "i \<notin> set (device_list s)"
    by (auto simp: registry_ok_def split: option.splits)
  have "handles t = handles s" if "destroy_device_instance E (Some i) s = Inr (r, t)" for r t
    using returnsD [OF destroy_others that] i(2) by (intro handles_cong) auto
  moreover have "handles (v\<lparr>actived_device := x, is_delay_destory := y\<rparr>) = handles v" for v x y
    by (simp add: handles_def inst_def)
  ultimately show ?thesis
    using True by (auto simp: remove_delayed_def i(1))
qed

lemma remove_spec:
  assumes "registry_ok s" "drivers_ok E" "handles_kept E"
  shows "returns (ds_remove_device E h s) (\<lambda>(r, t).
    handles t = (if r = SR_OK then remove1 h (handles s) else handles s) \<and> (r = SR_OK \<longrightarrow> h \<in> set (handles s)))"
proof -
  have "returns (remove_listed E h u) (\<lambda>(r, t).
      handles t = (if r = SR_OK then remove1 h (handles s) else handles s) \<and> (r = SR_OK \<longrightarrow> h \<in> set (handles s)))"
    if rd: "remove_delayed E a s = Inr (b, u)" for a b u
  proof -
    have "registry_ok u" "handles u = handles s"
      using returnsD [OF remove_delayed_keeps [OF assms(1,2)] rd] returnsD [OF remove_delayed_spec [OF assms(1)] rd]
      by simp_all
    from remove_listed_spec [OF this(1) assms(2,3), of h, unfolded this(2)] show ?thesis .
  qed
  moreover have "handles t = handles s" if "remove_delayed E a s = Inr (b, t)" for a b t
    using returnsD [OF remove_delayed_spec [OF assms(1)] that] by simp
  ultimately show ?thesis
    by (auto simp: ds_remove_device_def)
qed



end
