(* ===== verification/Lib_Gaps.thy ===== *)
theory Lib_Gaps
  imports Lib_Hotplug
begin

text \<open>
  Situations in which the library front end does not do what it means to, each evaluated on a
  concrete history.
\<close>

definition after :: "lib_env \<Rightarrow> lib_op list \<Rightarrow> lib_context" where
  "after E cs = state_of (run_ops lib_step cs (E, lib_ctx))"

definition faults_with :: "fault \<Rightarrow> fault + 'a \<Rightarrow> bool" where
  "faults_with f x = (case x of Inl g \<Rightarrow> g = f | Inr y \<Rightarrow> False)"

text \<open>The end of the library frees the active device but keeps the pointer to it: the next
  activation, after a new start, closes a freed device.\<close>

lemma exit_leaves_dangling_device:
  "(case ds_lib_exit demo_env (after demo_env [LibInit, ActiveDevice 7]) of
      Inl f \<Rightarrow> False
    | Inr (r, s) \<Rightarrow> r = SR_OK \<and> actived_device s = Some 0 \<and> \<not> live s 0
        \<and> faults_with UseAfterFree (ebind (ds_lib_init demo_env s) (\<lambda>(_, t). ds_active_device demo_env 7 t)))"
  by code_simp

text \<open>A destroy function that frees and answers with something else than \<open>SR_OK\<close> (as the one of
  the session driver does, which has no return statement) leaves a freed device in the list.\<close>

definition no_status_env :: lib_env where
  "no_status_env = demo_env\<lparr>drivers := [demo_driver (\<lambda>h d. (5, None))]\<rparr>"

lemma destroy_without_status_dangles:
  "(case ds_remove_device no_status_env 8 (after no_status_env [LibInit]) of
      Inl f \<Rightarrow> False
    | Inr (r, s) \<Rightarrow> r = SR_ERR \<and> device_list s = [0, 1] \<and> faults_with UseAfterFree (ds_get_device_list True True s))"
  by code_simp

text \<open>A switch that failed is reported as a success when the old device could be opened again.\<close>

definition broken_env :: lib_env where
  "broken_env = demo_env\<lparr>drivers := [(demo_driver (\<lambda>h d. (SR_OK, None)))
     \<lparr>dev_open := Some (\<lambda>h d. if handle d = 8 then (SR_ERR, d) else (SR_OK, d))\<rparr>]\<rparr>"

lemma failed_switch_reports_ok:
  "(case ds_active_device broken_env 8 (after broken_env [LibInit, ActiveDevice 7]) of
      Inl f \<Rightarrow> False | Inr (r, s) \<Rightarrow> r = SR_OK \<and> handle (inst s (the (actived_device s))) = 7)"
  by code_simp

text \<open>A collect thread that ends before its creator stores the pointer to it is collecting for ever:
  the flag is set and no thread is there.\<close>

lemma collect_thread_store_race:
  "(case start_collect_spawn demo_env (after demo_env [LibInit, SetCallbacks True True, ActiveDevice 7]) of
      Inl f \<Rightarrow> False
    | Inr (r, s) \<Rightarrow>
        (case collect_run_proc demo_env s of
           Inl f \<Rightarrow> False
         | Inr (u, t) \<Rightarrow> r = SR_OK \<and> ds_is_collecting (start_collect_store t)
             \<and> collect_proc (start_collect_store t) = None))"
  by code_simp

text \<open>A stop that comes before the session runs is forgotten: the session starts and is not aborted,
  while the caller of the stop waits for its end.\<close>

lemma early_stop_is_lost:
  "(let s = after demo_env [LibInit, SetCallbacks True True, ActiveDevice 7, StartCollect];
        (r, t) = sr_session_stop s in
    case collect_run_begin demo_env t of
      Inl f \<Rightarrow> False
    | Inr (u, v) \<Rightarrow> r = SR_OK \<and> session v = Some \<lparr>running = True, abort_session = False\<rparr>)"
  by code_simp

lemma mode_list_without_device: "ds_get_actived_device_mode_list modes lib_ctx = Inl NullDeref"
  by (simp add: ds_get_actived_device_mode_list_def lib_ctx_def)

text \<open>Removing the device whose destruction was delayed destroys it and answers that there is no such
  device.\<close>

lemma remove_delayed_reports_error:
  "(case ds_remove_device demo_env 7 (after demo_env ([LibInit, ActiveDevice 7, HotplugEvent [8] False 7 2]
        @ replicate 6 (HotplugRound [8]))) of
      Inl f \<Rightarrow> False | Inr (r, s) \<Rightarrow> r = SR_ERR_CALL_STATUS \<and> actived_device s = None \<and> \<not> live s 0)"
  by code_simp

text \<open>After a start that failed at a driver the library can not be started again.\<close>

definition no_driver_env :: lib_env where
  "no_driver_env = demo_env\<lparr>drivers := [(demo_driver (\<lambda>h d. (SR_OK, None)))\<lparr>drv_init := 1\<rparr>]\<rparr>"

lemma failed_init_blocks:
  "(case ds_lib_init no_driver_env lib_ctx of
      Inl f \<Rightarrow> False
    | Inr (r, s) \<Rightarrow> r = SR_ERR \<and> (case ds_lib_init no_driver_env s of Inl f \<Rightarrow> False | Inr (q, t) \<Rightarrow> q = SR_ERR_HAVE_DONE))"
  by code_simp

end
