(* ===== verification/Event_Sources.thy ===== *)
theory Event_Sources
  imports Op_System
begin

text \<open>
  The event sources of an acquisition session and the loop that polls them
  (\<open>libsigrok/session.c\<close>). The two parallel arrays are lists, None after \<open>realloc\<close> has
  given their memory away; a null pointer is the empty list. The drivers, whose callbacks run in
  the loop, the system call behind \<open>g_poll\<close> and the outcome of \<open>g_try_realloc\<close> are
  parameters that share a world of their own with each other.
\<close>

section \<open>State\<close>

record source =
  src_timeout :: int
  cb :: nat
  cb_data :: "nat option"
  poll_object :: int

record poll_fd =
  fd :: int
  poll_events :: int
  revents :: int

record 'w acq_session =
  running :: bool
  num_sources :: nat
  sources :: "source list option"
  pollfds :: "poll_fd list option"
  source_timeout :: int
  abort_session :: bool
  world :: 'w

definition new_acq_session :: "'w \<Rightarrow> 'w acq_session" where
  "new_acq_session w = \<lparr>running = False, num_sources = 0, sources = Some [], pollfds = Some [], source_timeout = - 1,
     abort_session = False, world = w\<rparr>"

text \<open>An array that can be used, and how its memory is given back.\<close>

definition array :: "'a list option \<Rightarrow> fault + 'a list" where
  "array a = (case a of None \<Rightarrow> Inl UseAfterFree | Some xs \<Rightarrow> Inr xs)"

definition free_array :: "'a list option \<Rightarrow> fault + unit" where
  "free_array a = (case a of None \<Rightarrow> Inl DoubleFree | Some xs \<Rightarrow> Inr ())"

section \<open>Adding and removing sources\<close>

text \<open>
  \<open>mem\<close> says which of the two reallocations succeed. After the first alone the session keeps a
  pointer to the old, freed array.
\<close>

definition sr_session_source_add_internal :: "bool \<times> bool \<Rightarrow> poll_fd \<Rightarrow> int \<Rightarrow> nat option \<Rightarrow> nat option \<Rightarrow> int \<Rightarrow>
    'w acq_session option \<Rightarrow> fault + int \<times> 'w acq_session option" where
  "sr_session_source_add_internal mem pollfd timeout callb sdi obj ses =
     (case callb of
        None \<Rightarrow> Inr (SR_ERR_ARG, ses)
      | Some c \<Rightarrow>
        (case ses of
           None \<Rightarrow> Inr (SR_ERR_CALL_STATUS, None)
         | Some s \<Rightarrow>
             ebind (array (pollfds s)) (\<lambda>ps.
             if \<not> fst mem then Inr (SR_ERR_MALLOC, Some s)
             else ebind (array (sources s)) (\<lambda>ss.
             if \<not> snd mem then Inr (SR_ERR_MALLOC, Some (s\<lparr>pollfds := None\<rparr>))
             else let n = num_sources s;
                      s1 = s\<lparr>num_sources := Suc n, pollfds := Some (take n ps @ [pollfd]),
                        sources := Some (take n ss @ [\<lparr>src_timeout = timeout, cb = c, cb_data = sdi, poll_object = obj\<rparr>])\<rparr>
               in Inr (SR_OK, Some
                    (if timeout \<noteq> source_timeout s1 \<and> 0 < timeout
                        \<and> (source_timeout s1 = - 1 \<or> timeout < source_timeout s1)
                     then s1\<lparr>source_timeout := timeout\<rparr> else s1))))))"

definition sr_session_source_add :: "bool \<times> bool \<Rightarrow> int \<Rightarrow> int \<Rightarrow> int \<Rightarrow> nat option \<Rightarrow> nat option \<Rightarrow>
    'w acq_session option \<Rightarrow> fault + int \<times> 'w acq_session option" where
  "sr_session_source_add mem obj evs timeout callb sdi ses =
     sr_session_source_add_internal mem \<lparr>fd = obj, poll_events = evs, revents = 0\<rparr> timeout callb sdi obj ses"

text \<open>\<open>memmove\<close> of what is behind \<open>k\<close>, up to the new count \<open>n\<close>.\<close>

definition delete_at :: "nat \<Rightarrow> nat \<Rightarrow> 'a list \<Rightarrow> 'a list" where
  "delete_at k n xs = take k xs @ take (n - k) (drop (Suc k) xs) @ drop n xs"

definition find_source :: "int \<Rightarrow> source list \<Rightarrow> nat" where
  "find_source obj ss = length (takeWhile (\<lambda>x. poll_object x \<noteq> obj) ss)"

definition sr_session_source_remove_internal :: "bool \<times> bool \<Rightarrow> int \<Rightarrow>
    'w acq_session option \<Rightarrow> fault + int \<times> 'w acq_session option" where
  "sr_session_source_remove_internal mem obj ses =
     (case ses of
        None \<Rightarrow> Inr (SR_ERR_CALL_STATUS, None)
      | Some s \<Rightarrow>
          if sources s = Some [] \<or> num_sources s = 0 then Inr (SR_ERR_BUG, Some s)
          else ebind (array (sources s)) (\<lambda>ss.
          let old = find_source obj (take (num_sources s) ss); n = num_sources s - 1 in
          if old = num_sources s then Inr (SR_OK, Some s)
          else if n = 0 then
            ebind (free_array (pollfds s)) (\<lambda>u.
            Inr (SR_OK, Some (s\<lparr>num_sources := 0, source_timeout := - 1, pollfds := Some [], sources := Some []\<rparr>)))
          else
            ebind (array (pollfds s)) (\<lambda>ps.
            let ps1 = (if old \<noteq> n then delete_at old n ps else ps);
                ss1 = (if old \<noteq> n then delete_at old n ss else ss);
                s1 = s\<lparr>num_sources := n, pollfds := Some ps1, sources := Some ss1\<rparr>
            in if \<not> fst mem then Inr (SR_ERR_MALLOC, Some s1)
               else if \<not> snd mem then Inr (SR_ERR_MALLOC, Some (s1\<lparr>pollfds := None\<rparr>))
               else Inr (SR_OK, Some (s1\<lparr>pollfds := Some (take n ps1), sources := Some (take n ss1)\<rparr>)))))"

definition sr_session_source_remove :: "bool \<times> bool \<Rightarrow> int \<Rightarrow>
    'w acq_session option \<Rightarrow> fault + int \<times> 'w acq_session option" where
  "sr_session_source_remove mem obj ses = sr_session_source_remove_internal mem obj ses"

section \<open>The loop\<close>

text \<open>
  \<open>g_poll\<close> returns a count, the \<open>revents\<close> of the descriptors, and the world after it. A callback
  sees the session, and may add and remove sources; it does not destroy it.
\<close>

record 'w session_env =
  g_poll :: "poll_fd list \<Rightarrow> int \<Rightarrow> 'w \<Rightarrow> int \<times> int list \<times> 'w"
  callback :: "nat \<Rightarrow> int \<Rightarrow> int \<Rightarrow> nat option \<Rightarrow> 'w acq_session \<Rightarrow> fault + bool \<times> 'w acq_session"
  device_acquisition_stop :: "'w acq_session \<Rightarrow> fault + 'w acq_session"
  realloc_ok :: "'w \<Rightarrow> bool \<times> bool"

text \<open>The callback of one source; when it returns false the source that is at its place then goes.\<close>

definition dispatch :: "'w session_env \<Rightarrow> nat \<Rightarrow> poll_fd \<Rightarrow> source \<Rightarrow> 'w acq_session \<Rightarrow> fault + 'w acq_session" where
  "dispatch E i p src s =
     ebind (callback E (cb src) (fd p) (revents p) (cb_data src) s) (\<lambda>(keep, s1).
     if keep then Inr s1
     else ebind (array (sources s1)) (\<lambda>ss.
          ebind (rd ss i) (\<lambda>src1.
          ebind (sr_session_source_remove (realloc_ok E (world s1)) (poll_object src1) (Some s1)) (\<lambda>(ret, ses).
          case ses of None \<Rightarrow> Inl NullDeref | Some s2 \<Rightarrow> Inr s2))))"

definition iteration_step :: "'w session_env \<Rightarrow> int \<Rightarrow> nat \<Rightarrow> 'w acq_session \<Rightarrow> fault + 'w acq_session" where
  "iteration_step E ret i s =
     ebind (array (pollfds s)) (\<lambda>ps. ebind (rd ps i) (\<lambda>p.
     ebind (array (sources s)) (\<lambda>ss. ebind (rd ss i) (\<lambda>src.
     ebind (if 0 < revents p \<or> (ret = 0 \<and> source_timeout s = src_timeout src) then dispatch E i p src s else Inr s) (\<lambda>s1.
     if abort_session s1
     then ebind (device_acquisition_stop E s1) (\<lambda>s2. Inr (s2\<lparr>abort_session := False\<rparr>)) else Inr s1)))))"

text \<open>The loops end only when the callbacks let them: None stands for a loop that goes on for ever.\<close>

partial_function (option) iteration_loop :: "'w session_env \<Rightarrow> int \<Rightarrow> nat \<Rightarrow> 'w acq_session \<Rightarrow>
    (fault + 'w acq_session) option" where
  "iteration_loop E ret i s =
     (if i < num_sources s then
        (case iteration_step E ret i s of Inl f \<Rightarrow> Some (Inl f) | Inr s1 \<Rightarrow> iteration_loop E ret (Suc i) s1)
      else Some (Inr s))"

fun with_revents :: "int list \<Rightarrow> poll_fd list \<Rightarrow> poll_fd list" where
  "with_revents (r # rs) (p # ps) = p\<lparr>revents := r\<rparr> # with_revents rs ps"
| "with_revents rs ps = ps"

definition sr_session_iteration :: "'w session_env \<Rightarrow> bool \<Rightarrow> 'w acq_session option \<Rightarrow>
    (fault + int \<times> 'w acq_session option) option" where
  "sr_session_iteration E block ses =
     (case ses of
        None \<Rightarrow> Some (Inr (SR_ERR_CALL_STATUS, None))
      | Some s \<Rightarrow>
          (case array (pollfds s) of
             Inl f \<Rightarrow> Some (Inl f)
           | Inr ps \<Rightarrow>
               let (ret, rs, w) = g_poll E (take (num_sources s) ps) (if block then source_timeout s else 0) (world s);
                   s1 = s\<lparr>pollfds := Some (with_revents rs (take (num_sources s) ps) @ drop (num_sources s) ps), world := w\<rparr>
               in (case iteration_loop E ret 0 s1 of
                     None \<Rightarrow> None
                   | Some (Inl f) \<Rightarrow> Some (Inl f)
                   | Some (Inr s2) \<Rightarrow> Some (Inr (SR_OK, Some s2)))))"

text \<open>A single source with descriptor -1 is not polled but called over and over.\<close>

definition first_source :: "'w acq_session \<Rightarrow> fault + source" where
  "first_source s = ebind (array (sources s)) (\<lambda>ss. rd ss 0)"

partial_function (option) freewheel :: "'w session_env \<Rightarrow> 'w acq_session \<Rightarrow> (fault + 'w acq_session) option" where
  "freewheel E s =
     (if num_sources s = 0 then Some (Inr s)
      else case first_source s of
        Inl f \<Rightarrow> Some (Inl f)
      | Inr src \<Rightarrow>
          if abort_session s then
            (case callback E (cb src) (- 1) (- 1) (cb_data src) s of Inl f \<Rightarrow> Some (Inl f) | Inr (keep, s1) \<Rightarrow> Some (Inr s1))
          else
            (case callback E (cb src) (- 1) 0 (cb_data src) s of Inl f \<Rightarrow> Some (Inl f) | Inr (keep, s1) \<Rightarrow> freewheel E s1))"

partial_function (option) poll_loop :: "'w session_env \<Rightarrow> 'w acq_session \<Rightarrow> (fault + 'w acq_session) option" where
  "poll_loop E s =
     (if num_sources s = 0 then Some (Inr s)
      else case sr_session_iteration E True (Some s) of
        None \<Rightarrow> None
      | Some (Inl f) \<Rightarrow> Some (Inl f)
      | Some (Inr (ret, None)) \<Rightarrow> Some (Inl NullDeref)
      | Some (Inr (ret, Some s1)) \<Rightarrow> poll_loop E s1)"

definition run_finish :: "'w session_env \<Rightarrow> 'w acq_session \<Rightarrow> fault + int \<times> 'w acq_session option" where
  "run_finish E s =
     ebind (device_acquisition_stop E s) (\<lambda>s1. Inr (SR_OK, Some (s1\<lparr>abort_session := False, running := False\<rparr>)))"

definition sr_session_run :: "'w session_env \<Rightarrow> 'w acq_session option \<Rightarrow> (fault + int \<times> 'w acq_session option) option" where
  "sr_session_run E ses =
     (case ses of
        None \<Rightarrow> Some (Inr (SR_ERR_BUG, None))
      | Some s0 \<Rightarrow>
          if running s0 then Some (Inr (SR_ERR_CALL_STATUS, Some s0))
          else let s = s0\<lparr>running := True\<rparr>;
                   dummy = (if num_sources s = 1 then ebind (array (pollfds s)) (\<lambda>ps. ebind (rd ps 0) (\<lambda>p. Inr (fd p = - 1)))
                            else Inr False)
            in (case dummy of
                  Inl f \<Rightarrow> Some (Inl f)
                | Inr d \<Rightarrow>
                    (case (if d then freewheel E s else poll_loop E s) of
                       None \<Rightarrow> None
                     | Some (Inl f) \<Rightarrow> Some (Inl f)
                     | Some (Inr s1) \<Rightarrow> Some (run_finish E s1))))"

end
