(* ===== verification/Event_Props.thy ===== *)
theory Event_Props
  imports Event_Sources
begin

text \<open>
  The table of event sources against a plain list, and what a round and a run of the loop do.
\<close>

section \<open>The table as a list\<close>

datatype source_op = Add int int int "nat option" "nat option" | Remove int

text \<open>One call on a session, with memory at hand.\<close>

definition source_step :: "source_op \<Rightarrow> 'w acq_session \<Rightarrow> fault + int \<times> 'w acq_session" where
  "source_step c s =
     ebind (case c of
         Add obj evs timeout callb sdi \<Rightarrow> sr_session_source_add (True, True) obj evs timeout callb sdi (Some s)
       | Remove obj \<Rightarrow> sr_session_source_remove (True, True) obj (Some s)) (\<lambda>(ret, ses).
     case ses of None \<Rightarrow> Inl NullDeref | Some s1 \<Rightarrow> Inr (ret, s1))"

fun remove_source :: "int \<Rightarrow> source list \<Rightarrow> source list" where
  "remove_source obj [] = []"
| "remove_source obj (x # xs) = (if poll_object x = obj then xs else x # remove_source obj xs)"

fun source_spec :: "source_op \<Rightarrow> source list \<Rightarrow> int \<times> source list" where
  "source_spec (Add obj evs timeout None sdi) ts = (SR_ERR_ARG, ts)"
| "source_spec (Add obj evs timeout (Some c) sdi) ts =
     (SR_OK, ts @ [\<lparr>src_timeout = timeout, cb = c, cb_data = sdi, poll_object = obj\<rparr>])"
| "source_spec (Remove obj) ts = (if ts = [] then (SR_ERR_BUG, []) else (SR_OK, remove_source obj ts))"

text \<open>The loop never sleeps longer than a source allows.\<close>

definition timeout_ok :: "int \<Rightarrow> source list \<Rightarrow> bool" where
  "timeout_ok t ts \<longleftrightarrow> (t = - 1 \<or> 0 < t) \<and> (\<forall>x \<in> set ts. 0 < src_timeout x \<longrightarrow> 0 < t \<and> t \<le> src_timeout x)"

definition table_ok :: "'w acq_session \<Rightarrow> source list \<Rightarrow> bool" where
  "table_ok s ts \<longleftrightarrow> sources s = Some ts \<and> num_sources s = length ts
     \<and> (\<exists>ps. pollfds s = Some ps \<and> map fd ps = map poll_object ts) \<and> timeout_ok (source_timeout s) ts"

lemma remove_source_at:
  "find_source obj ts < length ts \<Longrightarrow>
   remove_source obj ts = take (find_source obj ts) ts @ drop (Suc (find_source obj ts)) ts"
  by (induction ts) (auto simp: find_source_def)

lemma remove_source_absent: "find_source obj ts = length ts \<Longrightarrow> remove_source obj ts = ts"
  by (induction ts) (auto simp: find_source_def split: if_splits)

lemma find_source_le: "find_source obj ts \<le> length ts"
  by (simp add: find_source_def length_takeWhile_le)

lemma delete_at_take:
  "k \<le> n \<Longrightarrow> length xs = Suc n \<Longrightarrow> take n (if k \<noteq> n then delete_at k n xs else xs) = take k xs @ drop (Suc k) xs"
  by (simp add: delete_at_def)

lemma remove_source_subset: "set (remove_source obj ts) \<subseteq> set ts"
  by (induction ts) auto

lemma add_table:
  assumes "table_ok s ts"
  shows "\<exists>s'. sr_session_source_add (True, True) obj evs timeout (Some c) sdi (Some s) = Inr (SR_OK, Some s')
    \<and> table_ok s' (ts @ [\<lparr>src_timeout = timeout, cb = c, cb_data = sdi, poll_object = obj\<rparr>])"
proof -
  obtain ps where ps: "pollfds s = Some ps" "map fd ps = map poll_object ts"
    using assms by (auto simp: table_ok_def)
  have "length ps = length ts" using arg_cong [OF ps(2), of length] by simp
  then show ?thesis
    using assms ps
    by (auto simp: sr_session_source_add_def sr_session_source_add_internal_def array_def Let_def table_ok_def timeout_ok_def)
qed

lemma remove_table:
  assumes "table_ok s ts" "ts \<noteq> []"
  shows "\<exists>s'. sr_session_source_remove (True, True) obj (Some s) = Inr (SR_OK, Some s') \<and> table_ok s' (remove_source obj ts)"
proof -
  obtain ps where ps: "pollfds s = Some ps" "map fd ps = map poll_object ts"
    using assms by (auto simp: table_ok_def)
  have len: "length ps = length ts" using arg_cong [OF ps(2), of length] by simp
  have s: "sources s = Some ts" "num_sources s = length ts" "timeout_ok (source_timeout s) ts"
    using assms by (simp_all add: table_ok_def)
  define k where "k = find_source obj ts"
  define n where "n = length ts - 1"
  have k: "k \<le> length ts" "length ts = Suc n" using find_source_le [of obj ts] assms(2) by (simp_all add: k_def n_def)
  show ?thesis
  proof (cases "k = length ts")
    case True
    then show ?thesis
      using assms s remove_source_absent [of obj ts]
      by (simp add: sr_session_source_remove_def sr_session_source_remove_internal_def array_def k_def)
  next
    case False
    then have rem: "remove_source obj ts = take k ts @ drop (Suc k) ts" "k \<le> n"
      using remove_source_at [of obj ts] k by (simp_all add: k_def)
    have "map fd (take k ps @ drop (Suc k) ps) = map poll_object (take k ts @ drop (Suc k) ts)"
      using ps(2) by (simp add: take_map [symmetric] drop_map [symmetric])
    then have "table_ok (s\<lparr>num_sources := n, pollfds := Some (take k ps @ drop (Suc k) ps),
        sources := Some (take k ts @ drop (Suc k) ts)\<rparr>) (remove_source obj ts)"
      using s k rem remove_source_subset [of obj ts]
      by (auto simp: table_ok_def timeout_ok_def)
    moreover have "n = 0 \<Longrightarrow> remove_source obj ts = []" using rem k(2) by simp
    ultimately show ?thesis
      using False s ps(1) assms(2) k rem(2) delete_at_take [OF rem(2), of ts] delete_at_take [OF rem(2), of ps] len
      by (auto simp: sr_session_source_remove_def sr_session_source_remove_internal_def array_def free_array_def
        k_def [symmetric] Let_def n_def [symmetric] table_ok_def timeout_ok_def)
  qed
qed

interpretation sources: op_simulation source_step source_spec table_ok
proof
  fix s :: "'w acq_session" and ts c
  assume ok: "table_ok s ts"
  show "\<exists>s'. source_step c s = Inr (fst (source_spec c ts), s') \<and> table_ok s' (snd (source_spec c ts))"
  proof (cases c)
    case (Add obj evs timeout callb sdi)
    show ?thesis
    proof (cases callb)
      case None
      then show ?thesis
        using ok Add by (simp add: source_step_def sr_session_source_add_def sr_session_source_add_internal_def)
    next
      case (Some k)
      then show ?thesis using add_table [OF ok, of obj evs timeout k sdi] Add by (auto simp: source_step_def)
    qed
  next
    case (Remove obj)
    show ?thesis
    proof (cases "ts = []")
      case True
      then show ?thesis
        using ok Remove
        by (simp add: source_step_def sr_session_source_remove_def sr_session_source_remove_internal_def table_ok_def)
    next
      case False
      then show ?thesis using remove_table [OF ok False, of obj] Remove by (auto simp: source_step_def)
    qed
  qed
qed


text \<open>When only the second reallocation of an addition fails, the session keeps a freed array.\<close>

lemma add_half_failed:
  "sr_session_source_add (True, False) obj evs timeout (Some c) sdi (Some (new_acq_session w))
     = Inr (SR_ERR_MALLOC, Some ((new_acq_session w)\<lparr>pollfds := None\<rparr>))"
  "sr_session_iteration E b (Some ((new_acq_session w)\<lparr>pollfds := None\<rparr>)) = Some (Inl UseAfterFree)"
  by (simp_all add: sr_session_source_add_def sr_session_source_add_internal_def new_acq_session_def array_def
    sr_session_iteration_def)

section \<open>A round\<close>

text \<open>The sources that a round calls: with an event, or with the timeout of the session when the poll timed out.\<close>

definition ready :: "int \<Rightarrow> int \<Rightarrow> poll_fd \<times> source \<Rightarrow> bool" where
  "ready ret t x \<longleftrightarrow> 0 < revents (fst x) \<or> (ret = 0 \<and> t = src_timeout (snd x))"

text \<open>
  Callbacks that keep their source and only act on the world: \<open>eff\<close> says how. A session that
  nobody stops meanwhile.
\<close>

definition calm :: "'w session_env \<Rightarrow> (nat \<Rightarrow> int \<Rightarrow> int \<Rightarrow> nat option \<Rightarrow> 'w \<Rightarrow> 'w) \<Rightarrow> bool" where
  "calm E eff \<longleftrightarrow> (\<forall>c f r d s. callback E c f r d s = Inr (True, s\<lparr>world := eff c f r d (world s)\<rparr>))"

definition call_source :: "(nat \<Rightarrow> int \<Rightarrow> int \<Rightarrow> nat option \<Rightarrow> 'w \<Rightarrow> 'w) \<Rightarrow> poll_fd \<times> source \<Rightarrow> 'w \<Rightarrow> 'w" where
  "call_source eff x w = eff (cb (snd x)) (fd (fst x)) (revents (fst x)) (cb_data (snd x)) w"

lemma calm_loop:
  assumes "calm E eff" "sources s = Some ss" "pollfds s = Some ps" "num_sources s = length ss"
    "length ps = length ss" "\<not> abort_session s" "i \<le> length ss"
  shows "iteration_loop E ret i s = Some (Inr (s\<lparr>world :=
    fold (call_source eff) (filter (ready ret (source_timeout s)) (drop i (zip ps ss))) (world s)\<rparr>))"
  using assms(2-)
proof (induction "length ss - i" arbitrary: i s)
  case 0
  then show ?case by (subst iteration_loop.simps) simp
next
  case (Suc n)
  then have i: "i < length ss" by simp
  let ?x = "(ps ! i, ss ! i)"
  let ?w = "if ready ret (source_timeout s) ?x then call_source eff ?x (world s) else world s"
  have step: "iteration_step E ret i s = Inr (s\<lparr>world := ?w\<rparr>)"
    using Suc.prems i assms(1)
    by (simp add: iteration_step_def array_def rd_def dispatch_def calm_def ready_def call_source_def)
  have "drop i (zip ps ss) = ?x # drop (Suc i) (zip ps ss)"
    using i Suc.prems by (simp add: Cons_nth_drop_Suc [symmetric])
  moreover have "iteration_loop E ret (Suc i) (s\<lparr>world := ?w\<rparr>) = Some (Inr (s\<lparr>world :=
      fold (call_source eff) (filter (ready ret (source_timeout s)) (drop (Suc i) (zip ps ss))) ?w\<rparr>))"
    using Suc.hyps(1) [of "Suc i" "s\<lparr>world := ?w\<rparr>"] Suc.hyps(2) Suc.prems i by simp
  ultimately show ?case
    using i Suc.prems step by (subst iteration_loop.simps) simp
qed

lemma length_with_revents [simp]: "length (with_revents rs ps) = length ps"
  by (induction rs ps rule: with_revents.induct) simp_all

text \<open>
  A round polls all descriptors and then calls each ready source once, in the order of the table.
\<close>

lemma calm_round:
  assumes "calm E eff" "table_ok s ts" "\<not> abort_session s" "pollfds s = Some ps"
    "g_poll E ps (if block then source_timeout s else 0) (world s) = (ret, rs, w)"
  shows "sr_session_iteration E block (Some s) = Some (Inr (SR_OK, Some (s\<lparr>pollfds := Some (with_revents rs ps),
    world := fold (call_source eff) (filter (ready ret (source_timeout s)) (zip (with_revents rs ps) ts)) w\<rparr>)))"
proof -
  have ts: "sources s = Some ts" "num_sources s = length ts" "length ps = length ts"
    using assms(2,4) by (auto simp: table_ok_def dest: arg_cong [of _ _ length])
  have "iteration_loop E ret 0 (s\<lparr>pollfds := Some (with_revents rs ps), world := w\<rparr>) = Some (Inr (s\<lparr>
      pollfds := Some (with_revents rs ps), world := fold (call_source eff)
        (filter (ready ret (source_timeout s)) (zip (with_revents rs ps) ts)) w\<rparr>))"
    using calm_loop [OF assms(1), of "s\<lparr>pollfds := Some (with_revents rs ps), world := w\<rparr>" ts "with_revents rs ps" 0 ret]
      ts assms(3) by simp
  then show ?thesis
    using assms(4,5) ts by (simp add: sr_session_iteration_def array_def)
qed

text \<open>
  The timeout of a source that is gone stays: the loop wakes up at that time, and the source that
  is left is not called, because its own timeout is another.
\<close>

definition stale_ops :: "source_op list" where
  "stale_ops = [Add 1 1 10 (Some 0) None, Add 2 1 100 (Some 0) None, Remove 1]"

lemma stale_timeout:
  "\<exists>s. run_ops source_step stale_ops (new_acq_session []) = Inr ([SR_OK, SR_OK, SR_OK], s) \<and> source_timeout s = 10
    \<and> sources s = Some [\<lparr>src_timeout = 100, cb = 0, cb_data = None, poll_object = 2\<rparr>]
    \<and> (\<forall>p. revents p = 0 \<longrightarrow> \<not> ready 0 (source_timeout s) (p, \<lparr>src_timeout = 100, cb = 0, cb_data = None, poll_object = 2\<rparr>))"
  by (simp add: stale_ops_def source_step_def new_acq_session_def sr_session_source_add_def
    sr_session_source_add_internal_def sr_session_source_remove_def sr_session_source_remove_internal_def
    array_def find_source_def delete_at_def Let_def ready_def)

section \<open>A run\<close>

text \<open>
  What a driver without a descriptor owes the session: its callback gets on with its work until it
  takes its source away, and also takes the request to stop.
\<close>

definition one_source :: "source \<Rightarrow> 'w acq_session \<Rightarrow> bool" where
  "one_source src s \<longleftrightarrow> num_sources s = 1 \<and> sources s = Some [src] \<and> pollfds s \<noteq> None"

definition works_off :: "'w session_env \<Rightarrow> source \<Rightarrow> ('w \<Rightarrow> nat) \<Rightarrow> bool" where
  "works_off E src left \<longleftrightarrow> (\<forall>s. one_source src s \<longrightarrow>
     (\<exists>keep s'. callback E (cb src) (- 1) 0 (cb_data src) s = Inr (keep, s')
       \<and> (num_sources s' = 0 \<or> one_source src s' \<and> left (world s') < left (world s)))
     \<and> (\<exists>keep s'. callback E (cb src) (- 1) (- 1) (cb_data src) s = Inr (keep, s')))"

lemma freewheel_ends:
  assumes "works_off E src left" "one_source src s"
  shows "\<exists>s'. freewheel E s = Some (Inr s')"
  using assms(2)
proof (induction "left (world s)" arbitrary: s rule: less_induct)
  case less
  have one: "num_sources s = 1" "first_source s = Inr src"
    using less.prems by (simp_all add: one_source_def first_source_def array_def rd_def)
  show ?case
  proof (cases "abort_session s")
    case True
    then show ?thesis
      using assms(1) less.prems one by (subst freewheel.simps) (auto simp: works_off_def)
  next
    case False
    obtain keep s1 where s1: "callback E (cb src) (- 1) 0 (cb_data src) s = Inr (keep, s1)"
      "num_sources s1 = 0 \<or> one_source src s1 \<and> left (world s1) < left (world s)"
      using assms(1) less.prems by (auto simp: works_off_def)
    have "\<exists>s'. freewheel E s1 = Some (Inr s')"
    proof (cases "num_sources s1 = 0")
      case True
      then show ?thesis by (subst freewheel.simps) simp
    next
      case False
      then show ?thesis using s1(2) less.hyps [of s1] by simp
    qed
    then show ?thesis using False one s1(1) by (subst freewheel.simps) simp
  qed
qed


text \<open>A driver that delivers a number of packets and then takes its source away.\<close>

definition packet_source :: source where
  "packet_source = \<lparr>src_timeout = 0, cb = 0, cb_data = None, poll_object = - 1\<rparr>"

definition packet_env :: "nat session_env" where
  "packet_env = \<lparr>g_poll = \<lambda>ps t w. (0, map (\<lambda>p. 0) ps, w),
     callback = \<lambda>c f r d s. if r = - 1 \<or> world s = 0
       then ebind (sr_session_source_remove (True, True) (- 1) (Some s)) (\<lambda>(ret, ses).
            case ses of None \<Rightarrow> Inl NullDeref | Some s1 \<Rightarrow> Inr (True, s1))
       else Inr (True, s\<lparr>world := world s - 1\<rparr>),
     device_acquisition_stop = \<lambda>s. Inr s, realloc_ok = \<lambda>w. (True, True)\<rparr>"

definition packet_session :: "nat acq_session" where
  "packet_session = \<lparr>running = False, num_sources = 1, sources = Some [packet_source],
     pollfds = Some [\<lparr>fd = - 1, poll_events = 0, revents = 0\<rparr>], source_timeout = - 1, abort_session = False, world = 3\<rparr>"


end
