(* ===== verification/Str_Numbers.thy ===== *)
theory Str_Numbers
  imports Bit_Rate
begin

text \<open>
  Numbers in texts (\<open>libsigrok/strutil.c\<close>): the functions that print sample rates, counts,
  periods and voltages, those that read them back, and the checked conversions. A C string is the
  list of its characters before the terminator. The \<open>strto\<close> functions are modelled as the C
  standard and glibc define them, with \<open>long\<close> of 64 bits and the classic locale.
\<close>

section \<open>The C library\<close>

definition is_space :: "char \<Rightarrow> bool" where
  "is_space c \<longleftrightarrow> (let k = (of_char c :: nat) in k = 32 \<or> 9 \<le> k \<and> k \<le> 13)"

definition skip_space :: "string \<Rightarrow> string" where
  "skip_space = dropWhile is_space"

text \<open>Only blanks: \<open>while (*s == ' ') s++\<close>.\<close>

definition skip_blanks :: "string \<Rightarrow> string" where
  "skip_blanks = dropWhile (\<lambda>c. c = CHR '' '')"

definition to_lower :: "char \<Rightarrow> char" where
  "to_lower c = (if 65 \<le> (of_char c :: nat) \<and> (of_char c :: nat) \<le> 90 then char_of ((of_char c :: nat) + 32) else c)"

text \<open>\<open>strcasecmp(s, t) == 0\<close> and \<open>g_ascii_strncasecmp(s, t, n) == 0\<close> for a \<open>t\<close> of length n.\<close>

definition same_nocase :: "string \<Rightarrow> string \<Rightarrow> bool" where
  "same_nocase s t \<longleftrightarrow> map to_lower s = map to_lower t"

definition starts_nocase :: "string \<Rightarrow> string \<Rightarrow> bool" where
  "starts_nocase s t \<longleftrightarrow> same_nocase (take (length t) s) t"

text \<open>The value of a digit or letter in a base.\<close>

definition digit_in :: "nat \<Rightarrow> char \<Rightarrow> nat option" where
  "digit_in base c =
     (let k = of_char (to_lower c);
          v = (if 48 \<le> k \<and> k \<le> 57 then k - 48 else if 97 \<le> k \<and> k \<le> 122 then k - 87 else 36)
      in if v < base then Some v else None)"

fun digits_value :: "nat \<Rightarrow> string \<Rightarrow> nat \<Rightarrow> nat \<times> string" where
  "digits_value base [] n = (n, [])"
| "digits_value base (c # s) n =
     (case digit_in base c of None \<Rightarrow> (n, c # s) | Some d \<Rightarrow> digits_value base s (n * base + d))"

text \<open>The prefix of base 16, and the base that base 0 stands for.\<close>

definition number_base :: "nat \<Rightarrow> string \<Rightarrow> nat \<times> string" where
  "number_base base s =
     (if (base = 0 \<or> base = 16) \<and> starts_nocase s ''0x'' \<and> 2 < length s \<and> digit_in 16 (s ! 2) \<noteq> None
      then (16, drop 2 s)
      else (if base = 0 then (if s \<noteq> [] \<and> hd s = CHR ''0'' then 8 else 10) else base, s))"

definition number_sign :: "string \<Rightarrow> bool \<times> string" where
  "number_sign s =
     (case s of [] \<Rightarrow> (False, [])
      | c # s' \<Rightarrow> if c = CHR ''-'' then (True, s') else if c = CHR ''+'' then (False, s') else (False, s))"

text \<open>Sign, magnitude and the rest; None when there is no digit.\<close>

definition scan_number :: "nat \<Rightarrow> string \<Rightarrow> (bool \<times> nat \<times> string) option" where
  "scan_number base s =
     (let (neg, s1) = number_sign (skip_space s); (b, s2) = number_base base s1; (v, rest) = digits_value b s2 0
      in if rest = s2 then None else Some (neg, v, rest))"

abbreviation (input) EINVAL :: int where "EINVAL \<equiv> 22"
abbreviation (input) ERANGE :: int where "ERANGE \<equiv> 34"

text \<open>
  The value, what \<open>errno\<close> is set to (0 if it is left alone) and the end pointer, which is not
  written for a base that does not exist.
\<close>

definition strtol :: "nat \<Rightarrow> string \<Rightarrow> int \<times> int \<times> string option" where
  "strtol base s =
     (if base = 1 \<or> 36 < base then (0, EINVAL, None)
      else case scan_number base s of
        None \<Rightarrow> (0, 0, Some s)
      | Some (neg, v, rest) \<Rightarrow>
          let i = (if neg then - int v else int v) in
          if i < - (2 ^ 63) then (- (2 ^ 63), ERANGE, Some rest)
          else if 2 ^ 63 - 1 < i then (2 ^ 63 - 1, ERANGE, Some rest)
          else (i, 0, Some rest))"

definition strtoul :: "nat \<Rightarrow> string \<Rightarrow> u64 \<times> int \<times> string option" where
  "strtoul base s =
     (if base = 1 \<or> 36 < base then (0, EINVAL, None)
      else case scan_number base s of
        None \<Rightarrow> (0, 0, Some s)
      | Some (neg, v, rest) \<Rightarrow>
          if 2 ^ 64 \<le> v then (- 1, ERANGE, Some rest)
          else (if neg then - of_nat v else of_nat v, 0, Some rest))"

text \<open>\<open>strtoull(s, \&end, 10)\<close>: the value and the rest, which is all of \<open>s\<close> if nothing was read.\<close>

definition strtoull10 :: "string \<Rightarrow> u64 \<times> string" where
  "strtoull10 s = (case strtoul 10 s of (v, err, rest) \<Rightarrow> (v, the rest))"

section \<open>Printing\<close>

abbreviation (input) SR_KHZ1 :: u64 where "SR_KHZ1 \<equiv> 1000"
abbreviation (input) SR_MHZ1 :: u64 where "SR_MHZ1 \<equiv> 1000000"
abbreviation (input) SR_GHZ1 :: u64 where "SR_GHZ1 \<equiv> 1000000000"

definition fmt_llu :: "u64 \<Rightarrow> string" where
  "fmt_llu v = dec_string (unat v)"

definition sr_si_string_u64 :: "u64 \<Rightarrow> string option \<Rightarrow> string" where
  "sr_si_string_u64 x unit0 =
     (let unit = (case unit0 of None \<Rightarrow> [] | Some u \<Rightarrow> u) in
      if SR_GHZ1 \<le> x \<and> x mod SR_GHZ1 = 0 then fmt_llu (x div SR_GHZ1) @ '' G'' @ unit
      else if SR_GHZ1 \<le> x \<and> x mod SR_GHZ1 \<noteq> 0 then
        fmt_llu (x div SR_GHZ1) @ ''.'' @ fmt_llu (x mod SR_GHZ1) @ '' G'' @ unit
      else if SR_MHZ1 \<le> x \<and> x mod SR_MHZ1 = 0 then fmt_llu (x div SR_MHZ1) @ '' M'' @ unit
      else if SR_MHZ1 \<le> x \<and> x mod SR_MHZ1 \<noteq> 0 then
        fmt_llu (x div SR_MHZ1) @ ''.'' @ fmt_llu (x mod SR_MHZ1) @ '' M'' @ unit
      else if SR_KHZ1 \<le> x \<and> x mod SR_KHZ1 = 0 then fmt_llu (x div SR_KHZ1) @ '' k'' @ unit
      else if SR_KHZ1 \<le> x \<and> x mod SR_KHZ1 \<noteq> 0 then
        fmt_llu (x div SR_KHZ1) @ ''.'' @ fmt_llu (x mod SR_KHZ1) @ '' K'' @ unit
      else fmt_llu x @ '' '' @ unit)"

definition sr_iec_string_u64 :: "u64 \<Rightarrow> string option \<Rightarrow> string" where
  "sr_iec_string_u64 x unit0 =
     (let unit = (case unit0 of None \<Rightarrow> [] | Some u \<Rightarrow> u);
          kb = 1024; mb = 1048576; gb = 1073741824
      in if gb \<le> x \<and> x mod gb = 0 then fmt_llu (x div gb) @ '' G'' @ unit
      else if gb \<le> x \<and> x mod gb \<noteq> 0 then fmt_llu (x div gb) @ ''.'' @ fmt_llu (x mod gb) @ '' G'' @ unit
      else if mb \<le> x \<and> x mod mb = 0 then fmt_llu (x div mb) @ '' M'' @ unit
      else if mb \<le> x \<and> x mod mb \<noteq> 0 then fmt_llu (x div mb) @ ''.'' @ fmt_llu (x mod mb) @ '' M'' @ unit
      else if kb \<le> x \<and> x mod kb = 0 then fmt_llu (x div kb) @ '' k'' @ unit
      else if kb \<le> x \<and> x mod kb \<noteq> 0 then fmt_llu (x div kb) @ ''.'' @ fmt_llu (x mod kb) @ '' K'' @ unit
      else fmt_llu x @ '' '' @ unit)"

definition sr_samplerate_string :: "u64 \<Rightarrow> string" where
  "sr_samplerate_string rate = sr_si_string_u64 rate (Some ''Hz'')"

definition sr_samplecount_string :: "u64 \<Rightarrow> string" where
  "sr_samplecount_string samplecount = sr_si_string_u64 samplecount (Some '' Samples'')"

definition sr_period_string :: "u64 \<Rightarrow> string" where
  "sr_period_string frequency = snprintf_buf 30
     (if SR_GHZ1 \<le> frequency then fmt_llu (frequency div 1000000000) @ '' ns''
      else if SR_MHZ1 \<le> frequency then fmt_llu (frequency div 1000000) @ '' us''
      else if SR_KHZ1 \<le> frequency then fmt_llu (frequency div 1000) @ '' ms''
      else fmt_llu frequency @ '' s'')"

text \<open>
  \<open>%0.2lf\<close> of a non-negative number: the nearest number of hundredths, ties to even. A time is
  converted to \<open>double\<close> and divided by its unit.
\<close>

definition fmt_2lf :: "rat \<Rightarrow> string" where
  "fmt_2lf x =
     (let m = \<lfloor>100 * x\<rfloor>; r = 100 * x - of_int m;
          n = nat (if 1 / 2 < r \<or> (r = 1 / 2 \<and> odd m) then m + 1 else m)
      in dec_string (n div 100) @ ''.'' @ pad_left CHR ''0'' 2 (dec_string (n mod 100)))"

definition time_in :: "u64 \<Rightarrow> u64 \<Rightarrow> string" where
  "time_in time per = fmt_2lf (round_double (round_double (of_nat (unat time)) / of_nat (unat per)))"

definition sr_time_string :: "u64 \<Rightarrow> string" where
  "sr_time_string time = snprintf_buf 30
     (if 86400000000000 \<le> time then time_in time 86400000000000 @ '' day''
      else if 3600000000000 \<le> time then time_in time 3600000000000 @ '' hour''
      else if 60000000000 \<le> time then time_in time 60000000000 @ '' min''
      else if 1000000000 \<le> time then time_in time 1000000000 @ '' s''
      else if 1000000 \<le> time then time_in time 1000000 @ '' ms''
      else if 1000 \<le> time then time_in time 1000 @ '' us''
      else fmt_llu time @ '' ns'')"

text \<open>The text of the quotient as a \<open>float\<close>, for other denominators, is a parameter.\<close>

definition sr_voltage_string :: "(u64 \<Rightarrow> u64 \<Rightarrow> string) \<Rightarrow> u64 \<Rightarrow> u64 \<Rightarrow> string" where
  "sr_voltage_string fmt_g v_p v_q = snprintf_buf 30
     (if v_q = 1000 then fmt_llu v_p @ ''mV'' else if v_q = 1 then fmt_llu v_p @ ''V'' else fmt_g v_p v_q @ ''V'')"

section \<open>Reading sizes, times, periods and voltages\<close>

text \<open>The loop over blanks and one suffix: the multiplier, 0 if there is none, and the rest.\<close>

fun size_suffix :: "string \<Rightarrow> u64 \<times> string" where
  "size_suffix [] = (0, [])"
| "size_suffix (c # s) =
     (if c = CHR '' '' then size_suffix s
      else if c \<in> {CHR ''k'', CHR ''K''} then (SR_KHZ1, s)
      else if c \<in> {CHR ''m'', CHR ''M''} then (SR_MHZ1, s)
      else if c \<in> {CHR ''g'', CHR ''G''} then (SR_GHZ1, s)
      else (0, c # s))"

definition sr_parse_sizestring :: "string \<Rightarrow> int \<times> u64" where
  "sr_parse_sizestring sizestring =
     (let (size0, s0) = strtoull10 sizestring;
          (multiplier, s) = size_suffix s0;
          size = (if 0 < multiplier then size0 * multiplier else size0)
      in if s \<noteq> [] \<and> \<not> same_nocase s ''Hz'' then (SR_ERR, size) else (SR_OK, size))"

definition sr_parse_timestring :: "string \<Rightarrow> u64" where
  "sr_parse_timestring timestring =
     (let (time_msec, s) = strtoull10 timestring in
      if time_msec = 0 \<and> s = timestring then 0
      else if s \<noteq> [] then
        (if skip_blanks s = ''s'' then time_msec * 1000 else if skip_blanks s = ''ms'' then time_msec else 0)
      else time_msec)"

definition sr_parse_boolstring :: "string option \<Rightarrow> bool" where
  "sr_parse_boolstring boolstr =
     (case boolstr of None \<Rightarrow> False
      | Some s \<Rightarrow> starts_nocase s ''true'' \<or> starts_nocase s ''yes'' \<or> starts_nocase s ''on'' \<or> starts_nocase s ''1'')"

text \<open>The status, \<open>*p\<close>, and \<open>*q\<close> if it was written.\<close>

definition sr_parse_period :: "string \<Rightarrow> int \<times> u64 \<times> u64 option" where
  "sr_parse_period periodstr =
     (let (p, s0) = strtoull10 periodstr; s = skip_blanks s0 in
      if p = 0 \<and> s0 = periodstr then (SR_ERR_ARG, p, None)
      else if s0 \<noteq> [] then
        (if s = ''fs'' then (SR_OK, p, Some 1000000000000000)
         else if s = ''ps'' then (SR_OK, p, Some 1000000000000)
         else if s = ''ns'' then (SR_OK, p, Some 1000000000)
         else if s = ''us'' then (SR_OK, p, Some 1000000)
         else if s = ''ms'' then (SR_OK, p, Some 1000)
         else if s = ''s'' then (SR_OK, p, Some 1)
         else (SR_ERR_ARG, p, None))
      else (SR_OK, p, None))"

definition sr_parse_voltage :: "string \<Rightarrow> int \<times> u64 \<times> u64 option" where
  "sr_parse_voltage voltstr =
     (let (p, s0) = strtoull10 voltstr; s = skip_blanks s0 in
      if p = 0 \<and> s0 = voltstr then (SR_ERR_ARG, p, None)
      else if s0 \<noteq> [] then
        (if same_nocase s ''mv'' then (SR_OK, p, Some 1000)
         else if same_nocase s ''v'' then (SR_OK, p, Some 1)
         else (SR_ERR_ARG, p, None))
      else (SR_OK, p, None))"

section \<open>Checked conversions\<close>

text \<open>The status, \<open>errno\<close> and the number, if it was written; with the end for the two that return it.\<close>

definition sr_atol :: "string \<Rightarrow> int \<times> int \<times> int option" where
  "sr_atol str =
     (let (tmp, err, endptr) = strtol 10 str in
      case map_option skip_space endptr of
        None \<Rightarrow> (SR_ERR, if err = 0 then EINVAL else err, None)
      | Some rest \<Rightarrow>
          if rest \<noteq> [] \<or> err \<noteq> 0 then (SR_ERR, if err = 0 then EINVAL else err, None)
          else (SR_OK, 0, Some tmp))"

definition sr_atol_base :: "string \<Rightarrow> nat \<Rightarrow> int \<times> int \<times> (int \<times> string) option" where
  "sr_atol_base str0 base0 =
     (let str1 = skip_space str0;
          (str, base) = (if base0 = 0 \<and> take 2 str1 = ''0b'' then (drop 2 str1, 2) else (str1, base0));
          (num, err, endptr) = strtol base str
      in case endptr of
           None \<Rightarrow> (SR_ERR, if err = 0 then EINVAL else err, None)
         | Some rest \<Rightarrow> if err \<noteq> 0 then (SR_ERR, err, None) else (SR_OK, 0, Some (num, skip_space rest)))"

definition sr_atoul_base :: "string \<Rightarrow> nat \<Rightarrow> int \<times> int \<times> (u64 \<times> string) option" where
  "sr_atoul_base str0 base0 =
     (let str1 = skip_space str0;
          (str, base) = (if base0 \<in> {0, 2} \<and> take 2 str1 = ''0b'' then (drop 2 str1, 2) else (str1, base0));
          (num, err, endptr) = strtoul base str
      in case endptr of
           None \<Rightarrow> (SR_ERR, if err = 0 then EINVAL else err, None)
         | Some rest \<Rightarrow> if err \<noteq> 0 then (SR_ERR, err, None) else (SR_OK, 0, Some (num, skip_space rest)))"

definition to_int32 :: "int \<Rightarrow> int" where
  "to_int32 v = sint (word_of_int v :: u32)"

definition sr_atoi :: "string \<Rightarrow> int \<times> int \<times> int option" where
  "sr_atoi str =
     (case sr_atol str of
        (ret, err, None) \<Rightarrow> (SR_ERR, err, None)
      | (ret, err, Some tmp) \<Rightarrow> if to_int32 tmp \<noteq> tmp then (SR_ERR, ERANGE, None) else (SR_OK, err, Some (to_int32 tmp)))"

section \<open>Floating numbers\<close>

text \<open>
  \<open>strtod\<close> and \<open>g_ascii_strtod\<close> are a parameter: the value, what \<open>errno\<close> is set to, and the
  rest, which is the whole text when there is no number; so is the conversion of \<open>double\<close> to
  \<open>float\<close>. \<open>has_ret\<close> says that the pointer for the result is not null. The result is the
  status and the number, if it was written.
\<close>

definition sr_atod :: "(string \<Rightarrow> 'd \<times> int \<times> string) \<Rightarrow> string option \<Rightarrow> bool \<Rightarrow> int \<times> 'd option" where
  "sr_atod strtod str has_ret =
     (case str of None \<Rightarrow> (SR_ERR_ARG, None)
      | Some s \<Rightarrow>
          if \<not> has_ret then (SR_ERR_ARG, None)
          else let (v, err, rest) = strtod s
            in if skip_space rest \<noteq> [] \<or> err \<noteq> 0 then (SR_ERR, None) else (SR_OK, Some v))"

definition sr_atod_ascii :: "(string \<Rightarrow> 'd \<times> int \<times> string) \<Rightarrow> string option \<Rightarrow> bool \<Rightarrow> int \<times> 'd option" where
  "sr_atod_ascii strtod str has_ret =
     (case str of None \<Rightarrow> (SR_ERR_ARG, None)
      | Some s \<Rightarrow>
          if \<not> has_ret then (SR_ERR_ARG, None)
          else let (v, err, rest) = strtod s in if rest \<noteq> [] \<or> err \<noteq> 0 then (SR_ERR, None) else (SR_OK, Some v))"

definition sr_atof_ascii :: "(string \<Rightarrow> 'd \<times> int \<times> string) \<Rightarrow> ('d \<Rightarrow> 'f) \<Rightarrow> string option \<Rightarrow> bool \<Rightarrow> int \<times> 'f option" where
  "sr_atof_ascii strtod to_float str has_ret =
     (if \<not> has_ret then (SR_ERR_ARG, None)
      else case sr_atod_ascii strtod str True of
        (ret, Some v) \<Rightarrow> if ret \<noteq> SR_OK then (SR_ERR, None) else (SR_OK, Some (to_float v))
      | (ret, None) \<Rightarrow> (SR_ERR, None))"

end
