(* ===== verification/Str_Props.thy ===== *)
theory Str_Props
  imports Str_Numbers
begin

text \<open>
  What the printing and reading functions promise together: which printed sample rates are read
  back, and that the conversion to \<open>int\<close> accepts exactly the numbers of the type.
\<close>

section \<open>Scanning what was printed\<close>

lemma digit_in_dec: "is_digit c \<Longrightarrow> digit_in 10 c = Some (digit_val c)"
  by (auto simp: is_digit_def digit_in_def digit_val_def to_lower_def Let_def)

lemma digits_value_append:
  assumes "\<forall>c \<in> set ds. is_digit c" "rest = [] \<or> digit_in 10 (hd rest) = None"
  shows "digits_value 10 (ds @ rest) n = (foldl (\<lambda>n c. 10 * n + digit_val c) n ds, rest)"
  using assms
proof (induction ds arbitrary: n)
  case Nil
  then show ?case by (cases rest) simp_all
next
  case (Cons d ds)
  then show ?case by (simp add: digit_in_dec mult.commute)
qed

lemma digit_facts:
  assumes "is_digit c"
  shows "\<not> is_space c" "c \<noteq> CHR '' ''" "c \<noteq> CHR ''-''" "c \<noteq> CHR ''+''"
  using assms by (auto simp: is_digit_def is_space_def Let_def)

lemma skip_space_dec: "skip_space (dec_string n @ rest) = dec_string n @ rest"
  using dec_string_digits [of n] digit_facts(1)
  by (cases "dec_string n") (auto simp: skip_space_def)

lemma number_sign_dec: "number_sign (dec_string n @ rest) = (False, dec_string n @ rest)"
  using dec_string_digits [of n] digit_facts
  by (cases "dec_string n") (auto simp: number_sign_def)

lemma scan_dec:
  assumes "rest = [] \<or> digit_in 10 (hd rest) = None"
  shows "digits_value 10 (dec_string n @ rest) 0 = (n, rest)"
  using digits_value_append [OF dec_string_digits assms, of n 0] dec_val_dec_string [of n]
  by (simp add: dec_val_def)

lemma scan_number_dec:
  assumes "rest = [] \<or> digit_in 10 (hd rest) = None"
  shows "scan_number 10 (dec_string n @ rest) = Some (False, n, rest)"
    "scan_number 10 (CHR ''-'' # dec_string n @ rest) = Some (True, n, rest)"
proof -
  have sp: "skip_space (CHR ''-'' # s) = CHR ''-'' # s" for s by (simp add: skip_space_def is_space_def)
  show "scan_number 10 (dec_string n @ rest) = Some (False, n, rest)"
    "scan_number 10 (CHR ''-'' # dec_string n @ rest) = Some (True, n, rest)"
    using scan_dec [OF assms, of n]
    by (simp_all add: scan_number_def skip_space_dec number_sign_dec number_base_def sp)
      (simp_all add: number_sign_def)
qed

lemma scan_number_blanks: "scan_number b (replicate k CHR '' '' @ s) = scan_number b s"
proof -
  have "skip_space (replicate k CHR '' '' @ s) = skip_space s"
    by (induction k) (simp_all add: skip_space_def is_space_def)
  then show ?thesis by (simp add: scan_number_def)
qed

lemma strtoull10_fmt:
  assumes "rest = [] \<or> digit_in 10 (hd rest) = None"
  shows "strtoull10 (fmt_llu v @ rest) = (v, rest)"
proof -
  have "unat v < 2 ^ 64" using unsigned_less [of v] by simp
  then show ?thesis
    using scan_number_dec(1) [OF assms, of "unat v"] by (simp add: strtoull10_def strtoul_def fmt_llu_def)
qed

lemma dec_string_length: "n < 10 ^ k \<Longrightarrow> 0 < k \<Longrightarrow> length (dec_string n) \<le> k"
proof (induction n arbitrary: k rule: dec_string_induct)
  case (small n)
  then show ?case by (simp add: dec_string_small)
next
  case (step n)
  then obtain j where k: "k = Suc j" by (cases k) auto
  have "n div 10 < 10 ^ j" using step.prems by (simp add: k div_less_iff_less_mult mult.commute)
  moreover have "0 < j" using step k by (cases j) auto
  ultimately show ?case using step by (simp add: dec_string_step k)
qed

section \<open>Sample rates\<close>

definition rate_unit :: "u64 \<Rightarrow> u64" where
  "rate_unit x = (if SR_GHZ1 \<le> x then SR_GHZ1 else if SR_MHZ1 \<le> x then SR_MHZ1 else if SR_KHZ1 \<le> x then SR_KHZ1 else 1)"

text \<open>The printed text: the number of units, the remainder without leading zeros, and the suffix.\<close>

definition rate_suffix :: "u64 \<Rightarrow> string" where
  "rate_suffix x = (if SR_GHZ1 \<le> x then '' GHz'' else if SR_MHZ1 \<le> x then '' MHz''
     else if SR_KHZ1 \<le> x then (if x mod SR_KHZ1 = 0 then '' kHz'' else '' KHz'') else '' Hz'')"

lemma samplerate_text:
  "sr_samplerate_string x = fmt_llu (x div rate_unit x)
     @ (if x mod rate_unit x = 0 then [] else CHR ''.'' # fmt_llu (x mod rate_unit x)) @ rate_suffix x"
  unfolding sr_samplerate_string_def sr_si_string_u64_def rate_unit_def rate_suffix_def Let_def
  by simp

lemma suffix_of_rate: "size_suffix (rate_suffix x) = (if rate_unit x = 1 then 0 else rate_unit x, ''Hz'')"
  by (simp add: rate_suffix_def rate_unit_def)

lemma rate_unit_pos: "0 < rate_unit x"
  by (simp add: rate_unit_def)

lemma no_digit_follows: "digit_in 10 CHR '' '' = None" "digit_in 10 CHR ''.'' = None"
  by (simp_all add: digit_in_def to_lower_def Let_def)

text \<open>C13: A printed sample rate is read back as itself exactly when it is a whole number of the
  largest unit that it reaches. The others are printed with a remainder, at which
  \<open>sr_parse_sizestring\<close> stops: it reports an error, and the size is left as the number of whole
  units.\<close>

theorem samplerate_read_back:
  "sr_parse_sizestring (sr_samplerate_string x) =
     (if x mod rate_unit x = 0 then (SR_OK, x) else (SR_ERR, x div rate_unit x))"
proof (cases "x mod rate_unit x = 0")
  case True
  have suffix: "hd (rate_suffix x) = CHR '' ''" by (simp add: rate_suffix_def)
  have x: "x div rate_unit x * rate_unit x = x" using True div_mult_mod_eq [of x "rate_unit x"] by simp
  have "strtoull10 (sr_samplerate_string x) = (x div rate_unit x, rate_suffix x)"
    unfolding samplerate_text using True suffix no_digit_follows by (simp add: strtoull10_fmt)
  then show ?thesis
    using True x rate_unit_pos [of x] by (simp add: sr_parse_sizestring_def same_nocase_def suffix_of_rate)
next
  case False
  let ?rest = "CHR ''.'' # fmt_llu (x mod rate_unit x) @ rate_suffix x"
  have "strtoull10 (sr_samplerate_string x) = (x div rate_unit x, ?rest)"
    unfolding samplerate_text using False no_digit_follows by (simp add: strtoull10_fmt)
  moreover have "\<not> same_nocase ?rest ''Hz''" by (simp add: same_nocase_def to_lower_def) (simp add: char_of_def)
  ultimately show ?thesis using False by (simp add: sr_parse_sizestring_def)
qed

text \<open>The remainder has no leading zeros: 1.000007 MHz is printed as 1.7 MHz.\<close>

lemma samplerate_misprint: "sr_samplerate_string 1000007 = ''1.7 MHz''" "sr_samplerate_string 1034 = ''1.34 KHz''"
  by code_simp+

text \<open>A printed period is read back as the quotient that was printed.\<close>

lemma period_read_back:
  "sr_parse_period (sr_period_string f) =
     (SR_OK, if SR_GHZ1 \<le> f then f div SR_GHZ1 else if SR_MHZ1 \<le> f then f div SR_MHZ1
        else if SR_KHZ1 \<le> f then f div SR_KHZ1 else f,
      Some (rate_unit f))"
proof -
  have len: "length (fmt_llu v) \<le> 20" for v
  proof -
    have "unat v < 2 ^ 64" using unsigned_less [of v] by simp
    then have "unat v < 10 ^ 20" by simp
    then show ?thesis unfolding fmt_llu_def by (rule dec_string_length) simp
  qed
  have short: "snprintf_buf 30 (fmt_llu v @ s) = fmt_llu v @ s" if "length s \<le> 3" for v s
    using len [of v] that by (simp add: snprintf_buf_def)
  have nonempty: "fmt_llu v \<noteq> []" for v by (simp add: fmt_llu_def)
  have "strtoull10 (fmt_llu v @ CHR '' '' # s) = (v, CHR '' '' # s)" for v s
    by (rule strtoull10_fmt) (simp add: no_digit_follows)
  then show ?thesis
    by (simp add: sr_period_string_def short sr_parse_period_def rate_unit_def skip_blanks_def nonempty Let_def)
qed

section \<open>Integers\<close>

definition int_string :: "int \<Rightarrow> string" where
  "int_string i = (if i < 0 then CHR ''-'' # dec_string (nat (- i)) else dec_string (nat i))"

lemma to_int32_same: "to_int32 i = i \<longleftrightarrow> - (2 ^ 31) \<le> i \<and> i < 2 ^ 31"
  by (simp add: to_int32_def signed_of_int signed_take_bit_int_eq_self_iff)

lemma skip_blank_end: "skip_space (replicate b CHR '' '') = []"
  by (induction b) (simp_all add: skip_space_def is_space_def)

lemma scan_number_int:
  "scan_number 10 (replicate a CHR '' '' @ int_string i @ replicate b CHR '' '') =
     Some (i < 0, nat \<bar>i\<bar>, replicate b CHR '' '')"
proof -
  have "replicate b CHR '' '' = [] \<or> digit_in 10 (hd (replicate b CHR '' '')) = None"
    by (cases b) (simp_all add: no_digit_follows)
  from scan_number_dec [OF this] show ?thesis
    by (simp add: scan_number_blanks int_string_def)
qed

lemma strtol_int:
  "strtol 10 (replicate a CHR '' '' @ int_string i @ replicate b CHR '' '') =
     (max (- (2 ^ 63)) (min (2 ^ 63 - 1) i), if - (2 ^ 63) \<le> i \<and> i < 2 ^ 63 then 0 else ERANGE,
      Some (replicate b CHR '' ''))"
  by (auto simp: strtol_def scan_number_int Let_def)

text \<open>C15: \<open>sr_atoi\<close> reads the text of a number, with blanks around it, and accepts it exactly when
  it fits an \<open>int\<close>: then it gives that number, otherwise an error with \<open>errno\<close> set to
  \<open>ERANGE\<close>, however many digits the number has.\<close>

theorem atoi_exact:
  "sr_atoi (replicate a CHR '' '' @ int_string i @ replicate b CHR '' '') =
     (if - (2 ^ 31) \<le> i \<and> i < 2 ^ 31 then (SR_OK, 0, Some i) else (SR_ERR, ERANGE, None))"
  unfolding sr_atoi_def sr_atol_def strtol_int
  by (auto simp: skip_blank_end to_int32_same)

text \<open>But a text without a number is read as zero, and no function with a base looks for digits.\<close>

lemma atoi_blank: "sr_atoi (replicate k CHR '' '') = (SR_OK, 0, Some 0)"
proof -
  have "scan_number 10 (replicate k CHR '' '') = None"
    using scan_number_blanks [of 10 k "[]"] by (simp add: scan_number_def skip_space_def number_sign_def number_base_def)
  then show ?thesis
    by (simp add: sr_atoi_def sr_atol_def strtol_def skip_blank_end to_int32_def)
qed

lemma atol_base_garbage: "sr_atol_base ''xyz'' 10 = (SR_OK, 0, Some (0, ''xyz''))"
  by code_simp

end
