(* ===== verification/Str_Text.thy ===== *)
theory Str_Text
  imports Str_Props
begin

text \<open>
  The functions of \<open>strutil.c\<close> on texts: the precision of a printed number, hexadecimal dumps,
  and the splitting of a text into lines and words. The last two write a terminator into the
  text and return pointers into it; here they return the pieces.
\<close>

section \<open>Digits\<close>

text \<open>
  The digits after the point, less the exponent. An exponent without digits is read as zero. The
  difference of two \<open>int\<close> values can overflow.
\<close>

definition sr_count_digits :: "string option \<Rightarrow> fault + int \<times> int option" where
  "sr_count_digits str =
     (case str of
        None \<Rightarrow> Inr (SR_ERR_ARG, None)
      | Some s \<Rightarrow>
          let p1 = snd (number_sign (skip_space s));
              integer_digits = length (takeWhile is_digit p1); p2 = dropWhile is_digit p1;
              point = (p2 \<noteq> [] \<and> hd p2 = CHR ''.'');
              decimal_digits = (if point then length (takeWhile is_digit (tl p2)) else 0);
              p3 = (if point then dropWhile is_digit (tl p2) else p2);
              has_exp = (p3 \<noteq> [] \<and> to_lower (hd p3) = CHR ''e'');
              (exponent, err, exp_end) = (if has_exp then strtol 10 (tl p3) else (0, 0, Some p3))
          in if err \<noteq> 0 then Inr (SR_ERR, None)
             else if exp_end \<noteq> Some [] \<or> (integer_digits = 0 \<and> decimal_digits = 0) then Inr (SR_ERR, None)
             else let digits = int decimal_digits - to_int32 exponent
               in if digits < 2 ^ 31 then Inr (SR_OK, Some digits) else Inl SignedOverflow)"

text \<open>A number with its digits; a result whose pointer is null is not written.\<close>

definition sr_atod_ascii_digits :: "(string \<Rightarrow> 'd \<times> int \<times> string) \<Rightarrow> string option \<Rightarrow> bool \<Rightarrow> bool \<Rightarrow>
    fault + int \<times> 'd option \<times> int option" where
  "sr_atod_ascii_digits strtod str has_ret has_digits =
     ebind (sr_count_digits str) (\<lambda>(ret, precision).
     if ret \<noteq> SR_OK \<or> fst (sr_atod_ascii strtod str True) \<noteq> SR_OK then Inr (SR_ERR, None, None)
     else Inr (SR_OK, if has_ret then snd (sr_atod_ascii strtod str True) else None, if has_digits then precision else None))"

definition sr_atof_ascii_digits :: "(string \<Rightarrow> 'd \<times> int \<times> string) \<Rightarrow> ('d \<Rightarrow> 'f) \<Rightarrow> string option \<Rightarrow> bool \<Rightarrow> bool \<Rightarrow>
    fault + int \<times> 'f option \<times> int option" where
  "sr_atof_ascii_digits strtod to_float str has_ret has_digits =
     ebind (sr_count_digits str) (\<lambda>(ret, precision).
     if ret \<noteq> SR_OK \<or> fst (sr_atof_ascii strtod to_float str True) \<noteq> SR_OK then Inr (SR_ERR, None, None)
     else Inr (SR_OK, if has_ret then snd (sr_atof_ascii strtod to_float str True) else None,
        if has_digits then precision else None))"

section \<open>Hexadecimal dumps\<close>

definition dump_gap :: "nat \<Rightarrow> string" where
  "dump_gap i = (if i \<noteq> 0 then '' '' else []) @ (if i \<noteq> 0 \<and> i mod 8 = 0 then '' '' else [])
     @ (if i \<noteq> 0 \<and> i mod 16 = 0 then '' '' else [])"

fun hexdump_loop :: "u8 list \<Rightarrow> nat \<Rightarrow> nat \<Rightarrow> string \<Rightarrow> fault + string" where
  "hexdump_loop data i 0 out = Inr out"
| "hexdump_loop data i (Suc n) out =
     ebind (rd data i) (\<lambda>b. hexdump_loop data (Suc i) n (out @ dump_gap i @ hex2 b))"

text \<open>A null pointer with a length other than zero gives null.\<close>

definition sr_hexdump_new :: "u8 list option \<Rightarrow> nat \<Rightarrow> fault + string option" where
  "sr_hexdump_new data len =
     (case data of
        None \<Rightarrow> Inr (if len = 0 then Some [] else None)
      | Some bs \<Rightarrow> ebind (hexdump_loop bs 0 len []) (\<lambda>s. Inr (Some s)))"

section \<open>Lines and words\<close>

text \<open>\<open>strip\<close> is GLib's \<open>g_strstrip\<close>.\<close>

definition sr_text_trim_spaces :: "(string \<Rightarrow> string) \<Rightarrow> string option \<Rightarrow> string option" where
  "sr_text_trim_spaces strip text' = map_option strip text'"

text \<open>
  The line, the rest, and what is added to \<open>*taken\<close>. The length counts from the start of the
  text, 0 stands for all of it; the rest is given when something of the length is left.
\<close>

definition sr_text_next_line :: "(string \<Rightarrow> string) \<Rightarrow> string option \<Rightarrow> nat \<Rightarrow>
    string option \<times> string option \<times> nat" where
  "sr_text_next_line strip text' len0 =
     (case text' of
        None \<Rightarrow> (None, None, 0)
      | Some s \<Rightarrow>
          if s = [] then (None, None, 0)
          else let len = (if len0 = 0 then length s else len0);
                   k = length (takeWhile (\<lambda>c. c \<noteq> CHR 0x0A) (take len s))
            in if k = length (take len s) then (None, None, 0)
               else (sr_text_trim_spaces strip (Some (take k s)),
                     if len - Suc k \<noteq> 0 then Some (drop (Suc k) s) else None, Suc k))"

definition sr_text_next_word :: "string option \<Rightarrow> string option \<times> string option" where
  "sr_text_next_word text' =
     (case text' of
        None \<Rightarrow> (None, None)
      | Some s \<Rightarrow>
          if s = [] then (None, None)
          else let word = skip_space s; stop = dropWhile (\<lambda>c. \<not> is_space c) word
            in if word = [] then (None, None)
               else if stop = [] then (Some word, None)
               else let rest = skip_space (tl stop)
                 in (Some (takeWhile (\<lambda>c. \<not> is_space c) word), if rest \<noteq> [] then Some rest else None))"

text \<open>All words, the way the readers of \<open>libsigrok/input\<close> loop over them.\<close>

lemma next_word_rest:
  assumes "sr_text_next_word (Some s) = (w, Some rest)"
  shows "length rest < length s"
proof -
  have drop_le: "length (dropWhile P xs) \<le> length xs" for P and xs :: string by (rule length_dropWhile_le)
  let ?stop = "dropWhile (\<lambda>c. \<not> is_space c) (skip_space s)"
  have "rest = skip_space (tl ?stop)" "?stop \<noteq> []"
    using assms by (auto simp: sr_text_next_word_def Let_def split: if_splits)
  then have "length rest \<le> length (tl ?stop)" "length (tl ?stop) < length ?stop"
    by (simp_all only: skip_space_def drop_le) (cases ?stop, simp_all)
  moreover have "length ?stop \<le> length (skip_space s)" "length (skip_space s) \<le> length s"
    using drop_le unfolding skip_space_def by blast+
  ultimately show ?thesis by linarith
qed

function text_words :: "string option \<Rightarrow> string list" where
  "text_words t = (case sr_text_next_word t of (None, rest) \<Rightarrow> [] | (Some w, rest) \<Rightarrow> w # text_words rest)"
  by auto
termination
proof (relation "measure (\<lambda>t. case t of None \<Rightarrow> 0 | Some s \<Rightarrow> Suc (length s))")
  show "(rest, t) \<in> measure (\<lambda>t. case t of None \<Rightarrow> 0 | Some s \<Rightarrow> Suc (length s))"
    if "(x, rest) = sr_text_next_word t" "x = Some w" for t x rest w
  proof (cases t)
    case None
    then show ?thesis using that by (simp add: sr_text_next_word_def)
  next
    case (Some s)
    then show ?thesis using that next_word_rest [of s x] by (cases rest) auto
  qed
qed simp

declare text_words.simps [simp del]

section \<open>The words of a text\<close>

text \<open>A text that holds the words, each at least a character, with white space in between.\<close>

definition is_word :: "string \<Rightarrow> bool" where
  "is_word w \<longleftrightarrow> w \<noteq> [] \<and> (\<forall>c \<in> set w. \<not> is_space c)"

inductive spaced :: "string list \<Rightarrow> string \<Rightarrow> bool" where
  no_word: "\<forall>c \<in> set g. is_space c \<Longrightarrow> spaced [] g"
| last_word: "\<forall>c \<in> set g. is_space c \<Longrightarrow> is_word w \<Longrightarrow> spaced [w] (g @ w)"
| more_words: "\<forall>c \<in> set g. is_space c \<Longrightarrow> is_word w \<Longrightarrow> is_space c \<Longrightarrow> spaced ws s \<Longrightarrow>
    spaced (w # ws) (g @ w @ c # s)"

lemma skip_space_gap: "\<forall>c \<in> set g. is_space c \<Longrightarrow> skip_space (g @ s) = skip_space s"
  by (simp add: skip_space_def)

lemma skip_space_idem [simp]: "skip_space (skip_space s) = skip_space s"
  by (simp add: skip_space_def)

lemma skip_space_word: "is_word w \<Longrightarrow> skip_space (w @ s) = w @ s"
  by (cases w) (simp_all add: is_word_def skip_space_def)

lemma text_words_none [simp]: "text_words None = []" "text_words (Some []) = []"
  by (subst text_words.simps, simp add: sr_text_next_word_def)+

lemma text_words_skip: "text_words (Some (skip_space s)) = text_words (Some s)"
proof -
  have "sr_text_next_word (Some (skip_space s)) = sr_text_next_word (Some s)"
    by (auto simp: sr_text_next_word_def Let_def skip_space_def)
  then show ?thesis by (simp add: text_words.simps [of "Some s"] text_words.simps [of "Some (skip_space s)"])
qed

lemma text_words_gap: "\<forall>c \<in> set g. is_space c \<Longrightarrow> text_words (Some (g @ s)) = text_words (Some s)"
  using text_words_skip [of "g @ s"] text_words_skip [of s] by (simp add: skip_space_gap)

lemma text_words_cons:
  assumes "is_word w" "s = [] \<or> is_space (hd s)"
  shows "text_words (Some (w @ s)) = w # text_words (Some s)"
proof -
  have split: "dropWhile (\<lambda>c. \<not> is_space c) (w @ s) = s" "takeWhile (\<lambda>c. \<not> is_space c) (w @ s) = w"
    using assms by (cases s; simp add: is_word_def)+
  show ?thesis
  proof (cases s)
    case Nil
    then show ?thesis
      using assms(1) split skip_space_word [OF assms(1), of "[]"]
      by (subst text_words.simps) (simp add: sr_text_next_word_def is_word_def)
  next
    case (Cons c s')
    have "text_words (Some s) = text_words (Some (skip_space s'))"
      using assms(2) text_words_gap [of "[c]" s'] by (simp add: Cons text_words_skip)
    then show ?thesis
      using assms(1) split skip_space_word [OF assms(1), of s]
      by (subst text_words.simps) (auto simp: sr_text_next_word_def is_word_def Cons Let_def)
  qed
qed

lemma spaced_words: "spaced ws s \<Longrightarrow> text_words (Some s) = ws"
proof (induction rule: spaced.induct)
  case (no_word g)
  then show ?case using text_words_gap [of g "[]"] by simp
next
  case (last_word g w)
  then show ?case using text_words_gap [of g w] text_words_cons [of w "[]"] by simp
next
  case (more_words g w c ws s)
  then show ?case
    using text_words_gap [of g "w @ c # s"] text_words_cons [of w "c # s"] text_words_gap [of "[c]" s] by simp
qed

lemma words_spaced: "spaced (text_words (Some s)) s"
proof (induction "length s" arbitrary: s rule: less_induct)
  case less
  define g w r where "g = takeWhile is_space s" and "w = takeWhile (\<lambda>c. \<not> is_space c) (skip_space s)"
    and "r = dropWhile (\<lambda>c. \<not> is_space c) (skip_space s)"
  have g: "\<forall>c \<in> set g. is_space c" by (auto simp: g_def dest: set_takeWhileD)
  have s: "s = g @ w @ r" by (simp add: g_def w_def r_def skip_space_def)
  have r: "r = [] \<or> is_space (hd r)" using hd_dropWhile [of "\<lambda>c. \<not> is_space c" "skip_space s"] by (auto simp: r_def)
  show ?case
  proof (cases "w = []")
    case True
    then have first: "skip_space s = [] \<or> is_space (hd (skip_space s))"
      by (cases "skip_space s") (auto simp: w_def split: if_splits)
    have "skip_space s = []"
    proof (rule ccontr)
      assume "skip_space s \<noteq> []"
      then have "\<not> is_space (hd (skip_space s))" unfolding skip_space_def by (rule hd_dropWhile)
      with first \<open>skip_space s \<noteq> []\<close> show False by simp
    qed
    moreover from this have "r = []" by (simp add: r_def)
    ultimately have "s = g" "text_words (Some s) = []" using text_words_skip [of s] s True by simp_all
    then show ?thesis using g by (auto intro: no_word)
  next
    case False
    then have w: "is_word w" by (auto simp: is_word_def w_def dest: set_takeWhileD)
    have words: "text_words (Some s) = w # text_words (Some r)"
      using text_words_gap [OF g] text_words_cons [OF w r] by (simp add: s)
    show ?thesis
    proof (cases r)
      case Nil
      then show ?thesis using words last_word [OF g w] s by simp
    next
      case (Cons c r')
      have "spaced (text_words (Some r')) r'" by (rule less) (simp add: s Cons)
      moreover have "text_words (Some r) = text_words (Some r')"
        using r text_words_gap [of "[c]" r'] by (simp add: Cons)
      ultimately show ?thesis using more_words [OF g w] r words s by (simp add: Cons)
    qed
  qed
qed

text \<open>C21: Splitting a text by \<open>sr_text_next_word\<close> until it returns null gives the words that the
  text consists of, in order, whatever the white space before, between and behind them; and
  there is no other way to split it.\<close>

theorem next_word_splits: "text_words (Some s) = ws \<longleftrightarrow> spaced ws s"
  using spaced_words words_spaced by blast

text \<open>The words of a dump are its bytes.\<close>

lemma dump_gap_spaces: "\<forall>c \<in> set (dump_gap i). is_space c" "0 < i \<Longrightarrow> dump_gap i \<noteq> []"
  by (auto simp: dump_gap_def is_space_def)

lemma digits_no_space: "\<forall>c \<in> set (digits 16 n). \<not> is_space c"
proof (induction n rule: less_induct)
  case (less n)
  have "\<not> is_space (digit_char d)" if "d < 16" for d
    using less_16_cases [OF that] by (auto simp: digit_char_def is_space_def)
  moreover have "\<forall>c \<in> set (digits 16 (n div 16)). \<not> is_space c" if "\<not> n < 16"
    by (rule less) (use that in simp)
  ultimately show ?case by (subst digits.simps) auto
qed

lemma hex2_word: "is_word (hex2 b)"
proof -
  have "digits 16 n \<noteq> []" for n by (subst digits.simps) simp
  then show ?thesis
    using digits_no_space [of "unat b"]
    by (auto simp: is_word_def hex2_def pad_left_def is_space_def split: if_splits)
qed

lemma spaced_snoc:
  assumes "spaced ws s" "is_word w" "\<forall>c \<in> set g. is_space c" "g \<noteq> []"
  shows "spaced (ws @ [w]) (s @ g @ w)"
  using assms(1)
proof (induction rule: spaced.induct)
  case (no_word g')
  then show ?case using last_word [of "g' @ g" w] assms by (simp add: ball_Un)
next
  case (last_word g' w')
  obtain c g2 where "g = c # g2" using assms(4) by (cases g) auto
  then show ?case using more_words [of g' w' c "[w]" "g2 @ w"] spaced.last_word [of g2 w] last_word assms by simp
next
  case (more_words g' w' c ws s)
  then show ?case using spaced.more_words [of g' w' c "ws @ [w]" "s @ g @ w"] by simp
qed

lemma hexdump_loop_spaced:
  assumes "hexdump_loop data i n out = Inr s" "spaced (map hex2 (take i data)) out" "i = 0 \<longrightarrow> out = []"
  shows "spaced (map hex2 (take (i + n) data)) s"
  using assms
proof (induction n arbitrary: i out)
  case 0
  then show ?case by simp
next
  case (Suc n)
  then have i: "i < length data" and step: "hexdump_loop data (Suc i) n (out @ dump_gap i @ hex2 (data ! i)) = Inr s"
    by (simp_all add: rd_def split: if_splits)
  have "spaced (map hex2 (take i data) @ [hex2 (data ! i)]) (out @ dump_gap i @ hex2 (data ! i))"
  proof (cases "i = 0")
    case True
    then show ?thesis using last_word [of "[]" "hex2 (data ! i)"] hex2_word Suc.prems by (simp add: dump_gap_def)
  next
    case False
    then show ?thesis using spaced_snoc [OF Suc.prems(2) hex2_word] dump_gap_spaces by simp
  qed
  then show ?case using Suc.IH [OF step] i by (simp add: take_Suc_conv_app_nth)
qed

lemma hexdump_words:
  "sr_hexdump_new (Some data) (length data) = Inr (Some s) \<Longrightarrow> text_words (Some s) = map hex2 data"
  using hexdump_loop_spaced [of data 0 "length data" "[]" s] no_word [of "[]"]
  by (auto simp: sr_hexdump_new_def ebind_eq_Inr intro: spaced_words)

end
