(* ===== verification/Spec2Isabelle.thy ===== *)
theory Spec2Isabelle
  imports Trigger Srd_Session Ds1307_Props Max7219_Props Feed_Queue Lib_Gaps Event_Props Str_Text
begin

text \<open>
  Verification of the C core of PXTOOL, a logic analyser: the capture library
  \<open>src/libsigrok\<close> and the decoding library \<open>src/libsigrokdecode\<close>.

  The parts and how they work together. The user interface opens a device through the front end
  of libsigrok (\<open>lib_main.c\<close>), which keeps the list of devices (\<open>dsdevice.c\<close>, \<open>hwdriver.c\<close>,
  \<open>device_source.c\<close>), follows the hotplug events of the USB bus and starts a thread that runs a
  session (\<open>session.c\<close>): the session polls the event sources of the driver, whose callbacks
  deliver packets. The trigger (\<open>trigger.c\<close>) tells the hardware when to start; input modules
  collect their samples in feed queues (\<open>input/feed_queue.c\<close>) before they are sent; analog packets
  are converted with \<open>analog.c\<close>; numbers are printed and read with \<open>strutil.c\<close>. The samples
  go on to libsigrokdecode, in chunks: a decoding session (\<open>session.c\<close>) hands a chunk to the
  instances of its decoders (\<open>instance.c\<close>), each with a worker thread. A decoder written in C
  (\<open>c_decoders/*.c\<close>) runs in that thread and calls the interface \<open>c_decoder_api.c\<close>: it waits
  for conditions on its channels, which the matching engine of \<open>instance.c\<close> finds in the buffers,
  reads pins, and puts annotations and protocol messages; messages go to the decoders stacked on
  it.

  How the code is modelled. A struct is a record, an enumeration or tagged union a datatype, an
  unsigned integer a machine word. Operations take and return the state; a null pointer is None.
  What has no defined result in C (a failed assertion, an index outside an array, memory used
  after it was freed, a bad shift, \<dots>) is a value of the type \<open>fault\<close>, so that its absence
  is a statement. Where the memory that objects share matters there is an explicit heap
  (\<open>Lib_State\<close>, \<open>Srd_Instance\<close>). Locks are taken as atomic steps; the two threads of a
  decoder are a step relation (\<open>Srd_Handshake\<close>), the threads of the library front end are
  operations that may come in any order. What drivers, GLib and libusb do is a parameter.

  The theories, from the bottom up.

  \<^item> \<open>PX_Prelude\<close>: integer types, status codes, faults, printing of numbers, shared lemmas.
    \<open>Op_System\<close>: the contracts that components offer, as locales: operations with an invariant
    (\<open>op_system\<close>), that are safe under a precondition (\<open>safe_op_system\<close>), that fault only as
    said (\<open>faulty_op_system\<close>), that follow a plain description (\<open>op_simulation\<close>), and step
    relations with an invariant (\<open>transition_system\<close>). What follows for whole histories is proved
    there once.
  \<^item> \<open>Trigger\<close> (\<open>trigger.c\<close>): the global trigger record and every function on it. A stage that
    is set from probe strings is read back from the hardware words; every history of calls within
    the documented ranges is free of faults.
  \<^item> \<open>Device\<close> (\<open>dsdevice.c\<close>, \<open>hwdriver.c\<close>, \<open>device_source.c\<close>): instances, channels, USB scan,
    configuration.
  \<^item> \<open>Lib_State\<close>, \<open>Lib_Main\<close> (\<open>lib_main.c\<close>): the library context, its heap of devices and
    every operation, with the rounds of the hotplug thread and the phases of the collect thread.
    \<open>Lib_Invariant\<close>, \<open>Lib_Protocol\<close>, \<open>Lib_Hotplug\<close>, \<open>Lib_Props\<close>: no history leaves a freed
    device in the list; the order of driver calls; the events of a run; unplugging with and without
    coming back; the list as a list of handles. \<open>Lib_Gaps\<close>: histories in which the code does
    not do what it means to.
  \<^item> \<open>Event_Sources\<close>, \<open>Event_Props\<close> (\<open>libsigrok/session.c\<close>): the two parallel arrays of
    event sources against a list, a round of the polling loop, and the end of a run.
  \<^item> \<open>Feed_Queue\<close> (\<open>input/feed_queue.c\<close>): both queues and the transposition of cross data. Their
    shared contract is the locale \<open>sample_queue\<close>; what is submitted is what is sent.
  \<^item> \<open>Analog\<close> (\<open>analog.c\<close>): reading and writing encoded integers, conversion to floating numbers,
    units.
  \<^item> \<open>Str_Numbers\<close>, \<open>Str_Props\<close>, \<open>Str_Text\<close> (\<open>strutil.c\<close>): printing and reading numbers, what
    is read back, and splitting texts into words.
  \<^item> \<open>Srd_Match\<close> (\<open>instance.c\<close>): terms, conditions, and the scan of the buffers of a chunk.
    \<open>Srd_Match_Spec\<close>: the scan stops at the first sample where a condition holds, stated over the
    signal.
  \<^item> \<open>Srd_Instance\<close> (\<open>instance.c\<close>): instances and their store, channels, stacking, reset, a wait,
    and handing over a chunk. \<open>Srd_Handshake\<close>: the step relation of caller and worker.
    \<open>Srd_Instance_Props\<close>: a whole wait, fresh names, the reset of a stack, no deadlock, and buffers
    that are given back.
  \<^item> \<open>Srd_Api\<close>, \<open>Srd_Api_Props\<close> (\<open>c_decoder_api.c\<close>): variable arguments, options, outputs and
    messages, and what a callback may be given. \<open>Srd_Session\<close> (\<open>libsigrokdecode/session.c\<close>).
  \<^item> \<open>Decoder_Calls\<close>, \<open>Bit_Rate\<close>: the calls decoders make, as values, and the arithmetic on
    \<open>double\<close> they share. \<open>Decoder_Run\<close>: the locale \<open>c_decoder\<close>, the contract between a decoder's
    loop and the engine. Inside it the loop is proved equal to a walk that looks at each sample of
    the chunk once. \<open>Decoder_Stack\<close>: the locale \<open>stacked_decoder\<close> for a decoder that is fed
    messages. \<open>Demo_Chunk\<close>: a chunk for the examples.
  \<^item> \<open>I2C_Decoder\<close>, \<open>I2C_Props\<close>, \<open>I2C_Bus\<close> (\<open>i2c_c.c\<close>): the decoder reports exactly the
    transfers that a waveform carries, whatever its timing. \<open>Ds1307_Decoder\<close>, \<open>Ds1307_Props\<close>
    (\<open>ds1307_c.c\<close>): stacked on it, it reports the time that a transfer on the wires sets.
    \<open>Spi_Decoder\<close>, \<open>Spi_Props\<close> (\<open>spi_c.c\<close>): the decoder does what a short reference on the
    samples does, in every mode. \<open>Max7219_Decoder\<close>, \<open>Max7219_Props\<close> (\<open>max7219_c.c\<close>): stacked
    on it, it never hears a word, because the two disagree on the fields of a message.

  Loops. Most recursion is structural or has a measure. A decoder's loop over waits takes fuel, one
  unit a wait: as each wait uses up at least a sample, a chunk of \<open>n\<close> samples needs less than
  \<open>n + 1\<close>, which is what the theorems ask for, and they state that the loop then ends asleep, not
  that it ran out. Bulk submission to a queue takes one unit of fuel a sample in the same way. The
  loops of a session, which end only when the callbacks let them, are partial functions whose None
  is a run without end; that a run returns is a theorem. The bounds in hypotheses are those of the
  types (fewer than \<open>2 ^ 64\<close> samples) and of the hardware (sample rates of up to 1 or 2 GHz, for
  which a bit rate fits an \<open>int\<close>).

  Not modelled. Hardware drivers (\<open>libsigrok/hardware\<close>) and the session driver: USB transfers and
  archives, whose other end is not in the repository; a driver is a parameter with the functions
  of \<open>struct sr_dev_driver\<close>. Input and output formats. Decoders written in Python and what loads
  them (\<open>decoder.c\<close>, \<open>type_decoder.c\<close>, \<open>srd.c\<close>): reference counts and the interpreter. The
  other decoders in \<open>c_decoders\<close>, some two hundred with the same interface. Logging, tables of
  texts, version numbers, and functions that only release memory. Vendored code (\<open>minilzo\<close>,
  \<open>minizip\<close>). The user interface in C++ (\<open>PXTOOL/pv\<close>). Failing allocations, except in the
  table of event sources. Floating numbers other than the roundings of \<open>Bit_Rate\<close> and the times
  of \<open>strutil.c\<close>: a record of operations or a parameter.
\<close>

end
